(* ===== verification/Prelude.thy ===== *)
theory Prelude
  imports Main "HOL-Library.Word" "HOL-Library.Multiset"
begin

text \<open>
  Shared vocabulary of the development: the machine integer types of the C and C++ sources, the
  exceptions the sources throw (as values of a sum type), and the generic lemmas on lists, options
  and multisets that the component theories use.
\<close>

section \<open>Types\<close>

type_synonym u8 = "8 word"
type_synonym u16 = "16 word"
type_synonym u32 = "32 word"
type_synonym u64 = "64 word"

text \<open>
  The exceptions that reach a handler of the sources: the standard exceptions, the type errors of
  the JSON library, and the three machine exceptions of the virtual machine monitor. The memory
  exception carries the address, the size and the out-of-memory flag; the machine exception its
  message and its data word.
\<close>

datatype exn =
    RuntimeError string
  | OutOfRange string
  | InvalidArgument string
  | JsonError string
  | TimeoutException
  | MemoryException u64 u64 bool
  | MachineException string u64

text \<open>A computation that may throw: \<open>Inl\<close> is the exception, \<open>Inr\<close> the value.\<close>

type_synonym 'a res = "exn + 'a"

definition bind_res :: "'a res \<Rightarrow> ('a \<Rightarrow> 'b res) \<Rightarrow> 'b res" where
  "bind_res r k = (case r of Inl e \<Rightarrow> Inl e | Inr x \<Rightarrow> k x)"

lemma bind_res_Inr [simp]: "bind_res r k = Inr y \<longleftrightarrow> (\<exists>x. r = Inr x \<and> k x = Inr y)"
  by (auto simp: bind_res_def split: sum.splits)

section \<open>Collections of facts\<close>

named_theorems step_simps \<open>unfolding rules for the operations of a component\<close>
named_theorems inv_intros \<open>preservation of a component's invariant by its operations\<close>

section \<open>The index of the first element with a property\<close>

text \<open>The loop \<open>for (idx = 0; idx < size; idx++) if (P(v[idx])) return idx;\<close>.\<close>

fun first_index :: "('a \<Rightarrow> bool) \<Rightarrow> 'a list \<Rightarrow> nat option" where
  "first_index P [] = None"
| "first_index P (x # xs) = (if P x then Some 0 else map_option Suc (first_index P xs))"

lemma first_index_None: "first_index P xs = None \<longleftrightarrow> (\<forall>x \<in> set xs. \<not> P x)"
  by (induction xs) auto

lemma first_index_SomeD:
  "first_index P xs = Some i \<Longrightarrow> i < length xs \<and> P (xs ! i) \<and> (\<forall>j < i. \<not> P (xs ! j))"
proof (induction xs arbitrary: i)
  case Nil
  then show ?case by simp
next
  case (Cons x xs)
  show ?case
  proof (cases "P x")
    case True
    with Cons.prems show ?thesis by simp
  next
    case False
    with Cons.prems obtain k where k: "first_index P xs = Some k" "i = Suc k"
      by auto
    with Cons.IH [OF k(1)] False show ?thesis
      by (auto simp: nth_Cons less_Suc_eq_0_disj split: nat.splits)
  qed
qed

lemma first_index_SomeI:
  "\<lbrakk>i < length xs; P (xs ! i); \<And>j. j < i \<Longrightarrow> \<not> P (xs ! j)\<rbrakk> \<Longrightarrow> first_index P xs = Some i"
proof (induction xs arbitrary: i)
  case Nil
  then show ?case by simp
next
  case (Cons x xs)
  show ?case
  proof (cases i)
    case 0
    with Cons.prems show ?thesis by simp
  next
    case (Suc k)
    with Cons.prems(3) [of 0] have "\<not> P x" by simp
    moreover have "first_index P xs = Some k"
      using Cons.prems(1,2) Suc
    proof (intro Cons.IH)
      fix j
      assume "j < k"
      with Cons.prems(3) [of "Suc j"] Suc show "\<not> P (xs ! j)" by simp
    qed simp_all
    ultimately show ?thesis using Suc by simp
  qed
qed

lemma first_index_Some_iff:
  "first_index P xs = Some i \<longleftrightarrow> i < length xs \<and> P (xs ! i) \<and> (\<forall>j < i. \<not> P (xs ! j))"
  by (blast dest: first_index_SomeD intro: first_index_SomeI)

lemma first_index_Some_mem: "first_index P xs = Some i \<Longrightarrow> xs ! i \<in> set xs \<and> P (xs ! i)"
  by (auto dest: first_index_SomeD)

lemma first_index_map: "first_index P (map f xs) = first_index (P \<circ> f) xs"
  by (induction xs) auto

section \<open>Removing one element by index\<close>

fun remove_nth :: "nat \<Rightarrow> 'a list \<Rightarrow> 'a list" where
  "remove_nth k [] = []"
| "remove_nth 0 (x # xs) = xs"
| "remove_nth (Suc k) (x # xs) = x # remove_nth k xs"

lemma mset_remove_nth: "k < length xs \<Longrightarrow> add_mset (xs ! k) (mset (remove_nth k xs)) = mset xs"
  by (induction k xs rule: remove_nth.induct) auto

lemma set_remove_nth: "set (remove_nth k xs) \<subseteq> set xs"
  by (induction k xs rule: remove_nth.induct) auto

lemma in_set_remove_nthD: "x \<in> set (remove_nth k xs) \<Longrightarrow> x \<in> set xs"
  using set_remove_nth by fast

lemma sorted_wrt_remove_nth: "sorted_wrt P xs \<Longrightarrow> sorted_wrt P (remove_nth k xs)"
  by (induction k xs rule: remove_nth.induct) (auto dest: in_set_remove_nthD)

lemma remove_nth_distinct_map:
  "\<lbrakk>distinct (map f xs); k < length xs\<rbrakk> \<Longrightarrow> f (xs ! k) \<notin> f ` set (remove_nth k xs)"
proof (induction k xs rule: remove_nth.induct)
  case (3 k x xs)
  then have "f (xs ! k) \<noteq> f x" by (metis distinct.simps(2) image_eqI list.map(2) nth_mem set_map length_Cons Suc_less_eq)
  with 3 show ?case by auto
qed auto

lemma length_remove_nth [simp]: "k < length xs \<Longrightarrow> length (remove_nth k xs) = length xs - 1"
  by (induction k xs rule: remove_nth.induct) auto

section \<open>Updating one list of a list of lists\<close>

lemma mset_concat_append:
  "k < length qs \<Longrightarrow> mset (concat (qs[k := qs ! k @ [i]])) = add_mset i (mset (concat qs))"
  by (induction qs arbitrary: k) (auto split: nat.splits)

lemma mset_concat_remove1:
  "\<lbrakk>k < length qs; i \<in> set (qs ! k)\<rbrakk> \<Longrightarrow>
     add_mset i (mset (concat (qs[k := remove1 i (qs ! k)]))) = mset (concat qs)"
proof (induction qs arbitrary: k)
  case (Cons q qs)
  show ?case
  proof (cases k)
    case 0
    with Cons.prems show ?thesis by simp
  next
    case (Suc n)
    with Cons have "mset (concat qs) = add_mset i (mset (concat (qs[n := remove1 i (qs ! n)])))" by simp
    then show ?thesis by (simp add: Suc)
  qed
qed simp

lemma set_concat_append: "k < length qs \<Longrightarrow> set (concat (qs[k := qs ! k @ [i]])) = insert i (set (concat qs))"
  using arg_cong [OF mset_concat_append, of k qs set_mset i] by simp

lemma set_concat_remove1: "k < length qs \<Longrightarrow> set (concat (qs[k := remove1 i (qs ! k)])) \<subseteq> set (concat qs)"
  by (induction qs arbitrary: k) (auto split: nat.splits dest: notin_set_remove1)

section \<open>Statements that change a state and may throw\<close>

text \<open>
  A statement returns the state it leaves behind and, when it throws, the exception. The state is
  returned in both cases: what was assigned before an exception stays assigned.
\<close>

type_synonym 's stmt = "'s \<Rightarrow> 's \<times> exn option"

definition stmt_skip :: "'s stmt" where
  "stmt_skip s = (s, None)"

definition stmt_throw :: "exn \<Rightarrow> 's stmt" where
  "stmt_throw e s = (s, Some e)"

definition stmt_upd :: "('s \<Rightarrow> 's) \<Rightarrow> 's stmt" where
  "stmt_upd f s = (f s, None)"

definition stmt_seq :: "'s stmt \<Rightarrow> 's stmt \<Rightarrow> 's stmt" where
  "stmt_seq a b s = (case a s of (s', None) \<Rightarrow> b s' | (s', Some e) \<Rightarrow> (s', Some e))"

text \<open>Evaluate a fallible expression and continue with its value.\<close>

definition stmt_with :: "'x res \<Rightarrow> ('x \<Rightarrow> 's stmt) \<Rightarrow> 's stmt" where
  "stmt_with r k = (case r of Inl e \<Rightarrow> stmt_throw e | Inr x \<Rightarrow> k x)"

definition stmt_when :: "bool \<Rightarrow> 's stmt \<Rightarrow> 's stmt" where
  "stmt_when b a = (if b then a else stmt_skip)"

text \<open>\<open>if (cond) throw e;\<close> with a condition on the current state.\<close>

definition stmt_throw_if :: "('s \<Rightarrow> bool) \<Rightarrow> exn \<Rightarrow> 's stmt" where
  "stmt_throw_if c e s = (s, if c s then Some e else None)"

fun stmt_for :: "'x list \<Rightarrow> ('x \<Rightarrow> 's stmt) \<Rightarrow> 's stmt" where
  "stmt_for [] k = stmt_skip"
| "stmt_for (x # xs) k = stmt_seq (k x) (stmt_for xs k)"

lemmas stmt_defs = stmt_skip_def stmt_throw_def stmt_upd_def stmt_seq_def stmt_with_def stmt_when_def
  stmt_throw_if_def

subsection \<open>Statements that keep a property when they complete\<close>

definition stmt_keeps :: "('s \<Rightarrow> bool) \<Rightarrow> 's stmt \<Rightarrow> bool" where
  "stmt_keeps P a \<longleftrightarrow> (\<forall>s. P s \<longrightarrow> snd (a s) = None \<longrightarrow> P (fst (a s)))"

named_theorems keeps_intros \<open>rules for stmt_keeps\<close>

lemma stmt_keepsD: "\<lbrakk>stmt_keeps P a; a s = (s', None); P s\<rbrakk> \<Longrightarrow> P s'"
  by (auto simp: stmt_keeps_def dest!: spec [of _ s])

lemma stmt_keeps_simple [keeps_intros]:
  "stmt_keeps P stmt_skip" "stmt_keeps P (stmt_throw e)" "stmt_keeps P (stmt_throw_if c e)"
  by (auto simp: stmt_keeps_def stmt_defs)

lemma stmt_keeps_upd [keeps_intros]: "(\<And>s. P s \<Longrightarrow> P (f s)) \<Longrightarrow> stmt_keeps P (stmt_upd f)"
  by (auto simp: stmt_keeps_def stmt_defs)

lemma stmt_keeps_seq [keeps_intros]:
  "\<lbrakk>stmt_keeps P a; stmt_keeps P b\<rbrakk> \<Longrightarrow> stmt_keeps P (stmt_seq a b)"
  unfolding stmt_keeps_def stmt_seq_def
  by (auto split: prod.splits option.splits)

lemma stmt_keeps_with [keeps_intros]:
  "(\<And>x. r = Inr x \<Longrightarrow> stmt_keeps P (k x)) \<Longrightarrow> stmt_keeps P (stmt_with r k)"
  by (auto simp: stmt_keeps_def stmt_defs split: sum.splits)

lemma stmt_keeps_if [keeps_intros]:
  "\<lbrakk>c \<Longrightarrow> stmt_keeps P a; \<not> c \<Longrightarrow> stmt_keeps P b\<rbrakk> \<Longrightarrow> stmt_keeps P (if c then a else b)"
  by simp

lemma stmt_keeps_when [keeps_intros]: "(c \<Longrightarrow> stmt_keeps P a) \<Longrightarrow> stmt_keeps P (stmt_when c a)"
  by (simp add: stmt_when_def stmt_keeps_simple)

lemma stmt_keeps_for [keeps_intros]:
  "(\<And>x. x \<in> set xs \<Longrightarrow> stmt_keeps P (k x)) \<Longrightarrow> stmt_keeps P (stmt_for xs k)"
  by (induction xs) (auto intro: stmt_keeps_simple stmt_keeps_seq)

subsection \<open>Statements that never touch a part of the state\<close>

definition stmt_fixes :: "('s \<Rightarrow> 'f) \<Rightarrow> 's stmt \<Rightarrow> bool" where
  "stmt_fixes f a \<longleftrightarrow> (\<forall>s. f (fst (a s)) = f s)"

named_theorems fixes_intros \<open>rules for stmt_fixes\<close>

lemma stmt_fixesD: "stmt_fixes f a \<Longrightarrow> f (fst (a s)) = f s"
  by (simp add: stmt_fixes_def)

lemma stmt_fixes_simple [fixes_intros]:
  "stmt_fixes f stmt_skip" "stmt_fixes f (stmt_throw e)" "stmt_fixes f (stmt_throw_if c e)"
  by (auto simp: stmt_fixes_def stmt_defs)

lemma stmt_fixes_upd [fixes_intros]: "(\<And>s. f (h s) = f s) \<Longrightarrow> stmt_fixes f (stmt_upd h)"
  by (auto simp: stmt_fixes_def stmt_defs)

lemma stmt_fixes_seq [fixes_intros]:
  "\<lbrakk>stmt_fixes f a; stmt_fixes f b\<rbrakk> \<Longrightarrow> stmt_fixes f (stmt_seq a b)"
  unfolding stmt_fixes_def stmt_seq_def by (auto split: prod.splits option.splits) (metis fst_conv)+

lemma stmt_fixes_with [fixes_intros]:
  "(\<And>x. r = Inr x \<Longrightarrow> stmt_fixes f (k x)) \<Longrightarrow> stmt_fixes f (stmt_with r k)"
  by (auto simp: stmt_fixes_def stmt_defs split: sum.splits)

lemma stmt_fixes_if [fixes_intros]:
  "\<lbrakk>c \<Longrightarrow> stmt_fixes f a; \<not> c \<Longrightarrow> stmt_fixes f b\<rbrakk> \<Longrightarrow> stmt_fixes f (if c then a else b)"
  by simp

lemma stmt_fixes_when [fixes_intros]: "(c \<Longrightarrow> stmt_fixes f a) \<Longrightarrow> stmt_fixes f (stmt_when c a)"
  by (simp add: stmt_when_def stmt_fixes_simple)

lemma stmt_fixes_for [fixes_intros]:
  "(\<And>x. x \<in> set xs \<Longrightarrow> stmt_fixes f (k x)) \<Longrightarrow> stmt_fixes f (stmt_for xs k)"
  by (induction xs) (auto intro: stmt_fixes_simple stmt_fixes_seq)

subsection \<open>Statements that keep a property, also when they throw\<close>

definition stmt_inv :: "('s \<Rightarrow> bool) \<Rightarrow> 's stmt \<Rightarrow> bool" where
  "stmt_inv P a \<longleftrightarrow> (\<forall>s. P s \<longrightarrow> P (fst (a s)))"

named_theorems sinv_intros \<open>rules for stmt_inv\<close>

lemma stmt_invI: "(\<And>s. P s \<Longrightarrow> P (fst (a s))) \<Longrightarrow> stmt_inv P a"
  by (simp add: stmt_inv_def)

lemma stmt_invD: "\<lbrakk>stmt_inv P a; a s = (s', e); P s\<rbrakk> \<Longrightarrow> P s'"
  by (metis fst_conv stmt_inv_def)

lemma stmt_inv_simple [sinv_intros]:
  "stmt_inv P stmt_skip" "stmt_inv P (stmt_throw e)" "stmt_inv P (stmt_throw_if c e)"
  by (auto simp: stmt_inv_def stmt_defs)

lemma stmt_inv_upd [sinv_intros]: "(\<And>s. P s \<Longrightarrow> P (f s)) \<Longrightarrow> stmt_inv P (stmt_upd f)"
  by (auto simp: stmt_inv_def stmt_defs)

lemma stmt_inv_seq [sinv_intros]: "\<lbrakk>stmt_inv P a; stmt_inv P b\<rbrakk> \<Longrightarrow> stmt_inv P (stmt_seq a b)"
proof (rule stmt_invI)
  fix s assume a: "stmt_inv P a" and b: "stmt_inv P b" and s: "P s"
  obtain s1 e where e: "a s = (s1, e)" by fastforce
  from stmt_invD [OF a e s] b e show "P (fst (stmt_seq a b s))"
    by (cases e) (auto simp: stmt_seq_def stmt_inv_def)
qed

lemma stmt_inv_with [sinv_intros]:
  "(\<And>x. r = Inr x \<Longrightarrow> stmt_inv P (k x)) \<Longrightarrow> stmt_inv P (stmt_with r k)"
  by (cases r) (simp_all add: stmt_with_def stmt_inv_simple)

lemma stmt_inv_if [sinv_intros]:
  "\<lbrakk>c \<Longrightarrow> stmt_inv P a; \<not> c \<Longrightarrow> stmt_inv P b\<rbrakk> \<Longrightarrow> stmt_inv P (if c then a else b)"
  by simp

lemma stmt_inv_when [sinv_intros]: "(c \<Longrightarrow> stmt_inv P a) \<Longrightarrow> stmt_inv P (stmt_when c a)"
  by (simp add: stmt_when_def stmt_inv_simple)

lemma stmt_inv_split:
  "(\<And>s. stmt_inv P (k s)) \<Longrightarrow> stmt_inv P (\<lambda>s. k s s)"
  by (auto simp: stmt_inv_def)

end
