(* ===== verification/Slot_Table.thy ===== *)
theory Slot_Table
  imports Prelude
begin

text \<open>
  The contract of a table that hands out small integer handles and re-uses the handles that were
  given back. Two components of the program keep such a table: the handle cache of a virtual
  machine (regular expressions) and the timer system (timer ids). The clients are guest programs,
  which keep a handle across any number of other calls; what they rely on is proved here once.
\<close>

section \<open>Interface\<close>

datatype 'v slot_op = SlotAlloc 'v | SlotRelease nat

text \<open>
  A client's sequence of calls. An allocation that throws leaves the table as it was, and a client
  only gives back handles that are live.
\<close>

fun run_slots ::
    "('v \<Rightarrow> 't \<Rightarrow> (nat \<times> 't) option) \<Rightarrow> (nat \<Rightarrow> 't \<Rightarrow> 't) \<Rightarrow> ('t \<Rightarrow> nat \<Rightarrow> 'v option) \<Rightarrow>
     'v slot_op list \<Rightarrow> 't \<Rightarrow> 't" where
  "run_slots alloc release live [] t = t"
| "run_slots alloc release live (SlotAlloc v # ops) t =
     (case alloc v t of
        None \<Rightarrow> run_slots alloc release live ops t
      | Some (i, t') \<Rightarrow> run_slots alloc release live ops t')"
| "run_slots alloc release live (SlotRelease i # ops) t =
     (if live t i = None then run_slots alloc release live ops t
      else run_slots alloc release live ops (release i t))"

definition ops_valid :: "('v \<Rightarrow> bool) \<Rightarrow> 'v slot_op list \<Rightarrow> bool" where
  "ops_valid valid ops \<longleftrightarrow> (\<forall>v. SlotAlloc v \<in> set ops \<longrightarrow> valid v)"

lemma ops_valid_Cons [simp]:
  "ops_valid valid (SlotAlloc v # ops) \<longleftrightarrow> valid v \<and> ops_valid valid ops"
  "ops_valid valid (SlotRelease i # ops) \<longleftrightarrow> ops_valid valid ops"
  "ops_valid valid []"
  by (auto simp: ops_valid_def)

locale slot_table =
  fixes tinv :: "'t \<Rightarrow> bool"
    and valid :: "'v \<Rightarrow> bool"
    and live :: "'t \<Rightarrow> nat \<Rightarrow> 'v option"
    and alloc :: "'v \<Rightarrow> 't \<Rightarrow> (nat \<times> 't) option"
    and release :: "nat \<Rightarrow> 't \<Rightarrow> 't"
  assumes alloc_inv: "\<lbrakk>tinv t; valid v; alloc v t = Some (i, t')\<rbrakk> \<Longrightarrow> tinv t'"
    and alloc_fresh: "\<lbrakk>tinv t; valid v; alloc v t = Some (i, t')\<rbrakk> \<Longrightarrow> live t i = None"
    and alloc_live: "\<lbrakk>tinv t; valid v; alloc v t = Some (i, t')\<rbrakk> \<Longrightarrow> live t' = (live t)(i \<mapsto> v)"
    and release_inv: "\<lbrakk>tinv t; live t i \<noteq> None\<rbrakk> \<Longrightarrow> tinv (release i t)"
    and release_live: "\<lbrakk>tinv t; live t i \<noteq> None\<rbrakk> \<Longrightarrow> live (release i t) = (live t)(i := None)"
begin

abbreviation run :: "'v slot_op list \<Rightarrow> 't \<Rightarrow> 't" where
  "run \<equiv> run_slots alloc release live"

lemma release_someD:
  "\<lbrakk>tinv t; live t i = Some v\<rbrakk> \<Longrightarrow> tinv (release i t) \<and> live (release i t) = (live t)(i := None)"
  by (simp add: release_inv release_live)

lemma run_inv: "\<lbrakk>tinv t; ops_valid valid ops\<rbrakk> \<Longrightarrow> tinv (run ops t)"
proof (induction ops arbitrary: t)
  case (Cons op ops)
  then show ?case
    by (cases op) (auto dest: alloc_inv release_someD split: option.splits)
qed simp

lemma alloc_other: "\<lbrakk>tinv t; valid v; alloc v t = Some (i, t'); live t j = Some w\<rbrakk> \<Longrightarrow> live t' j = Some w"
  using alloc_fresh alloc_live by fastforce

lemma handle_stable:
  "\<lbrakk>tinv t; ops_valid valid ops; live t i = Some v; SlotRelease i \<notin> set ops\<rbrakk>
     \<Longrightarrow> live (run ops t) i = Some v"
proof (induction ops arbitrary: t)
  case Nil
  then show ?case by simp
next
  case (Cons op ops)
  show ?case
  proof (cases op)
    case (SlotAlloc w)
    with Cons show ?thesis
      by (auto intro: alloc_inv alloc_other split: option.splits)
  next
    case (SlotRelease j)
    with Cons show ?thesis
      by (auto dest: release_someD)
  qed
qed

lemma alloc_then_run:
  "\<lbrakk>tinv t; valid v; alloc v t = Some (i, t'); ops_valid valid ops; SlotRelease i \<notin> set ops\<rbrakk>
     \<Longrightarrow> live (run ops t') i = Some v"
  by (rule handle_stable) (simp_all add: alloc_live alloc_inv)

lemma distinct_handles:
  "\<lbrakk>tinv t; valid v; alloc v t = Some (i, t'); ops_valid valid ops; SlotRelease i \<notin> set ops;
    valid w; alloc w (run ops t') = Some (j, t'')\<rbrakk> \<Longrightarrow> i \<noteq> j"
  using alloc_fresh [of "run ops t'" w j t''] alloc_then_run [of t v i t' ops]
    run_inv [of t' ops] alloc_inv [of t v i t'] by auto

end

end
