(* ===== verification/Instance_Cache.thy ===== *)
theory Instance_Cache
  imports Slot_Table
begin

text \<open>
  The handle cache of a machine instance (\<^verbatim>\<open>lib/libkvm/instance_cache.hpp\<close>): a vector of entries
  whose reserved capacity is the limit on the number of handles. An entry with hash 0 is free.
  A fork of a machine borrows the entries of its source and must never free what it borrowed.
\<close>

section \<open>State\<close>

text \<open>\<open>struct Cache<T>::Entry\<close>.\<close>

record 'a entry =
  e_item :: 'a
  e_hash :: u32
  e_non_owned :: bool

text \<open>
  \<open>struct Cache<T>\<close>: the vector \<open>cache\<close>, its capacity, and the description that only occurs in the
  message of the exception.
\<close>

record 'a cache =
  c_entries :: "'a entry list"
  c_capacity :: nat
  c_description :: string

section \<open>Operations\<close>

definition entry_empty :: "'a entry \<Rightarrow> bool" where
  "entry_empty e \<longleftrightarrow> e_hash e = 0"

text \<open>\<open>Entry::free()\<close>: the item is default constructed (\<open>t0\<close> is \<open>T()\<close>); the ownership flag stays.\<close>

definition entry_free :: "'a \<Rightarrow> 'a entry \<Rightarrow> 'a entry" where
  "entry_free t0 e = e\<lparr>e_item := t0, e_hash := 0\<rparr>"

definition cache_new :: "nat \<Rightarrow> string \<Rightarrow> 'a cache" where
  "cache_new mx desc = \<lparr>c_entries = [], c_capacity = mx, c_description = desc\<rparr>"

definition cache_get :: "'a cache \<Rightarrow> nat \<Rightarrow> 'a entry res" where
  "cache_get c idx =
     (if idx < length (c_entries c) then Inr (c_entries c ! idx) else Inl (OutOfRange ''vector::at''))"

definition cache_item :: "'a cache \<Rightarrow> nat \<Rightarrow> 'a res" where
  "cache_item c idx = (case cache_get c idx of Inl ex \<Rightarrow> Inl ex | Inr e \<Rightarrow> Inr (e_item e))"

text \<open>\<open>translate\<close>: the item of the first entry with the hash; \<open>m1\<close> is \<open>-1\<close> converted to \<open>T\<close>.\<close>

definition cache_translate :: "'a \<Rightarrow> 'a cache \<Rightarrow> u32 \<Rightarrow> 'a" where
  "cache_translate m1 c hash =
     (case first_index (\<lambda>e. e_hash e = hash) (c_entries c) of
        Some idx \<Rightarrow> e_item (c_entries c ! idx)
      | None \<Rightarrow> m1)"

definition cache_find :: "'a cache \<Rightarrow> u32 \<Rightarrow> int" where
  "cache_find c hash =
     (case first_index (\<lambda>e. e_hash e = hash) (c_entries c) of Some idx \<Rightarrow> int idx | None \<Rightarrow> -1)"

definition cache_is_full :: "'a cache \<Rightarrow> bool" where
  "cache_is_full c \<longleftrightarrow> length (c_entries c) \<ge> c_capacity c"

definition cache_manage :: "'a \<Rightarrow> u32 \<Rightarrow> 'a cache \<Rightarrow> (nat \<times> 'a cache) res" where
  "cache_manage ptr hash c =
     (let e = \<lparr>e_item = ptr, e_hash = hash, e_non_owned = False\<rparr> in
      if length (c_entries c) < c_capacity c then
        Inr (length (c_entries c), c\<lparr>c_entries := c_entries c @ [e]\<rparr>)
      else
        case first_index entry_empty (c_entries c) of
          Some idx \<Rightarrow> Inr (idx, c\<lparr>c_entries := (c_entries c)[idx := e]\<rparr>)
        | None \<Rightarrow> Inl (OutOfRange (''Too many items in cache: '' @ c_description c)))"

definition cache_free :: "'a \<Rightarrow> nat \<Rightarrow> 'a cache \<Rightarrow> 'a cache res" where
  "cache_free t0 idx c =
     (if idx < length (c_entries c)
      then Inr (c\<lparr>c_entries := (c_entries c)[idx := entry_free t0 (c_entries c ! idx)]\<rparr>)
      else Inl (OutOfRange ''vector::at''))"

definition cache_free_byhash :: "'a \<Rightarrow> u32 \<Rightarrow> 'a cache \<Rightarrow> bool \<times> 'a cache" where
  "cache_free_byhash t0 hash c =
     (case first_index (\<lambda>e. e_hash e = hash) (c_entries c) of
        Some idx \<Rightarrow> (True, c\<lparr>c_entries := (c_entries c)[idx := entry_free t0 (c_entries c ! idx)]\<rparr>)
      | None \<Rightarrow> (False, c))"

definition cache_free_byval :: "'a \<Rightarrow> 'a \<Rightarrow> 'a cache \<Rightarrow> bool \<times> 'a cache" where
  "cache_free_byval t0 val c =
     (case first_index (\<lambda>e. \<not> entry_empty e \<and> e_item e = val) (c_entries c) of
        Some idx \<Rightarrow> (True, c\<lparr>c_entries := (c_entries c)[idx := entry_free t0 (c_entries c ! idx)]\<rparr>)
      | None \<Rightarrow> (False, c))"

text \<open>
  \<open>reset_and_loan\<close>: assigning the empty initializer list keeps the allocation, and \<open>reserve\<close> only
  ever grows it, so the capacity becomes the larger of the two.
\<close>

definition cache_reset_and_loan :: "'a cache \<Rightarrow> 'a cache \<Rightarrow> 'a cache" where
  "cache_reset_and_loan other c =
     c\<lparr>c_entries := map (\<lambda>e. e\<lparr>e_non_owned := True\<rparr>) (c_entries other),
       c_capacity := max (c_capacity c) (c_capacity other)\<rparr>"

text \<open>\<open>foreach_owned\<close>: the callback may change the entry it is given.\<close>

definition cache_foreach_owned :: "('a entry \<Rightarrow> 'a entry) \<Rightarrow> 'a cache \<Rightarrow> 'a cache" where
  "cache_foreach_owned callback c =
     c\<lparr>c_entries := map (\<lambda>e. if e_hash e \<noteq> 0 \<and> \<not> e_non_owned e then callback e else e) (c_entries c)\<rparr>"

text \<open>The items the callback of \<open>foreach_owned\<close> is called on, in order.\<close>

definition cache_owned_items :: "'a cache \<Rightarrow> 'a list" where
  "cache_owned_items c = map e_item (filter (\<lambda>e. e_hash e \<noteq> 0 \<and> \<not> e_non_owned e) (c_entries c))"

section \<open>Invariant and laws\<close>

definition cache_wf :: "'a cache \<Rightarrow> bool" where
  "cache_wf c \<longleftrightarrow> length (c_entries c) \<le> c_capacity c"

text \<open>The live handles: index to item and hash.\<close>

definition cache_live :: "'a cache \<Rightarrow> nat \<Rightarrow> ('a \<times> u32) option" where
  "cache_live c idx =
     (if idx < length (c_entries c) \<and> \<not> entry_empty (c_entries c ! idx)
      then Some (e_item (c_entries c ! idx), e_hash (c_entries c ! idx)) else None)"

lemma cache_manage_cases:
  assumes "cache_manage ptr hash c = Inr (idx, c')"
  obtains (grow) "length (c_entries c) < c_capacity c" "idx = length (c_entries c)"
      "c' = c\<lparr>c_entries := c_entries c @ [\<lparr>e_item = ptr, e_hash = hash, e_non_owned = False\<rparr>]\<rparr>"
  | (reuse) "\<not> length (c_entries c) < c_capacity c" "idx < length (c_entries c)"
      "entry_empty (c_entries c ! idx)"
      "c' = c\<lparr>c_entries := (c_entries c)[idx := \<lparr>e_item = ptr, e_hash = hash, e_non_owned = False\<rparr>]\<rparr>"
  using assms
  by (auto simp: cache_manage_def Let_def dest: first_index_SomeD split: if_splits option.splits)

lemma cache_manage_wf [inv_intros]: "\<lbrakk>cache_manage ptr hash c = Inr (idx, c'); cache_wf c\<rbrakk> \<Longrightarrow> cache_wf c'"
  by (erule cache_manage_cases) (auto simp: cache_wf_def)

lemma cache_free_wf [inv_intros]: "\<lbrakk>cache_free t0 idx c = Inr c'; cache_wf c\<rbrakk> \<Longrightarrow> cache_wf c'"
  by (auto simp: cache_free_def cache_wf_def split: if_splits)

lemma cache_manage_fresh: "cache_manage ptr hash c = Inr (idx, c') \<Longrightarrow> cache_live c idx = None"
  by (erule cache_manage_cases) (auto simp: cache_live_def)

lemma cache_manage_live:
  "\<lbrakk>cache_manage ptr hash c = Inr (idx, c'); hash \<noteq> 0\<rbrakk> \<Longrightarrow> cache_live c' = (cache_live c)(idx \<mapsto> (ptr, hash))"
  by (erule cache_manage_cases)
    (auto simp: cache_live_def entry_empty_def fun_eq_iff nth_append nth_list_update)

lemma cache_manage_full:
  "cache_manage ptr hash c = Inl ex \<longleftrightarrow>
     c_capacity c \<le> length (c_entries c) \<and> (\<forall>e \<in> set (c_entries c). e_hash e \<noteq> 0) \<and>
     ex = OutOfRange (''Too many items in cache: '' @ c_description c)"
  by (auto simp: cache_manage_def Let_def first_index_None simp flip: entry_empty_def
      dest: first_index_Some_mem split: option.splits)

lemma cache_free_live:
  "idx < length (c_entries c) \<Longrightarrow>
     \<exists>c'. cache_free t0 idx c = Inr c' \<and> cache_live c' = (cache_live c)(idx := None)"
  by (auto simp: cache_free_def cache_live_def entry_free_def entry_empty_def fun_eq_iff nth_list_update)

subsection \<open>The cache as a table of handles\<close>

definition cache_alloc :: "('a \<times> u32) \<Rightarrow> 'a cache \<Rightarrow> (nat \<times> 'a cache) option" where
  "cache_alloc v c = (case cache_manage (fst v) (snd v) c of Inl _ \<Rightarrow> None | Inr r \<Rightarrow> Some r)"

definition cache_release :: "nat \<Rightarrow> 'a option cache \<Rightarrow> 'a option cache" where
  "cache_release idx c = (case cache_free None idx c of Inl _ \<Rightarrow> c | Inr c' \<Rightarrow> c')"

lemma cache_release_live:
  "cache_live c idx \<noteq> None \<Longrightarrow> cache_live (cache_release idx c) = (cache_live c)(idx := None)"
  using cache_free_live [of idx c None]
  by (auto simp: cache_release_def cache_live_def split: if_splits)

interpretation cache_handles: slot_table cache_wf "\<lambda>v. snd v \<noteq> 0" cache_live cache_alloc cache_release
proof unfold_locales
  fix c :: "'a option cache" and idx
  assume "cache_wf c" "cache_live c idx \<noteq> None"
  then show "cache_wf (cache_release idx c)"
    by (auto simp: cache_release_def split: sum.splits intro: cache_free_wf)
qed (auto simp: cache_alloc_def cache_release_live split: sum.splits
      intro: cache_manage_wf cache_manage_fresh cache_manage_live)

subsection \<open>Lookup by hash\<close>

lemma cache_find_nonneg: "cache_find c h = int idx \<Longrightarrow> idx < length (c_entries c) \<and> e_hash (c_entries c ! idx) = h"
  by (auto simp: cache_find_def dest!: first_index_SomeD split: option.splits)

lemma cache_find_neg [simp]: "cache_find c h = -1 \<longleftrightarrow> (\<forall>e \<in> set (c_entries c). e_hash e \<noteq> h)"
  by (auto simp: cache_find_def first_index_None dest: first_index_Some_mem split: option.splits)

lemma cache_find_loan [simp]: "cache_find (cache_reset_and_loan other c) h = cache_find other h"
  by (simp add: cache_find_def cache_reset_and_loan_def first_index_map comp_def)

lemma cache_owned_loan [simp]: "cache_owned_items (cache_reset_and_loan other c) = []"
  by (simp add: cache_owned_items_def cache_reset_and_loan_def filter_empty_conv)

section \<open>Properties\<close>

text \<open>
  C21. A handle stays attached to its object: whatever a guest registers or frees after receiving a
  handle, as long as it does not free that handle, the cache still maps the handle to the object
  and hash that were registered, even when the table is full and slots are being re-used.
\<close>

theorem cache_handle_stable:
  assumes "cache_wf c" and "hash \<noteq> 0"
    and "cache_manage ptr hash c = Inr (idx, c')"
    and "ops_valid (\<lambda>v. snd v \<noteq> 0) ops" and "SlotRelease idx \<notin> set ops"
  shows "cache_live (run_slots cache_alloc cache_release cache_live ops c') idx = Some (ptr, hash)"
  by (rule cache_handles.alloc_then_run) (use assms in \<open>auto simp: cache_alloc_def\<close>)

theorem cache_handle_stable_witness:
  "cache_live (run_slots cache_alloc cache_release cache_live
      [SlotAlloc (Some 11, 3), SlotRelease 1, SlotAlloc (Some 12, 4)]
      \<lparr>c_entries = [\<lparr>e_item = Some (7::nat), e_hash = 9, e_non_owned = False\<rparr>],
       c_capacity = 2, c_description = ''Regex handles''\<rparr>) 0 = Some (Some 7, 9)"
proof -
  have m: "cache_manage (Some (7::nat)) 9 (cache_new 2 ''Regex handles'') =
     Inr (0, \<lparr>c_entries = [\<lparr>e_item = Some 7, e_hash = 9, e_non_owned = False\<rparr>],
       c_capacity = 2, c_description = ''Regex handles''\<rparr>)"
    by (simp add: cache_manage_def cache_new_def)
  show ?thesis
    by (rule cache_handle_stable [OF _ _ m]) (simp_all add: cache_wf_def cache_new_def)
qed

text \<open>
  Registration throws exactly when the limit is reached and every slot is in use; otherwise it
  returns a handle below the limit whose entry is the new object, owned by this cache, and every
  other entry is unchanged.
\<close>

theorem cache_manage_correct:
  assumes "cache_wf c"
  shows "(case cache_manage ptr hash c of
            Inl ex \<Rightarrow> length (c_entries c) = c_capacity c \<and> (\<forall>e \<in> set (c_entries c). e_hash e \<noteq> 0)
          | Inr (idx, c') \<Rightarrow>
              idx < c_capacity c \<and> cache_wf c' \<and>
              cache_get c' idx = Inr \<lparr>e_item = ptr, e_hash = hash, e_non_owned = False\<rparr> \<and>
              (\<forall>j < length (c_entries c). j \<noteq> idx \<longrightarrow> cache_get c' j = cache_get c j))"
proof (cases "cache_manage ptr hash c")
  case (Inl ex)
  with cache_manage_full [of ptr hash c ex] assms show ?thesis by (simp add: cache_wf_def)
next
  case (Inr r)
  then obtain idx c' where r: "cache_manage ptr hash c = Inr (idx, c')"
    by (cases r) auto
  from r have "idx < c_capacity c \<and>
      cache_get c' idx = Inr \<lparr>e_item = ptr, e_hash = hash, e_non_owned = False\<rparr> \<and>
      (\<forall>j < length (c_entries c). j \<noteq> idx \<longrightarrow> cache_get c' j = cache_get c j)"
    using assms
    by (cases rule: cache_manage_cases) (auto simp: cache_get_def cache_wf_def nth_append)
  with r assms show ?thesis by (auto intro: cache_manage_wf)
qed

theorem cache_manage_correct_witness:
  "let c = cache_new 1 ''Regex handles'' :: nat cache in
   case cache_manage 5 8 c of
     Inl ex \<Rightarrow> length (c_entries c) = c_capacity c \<and> (\<forall>e \<in> set (c_entries c). e_hash e \<noteq> 0)
   | Inr (idx, c') \<Rightarrow>
       idx < c_capacity c \<and> cache_wf c' \<and>
       cache_get c' idx = Inr \<lparr>e_item = 5, e_hash = 8, e_non_owned = False\<rparr> \<and>
       (\<forall>j < length (c_entries c). j \<noteq> idx \<longrightarrow> cache_get c' j = cache_get c j)"
  unfolding Let_def by (rule cache_manage_correct) (simp add: cache_wf_def cache_new_def)

end
