(* ===== verification/Step_Systems.thy ===== *)
theory Step_Systems
  imports Prelude
begin

text \<open>
  Labelled transition systems and the contract of a component that hands out numbered tickets: at
  every moment each ticket that exists is in exactly one place. The timer system (timer ids) and
  the pool of request VMs (VM slots) satisfy it; the consequences for their clients are proved here.
\<close>

section \<open>Runs\<close>

inductive run_steps :: "('s \<Rightarrow> 'l \<Rightarrow> 's \<Rightarrow> bool) \<Rightarrow> 's \<Rightarrow> 'l list \<Rightarrow> 's \<Rightarrow> bool" for R where
  run_nil: "run_steps R s [] s"
| run_cons: "\<lbrakk>R s l s'; run_steps R s' ls s''\<rbrakk> \<Longrightarrow> run_steps R s (l # ls) s''"

inductive_simps run_steps_simps: "run_steps R s [] s'" "run_steps R s (l # ls) s'"

lemma run_steps_inv:
  assumes "run_steps R s ls s'" and "P s" and "\<And>s l s'. \<lbrakk>P s; R s l s'\<rbrakk> \<Longrightarrow> P s'"
  shows "P s'"
  using assms by (induction rule: run_steps.induct) blast+

lemma run_steps_append: "\<lbrakk>run_steps R s ls s'; run_steps R s' ls' s''\<rbrakk> \<Longrightarrow> run_steps R s (ls @ ls') s''"
  by (induction rule: run_steps.induct) (auto intro: run_cons)

section \<open>Tickets\<close>

locale ticket_system =
  fixes init :: 's
    and tstep :: "'s \<Rightarrow> 'l \<Rightarrow> 's \<Rightarrow> bool"
    and tinv :: "'s \<Rightarrow> bool"
    and places :: "'s \<Rightarrow> nat list"
    and total :: "'s \<Rightarrow> nat"
  assumes init_inv: "tinv init"
    and step_inv: "\<lbrakk>tinv s; tstep s l s'\<rbrakk> \<Longrightarrow> tinv s'"
    and inv_places: "tinv s \<Longrightarrow> mset (places s) = mset [0..<total s]"
begin

lemma reach_inv: "run_steps tstep init ls s \<Longrightarrow> tinv s"
  by (erule run_steps_inv) (auto intro: init_inv step_inv)

lemma inv_distinct: "tinv s \<Longrightarrow> distinct (places s)"
  using mset_eq_imp_distinct_iff [OF inv_places] by simp

lemma inv_set: "tinv s \<Longrightarrow> set (places s) = {..<total s}"
  using mset_eq_setD [OF inv_places] by (simp only: set_upt atLeast0LessThan)

lemma reach_partition: "run_steps tstep init ls s \<Longrightarrow> distinct (places s) \<and> set (places s) = {..<total s}"
  using reach_inv inv_distinct inv_set by blast

end

end
