(* ===== verification/Timers.thy ===== *)
theory Timers
  imports Slot_Table Step_Systems
begin

text \<open>
  The timer system behind delayed storage tasks (\<^verbatim>\<open>lib/libkvm/utils/cpptime.hpp\<close>). Its mutex makes
  each locked section atomic; the sections of the calling threads and of the worker thread are the
  steps of a labelled transition relation. The worker releases the mutex while it calls a handler,
  so the sections of other threads interleave there.
\<close>

section \<open>State\<close>

text \<open>\<open>detail::Event\<close>; a handler that is \<open>nullptr\<close> is \<open>None\<close>. Times are microsecond counts.\<close>

record 'h event =
  ev_id :: nat
  ev_start :: int
  ev_period :: int
  ev_handler :: "'h option"
  ev_valid :: bool

text \<open>\<open>detail::Time_event\<close>.\<close>

record time_event =
  te_next :: int
  te_ref :: nat

text \<open>
  Where the worker is in \<open>run()\<close>: holding the mutex or waiting (\<open>WLocked\<close>), after \<open>lock.unlock()\<close>
  and before it reads the handler (\<open>WUnlocked\<close>), inside the handler (\<open>WCalling\<close>), or terminated by
  calling an empty \<open>std::function\<close> (\<open>WCrashed\<close>).
\<close>

datatype 'h worker = WLocked | WUnlocked time_event | WCalling time_event 'h | WCrashed time_event

text \<open>\<open>class TimerSystem\<close>: \<open>time_events\<close> is the multiset in its iteration order, \<open>free_ids\<close> the stack with its top first.\<close>

record 'h timers =
  tm_done :: bool
  tm_events :: "'h event list"
  tm_time_events :: "time_event list"
  tm_free_ids :: "nat list"
  tm_worker :: "'h worker"

section \<open>Operations\<close>

definition timers_new :: "'h timers" where
  "timers_new = \<lparr>tm_done = False, tm_events = [], tm_time_events = [], tm_free_ids = [], tm_worker = WLocked\<rparr>"

text \<open>\<open>std::multiset::insert\<close> puts an element after those that compare equal to it.\<close>

fun te_insert :: "time_event \<Rightarrow> time_event list \<Rightarrow> time_event list" where
  "te_insert te [] = [te]"
| "te_insert te (x # xs) = (if te_next te < te_next x then te # x # xs else x # te_insert te xs)"

definition timers_racy_count :: "'h timers \<Rightarrow> nat" where
  "timers_racy_count t = length (tm_events t)"

definition timers_add :: "int \<Rightarrow> 'h \<Rightarrow> int \<Rightarrow> 'h timers \<Rightarrow> nat \<times> 'h timers" where
  "timers_add when handler period t =
     (case tm_free_ids t of
        [] \<Rightarrow>
          let tid = length (tm_events t);
              e = \<lparr>ev_id = tid, ev_start = when, ev_period = period, ev_handler = Some handler, ev_valid = True\<rparr>
          in (tid, t\<lparr>tm_events := tm_events t @ [e],
                    tm_time_events := te_insert \<lparr>te_next = when, te_ref = tid\<rparr> (tm_time_events t)\<rparr>)
      | tid # ids \<Rightarrow>
          let e = \<lparr>ev_id = tid, ev_start = when, ev_period = period, ev_handler = Some handler, ev_valid = True\<rparr>
          in (tid, t\<lparr>tm_free_ids := ids, tm_events := (tm_events t)[tid := e],
                    tm_time_events := te_insert \<lparr>te_next = when, te_ref = tid\<rparr> (tm_time_events t)\<rparr>))"

text \<open>The overloads of \<open>add\<close> that take a duration from now.\<close>

definition timers_add_after :: "int \<Rightarrow> int \<Rightarrow> 'h \<Rightarrow> int \<Rightarrow> 'h timers \<Rightarrow> nat \<times> 'h timers" where
  "timers_add_after now when handler period t = timers_add (now + when) handler period t"

definition event_invalidate :: "'h event \<Rightarrow> 'h event" where
  "event_invalidate e = e\<lparr>ev_valid := False, ev_handler := None\<rparr>"

definition timers_remove :: "nat \<Rightarrow> 'h timers \<Rightarrow> bool \<times> 'h timers" where
  "timers_remove tid t =
     (if length (tm_events t) = 0 \<or> length (tm_events t) \<le> tid then (False, t)
      else
        let t1 = t\<lparr>tm_events := (tm_events t)[tid := event_invalidate (tm_events t ! tid)]\<rparr> in
        case first_index (\<lambda>te. te_ref te = tid) (tm_time_events t1) of
          Some k \<Rightarrow>
            (True, t1\<lparr>tm_free_ids := te_ref (tm_time_events t1 ! k) # tm_free_ids t1,
                      tm_time_events := remove_nth k (tm_time_events t1)\<rparr>)
        | None \<Rightarrow> (True, t1))"

text \<open>
  \<open>run()\<close>, first locked section: when the earliest time event is due it is erased and the mutex
  released. \<open>None\<close> when the worker waits instead, or leaves because the system is being destroyed.
\<close>

definition worker_take :: "int \<Rightarrow> 'h timers \<Rightarrow> 'h timers option" where
  "worker_take now t =
     (if tm_done t then None
      else case (tm_worker t, tm_time_events t) of
        (WLocked, te # tes) \<Rightarrow>
          if now \<ge> te_next te then Some (t\<lparr>tm_time_events := tes, tm_worker := WUnlocked te\<rparr>) else None
      | _ \<Rightarrow> None)"

text \<open>\<open>run()\<close>, unlocked: \<open>events[te.ref].handler(te.ref)\<close>.\<close>

definition worker_invoke :: "'h timers \<Rightarrow> 'h timers option" where
  "worker_invoke t =
     (case tm_worker t of
        WUnlocked te \<Rightarrow>
          (case ev_handler (tm_events t ! te_ref te) of
             Some h \<Rightarrow> Some (t\<lparr>tm_worker := WCalling te h\<rparr>)
           | None \<Rightarrow> Some (t\<lparr>tm_worker := WCrashed te\<rparr>))
      | _ \<Rightarrow> None)"

text \<open>\<open>run()\<close>, second locked section, after the handler returned.\<close>

definition worker_finish :: "'h timers \<Rightarrow> 'h timers option" where
  "worker_finish t =
     (case tm_worker t of
        WCalling te h \<Rightarrow>
          let e = tm_events t ! te_ref te in
          if ev_valid e \<and> ev_period e > 0 then
            Some (t\<lparr>tm_time_events := te_insert (te\<lparr>te_next := te_next te + ev_period e\<rparr>) (tm_time_events t),
                    tm_worker := WLocked\<rparr>)
          else
            Some (t\<lparr>tm_events := (tm_events t)[te_ref te := event_invalidate e],
                    tm_free_ids := te_ref te # tm_free_ids t,
                    tm_worker := WLocked\<rparr>)
      | _ \<Rightarrow> None)"

text \<open>The destructor sets \<open>done\<close>; once the worker has been joined it empties the containers.\<close>

definition timers_stop :: "'h timers \<Rightarrow> 'h timers" where
  "timers_stop t = t\<lparr>tm_done := True\<rparr>"

definition timers_clear :: "'h timers \<Rightarrow> 'h timers" where
  "timers_clear t = t\<lparr>tm_events := [], tm_time_events := [], tm_free_ids := []\<rparr>"

section \<open>Interleavings\<close>

datatype 'h taction =
    ActAdd int 'h int nat
  | ActRemove nat bool
  | ActTake int
  | ActInvoke
  | ActFinish
  | ActStop

inductive tstep :: "'h timers \<Rightarrow> 'h taction \<Rightarrow> 'h timers \<Rightarrow> bool" where
  tstep_add: "timers_add when h period t = (i, t') \<Longrightarrow> tstep t (ActAdd when h period i) t'"
| tstep_remove: "timers_remove i t = (b, t') \<Longrightarrow> tstep t (ActRemove i b) t'"
| tstep_take: "worker_take now t = Some t' \<Longrightarrow> tstep t (ActTake now) t'"
| tstep_invoke: "worker_invoke t = Some t' \<Longrightarrow> tstep t ActInvoke t'"
| tstep_finish: "worker_finish t = Some t' \<Longrightarrow> tstep t ActFinish t'"
| tstep_stop: "tstep t ActStop (timers_stop t)"

inductive_cases tstep_cases: "tstep t a t'"

abbreviation tsteps :: "'h timers \<Rightarrow> 'h taction list \<Rightarrow> 'h timers \<Rightarrow> bool" where
  "tsteps \<equiv> run_steps tstep"

section \<open>Invariant\<close>

definition worker_refs :: "'h worker \<Rightarrow> nat list" where
  "worker_refs w = (case w of WLocked \<Rightarrow> [] | WUnlocked te \<Rightarrow> [te_ref te] | WCalling te h \<Rightarrow> [te_ref te]
     | WCrashed te \<Rightarrow> [te_ref te])"

text \<open>Every place where a timer id can be: scheduled, free, or in the hands of the worker.\<close>

definition timer_refs :: "'h timers \<Rightarrow> nat list" where
  "timer_refs t = map te_ref (tm_time_events t) @ tm_free_ids t @ worker_refs (tm_worker t)"

abbreviation te_sorted :: "time_event list \<Rightarrow> bool" where
  "te_sorted \<equiv> sorted_wrt (\<lambda>a b. te_next a \<le> te_next b)"

definition timers_inv :: "'h timers \<Rightarrow> bool" where
  "timers_inv t \<longleftrightarrow>
     mset (timer_refs t) = mset [0..<length (tm_events t)] \<and>
     te_sorted (tm_time_events t) \<and>
     (\<forall>e \<in> set (tm_events t). ev_valid e \<longleftrightarrow> ev_handler e \<noteq> None) \<and>
     (\<forall>te \<in> set (tm_time_events t). ev_valid (tm_events t ! te_ref te)) \<and>
     (\<forall>i \<in> set (tm_free_ids t). \<not> ev_valid (tm_events t ! i))"

lemma timers_inv_mset: "timers_inv t \<Longrightarrow> mset (timer_refs t) = mset [0..<length (tm_events t)]"
  unfolding timers_inv_def by (erule conjunct1)

lemma timers_inv_refs:
  assumes "timers_inv t"
  shows "distinct (timer_refs t)" "set (timer_refs t) = {..<length (tm_events t)}"
proof -
  note m = timers_inv_mset [OF assms]
  show "distinct (timer_refs t)" using mset_eq_imp_distinct_iff [OF m] by simp
  show "set (timer_refs t) = {..<length (tm_events t)}"
    using mset_eq_setD [OF m] by (simp only: set_upt atLeast0LessThan)
qed

lemma mset_te_insert [simp]: "mset (te_insert te xs) = add_mset te (mset xs)"
  by (induction xs) auto

lemma set_te_insert [simp]: "set (te_insert te xs) = insert te (set xs)"
  by (induction xs) auto

lemma te_sorted_insert: "te_sorted xs \<Longrightarrow> te_sorted (te_insert te xs)"
  by (induction xs) auto

lemma mset_refs_insert [simp]:
  "mset (map te_ref (te_insert te xs)) = add_mset (te_ref te) (mset (map te_ref xs))"
  by (induction xs) auto

lemma in_range_refs:
  assumes "timers_inv t"
  shows "te \<in> set (tm_time_events t) \<Longrightarrow> te_ref te < length (tm_events t)"
    and "i \<in> set (tm_free_ids t) \<Longrightarrow> i < length (tm_events t)"
    and "i \<in> set (worker_refs (tm_worker t)) \<Longrightarrow> i < length (tm_events t)"
  using timers_inv_refs(2) [OF assms] by (auto simp: timer_refs_def)

lemma timers_new_inv [simp]: "timers_inv timers_new"
  by (simp add: timers_inv_def timers_new_def timer_refs_def worker_refs_def)

lemma timers_add_inv [inv_intros]:
  assumes inv: "timers_inv t" and add: "timers_add when h period t = (i, t')"
  shows "timers_inv t'"
proof (cases "tm_free_ids t")
  case Nil
  with add have i: "i = length (tm_events t)"
    and t': "t' = t\<lparr>tm_events := tm_events t @ [\<lparr>ev_id = i, ev_start = when, ev_period = period,
        ev_handler = Some h, ev_valid = True\<rparr>],
      tm_time_events := te_insert \<lparr>te_next = when, te_ref = i\<rparr> (tm_time_events t)\<rparr>"
    by (auto simp: timers_add_def Let_def)
  have "mset (timer_refs t') = mset [0..<length (tm_events t')]"
    using inv Nil by (simp add: t' i timers_inv_def timer_refs_def)
  moreover have "\<forall>te \<in> set (tm_time_events t'). ev_valid (tm_events t' ! te_ref te)"
    using inv in_range_refs(1) [OF inv] by (auto simp: t' i timers_inv_def nth_append)
  ultimately show ?thesis
    using inv Nil by (simp add: t' timers_inv_def te_sorted_insert)
next
  case (Cons j ids)
  with add have i: "i = j"
    and t': "t' = t\<lparr>tm_free_ids := ids, tm_events := (tm_events t)[i := \<lparr>ev_id = i, ev_start = when,
        ev_period = period, ev_handler = Some h, ev_valid = True\<rparr>],
      tm_time_events := te_insert \<lparr>te_next = when, te_ref = i\<rparr> (tm_time_events t)\<rparr>"
    by (auto simp: timers_add_def Let_def)
  have lt: "i < length (tm_events t)" using in_range_refs(2) [OF inv] Cons i by simp
  have "mset (timer_refs t') = mset [0..<length (tm_events t')]"
    using inv Cons i by (simp add: t' timers_inv_def timer_refs_def)
  moreover have "\<forall>te \<in> set (tm_time_events t'). ev_valid (tm_events t' ! te_ref te)"
    using inv lt by (auto simp: t' timers_inv_def nth_list_update)
  moreover have "\<forall>k \<in> set ids. \<not> ev_valid (tm_events t' ! k)"
    using inv Cons i lt timers_inv_refs(1) [OF inv]
    by (auto simp: t' timers_inv_def timer_refs_def nth_list_update)
  moreover have "\<forall>e \<in> set (tm_events t'). ev_valid e \<longleftrightarrow> ev_handler e \<noteq> None"
    using inv by (auto simp: t' timers_inv_def dest!: set_update_subset_insert [THEN subsetD])
  ultimately show ?thesis
    using inv by (simp add: t' timers_inv_def te_sorted_insert)
qed

text \<open>Invalidating an event that is no longer scheduled.\<close>

lemma event_invalidate_simps [simp]:
  "ev_valid (event_invalidate e) = False" "ev_handler (event_invalidate e) = None"
  by (simp_all add: event_invalidate_def)

lemma invalidate_handlers:
  "\<forall>e \<in> set evs. ev_valid e \<longleftrightarrow> ev_handler e \<noteq> None \<Longrightarrow>
     e \<in> set (evs[i := event_invalidate e']) \<Longrightarrow> ev_valid e \<longleftrightarrow> ev_handler e \<noteq> None"
  by (auto dest!: set_update_subset_insert [THEN subsetD])

lemma timers_remove_inv [inv_intros]:
  assumes inv: "timers_inv t" and rem: "timers_remove i t = (b, t')"
  shows "timers_inv t'"
proof (cases "i < length (tm_events t)")
  case False
  with rem inv show ?thesis by (auto simp: timers_remove_def)
next
  case True
  note hs = invalidate_handlers [of "tm_events t"]
  show ?thesis
  proof (cases "first_index (\<lambda>te. te_ref te = i) (tm_time_events t)")
    case None
    with rem True have t': "t' = t\<lparr>tm_events := (tm_events t)[i := event_invalidate (tm_events t ! i)]\<rparr>"
      by (auto simp: timers_remove_def Let_def split: if_splits)
    with inv None True hs show ?thesis
      by (auto simp: first_index_None timers_inv_def timer_refs_def nth_list_update)
  next
    case (Some k)
    then have k: "k < length (tm_time_events t)" "te_ref (tm_time_events t ! k) = i"
      by (auto dest: first_index_SomeD)
    from Some rem True k have t': "t' = t\<lparr>tm_events := (tm_events t)[i := event_invalidate (tm_events t ! i)],
        tm_free_ids := i # tm_free_ids t, tm_time_events := remove_nth k (tm_time_events t)\<rparr>"
      by (auto simp: timers_remove_def Let_def split: if_splits)
    have refs: "image_mset te_ref (mset (tm_time_events t)) =
        add_mset i (image_mset te_ref (mset (remove_nth k (tm_time_events t))))"
      using arg_cong [OF mset_remove_nth [OF k(1)], of "image_mset te_ref"] k(2) by simp
    then have m: "mset (timer_refs t') = mset [0..<length (tm_events t')]"
      using inv by (simp add: t' timers_inv_def timer_refs_def)
    have "distinct (map te_ref (tm_time_events t))"
      using timers_inv_refs(1) [OF inv] by (simp add: timer_refs_def)
    then have "i \<notin> te_ref ` set (remove_nth k (tm_time_events t))"
      using remove_nth_distinct_map [OF _ k(1)] k(2) by blast
    then have "\<forall>te \<in> set (remove_nth k (tm_time_events t)). ev_valid (tm_events t' ! te_ref te)"
      using inv True by (auto simp: t' timers_inv_def nth_list_update image_iff dest: in_set_remove_nthD)
    with m inv True hs show ?thesis
      by (auto simp: t' timers_inv_def nth_list_update sorted_wrt_remove_nth)
  qed
qed

lemma worker_take_inv [inv_intros]: "\<lbrakk>timers_inv t; worker_take now t = Some t'\<rbrakk> \<Longrightarrow> timers_inv t'"
  by (auto simp: worker_take_def timers_inv_def timer_refs_def worker_refs_def
      split: if_splits worker.splits list.splits)

lemma worker_invoke_inv [inv_intros]: "\<lbrakk>timers_inv t; worker_invoke t = Some t'\<rbrakk> \<Longrightarrow> timers_inv t'"
  by (auto simp: worker_invoke_def timers_inv_def timer_refs_def worker_refs_def
      split: worker.splits option.splits)

lemma worker_finish_inv [inv_intros]:
  assumes inv: "timers_inv t" and fin: "worker_finish t = Some t'"
  shows "timers_inv t'"
proof -
  from fin obtain te h where w: "tm_worker t = WCalling te h"
    by (auto simp: worker_finish_def split: worker.splits)
  define i where "i = te_ref te"
  have lt: "i < length (tm_events t)"
    using in_range_refs(3) [OF inv] w by (simp add: worker_refs_def i_def)
  have other: "te' \<in> set (tm_time_events t) \<Longrightarrow> te_ref te' \<noteq> i" for te'
    using timers_inv_refs(1) [OF inv] w by (auto simp: timer_refs_def worker_refs_def i_def image_iff)
  show ?thesis
  proof (cases "ev_valid (tm_events t ! i) \<and> ev_period (tm_events t ! i) > 0")
    case True
    with fin w have t': "t' = t\<lparr>tm_time_events := te_insert (te\<lparr>te_next := te_next te + ev_period (tm_events t ! i)\<rparr>)
        (tm_time_events t), tm_worker := WLocked\<rparr>"
      by (auto simp: worker_finish_def Let_def i_def)
    with inv w True show ?thesis
      by (auto simp: timers_inv_def timer_refs_def worker_refs_def te_sorted_insert i_def)
  next
    case False
    with fin w have t': "t' = t\<lparr>tm_events := (tm_events t)[i := event_invalidate (tm_events t ! i)],
        tm_free_ids := i # tm_free_ids t, tm_worker := WLocked\<rparr>"
      by (auto simp: worker_finish_def Let_def i_def)
    have "mset (timer_refs t') = mset [0..<length (tm_events t')]"
      using inv w by (simp add: t' timers_inv_def timer_refs_def worker_refs_def i_def)
    with inv lt other invalidate_handlers [of "tm_events t"] show ?thesis
      by (auto simp: t' timers_inv_def nth_list_update)
  qed
qed

lemma timers_stop_inv [inv_intros]: "timers_inv t \<Longrightarrow> timers_inv (timers_stop t)"
  by (simp add: timers_stop_def timers_inv_def timer_refs_def)

lemma tstep_inv: "\<lbrakk>tstep t a t'; timers_inv t\<rbrakk> \<Longrightarrow> timers_inv t'"
  by (erule tstep_cases) (auto intro: inv_intros)

interpretation timer_tickets: ticket_system timers_new tstep timers_inv timer_refs "\<lambda>t. length (tm_events t)"
  by unfold_locales (rule timers_new_inv, erule (1) tstep_inv [rotated], erule timers_inv_mset)

subsection \<open>Timer ids as a table of handles\<close>

definition timer_live :: "'h timers \<Rightarrow> nat \<Rightarrow> (int \<times> int \<times> 'h) option" where
  "timer_live t i =
     (if i < length (tm_events t) \<and> ev_valid (tm_events t ! i)
      then map_option (\<lambda>h. (ev_start (tm_events t ! i), ev_period (tm_events t ! i), h))
             (ev_handler (tm_events t ! i))
      else None)"

definition timer_alloc :: "int \<times> int \<times> 'h \<Rightarrow> 'h timers \<Rightarrow> (nat \<times> 'h timers) option" where
  "timer_alloc v t = (case v of (when, period, h) \<Rightarrow> Some (timers_add when h period t))"

definition timer_release :: "nat \<Rightarrow> 'h timers \<Rightarrow> 'h timers" where
  "timer_release i t = snd (timers_remove i t)"

lemma timers_add_fresh: "\<lbrakk>timers_inv t; timers_add when h period t = (i, t')\<rbrakk> \<Longrightarrow> timer_live t i = None"
  by (auto simp: timers_add_def timer_live_def timers_inv_def Let_def split: list.splits)

lemma timers_add_live:
  "\<lbrakk>timers_inv t; timers_add when h period t = (i, t')\<rbrakk> \<Longrightarrow>
     timer_live t' = (timer_live t)(i \<mapsto> (when, period, h))"
  using in_range_refs(2) [of t i]
  by (auto simp: timers_add_def timer_live_def Let_def fun_eq_iff nth_append nth_list_update
      split: list.splits)

lemma timers_remove_live: "timer_live (snd (timers_remove i t)) = (timer_live t)(i := None)"
  by (auto simp: timers_remove_def timer_live_def Let_def fun_eq_iff nth_list_update
      split: option.splits)

interpretation timer_ids: slot_table timers_inv "\<lambda>_. True" timer_live timer_alloc timer_release
proof unfold_locales
  fix t :: "'h timers" and i
  assume "timers_inv t"
  then show "timers_inv (timer_release i t)"
    unfolding timer_release_def by (metis prod.collapse timers_remove_inv)
qed (auto simp: timer_alloc_def timer_release_def timers_remove_live
      intro: timers_add_inv timers_add_fresh timers_add_live)

subsection \<open>The worker\<close>

lemma worker_takeD:
  assumes "worker_take now t = Some t'"
  obtains te tes where "\<not> tm_done t" "tm_worker t = WLocked" "tm_time_events t = te # tes" "te_next te \<le> now"
    "t' = t\<lparr>tm_time_events := tes, tm_worker := WUnlocked te\<rparr>"
  using assms by (auto simp: worker_take_def split: if_splits worker.splits list.splits)

lemma take_valid:
  assumes "timers_inv t" "worker_take now t = Some t'" "tm_worker t' = WUnlocked te"
  shows "te_ref te < length (tm_events t')" "ev_valid (tm_events t' ! te_ref te)"
    "ev_handler (tm_events t' ! te_ref te) \<noteq> None"
proof -
  from assms(2,3) have te: "te \<in> set (tm_time_events t)" "tm_events t' = tm_events t"
    by (auto elim!: worker_takeD)
  then show lt: "te_ref te < length (tm_events t')"
    using in_range_refs(1) [OF assms(1)] by simp
  show v: "ev_valid (tm_events t' ! te_ref te)"
    using assms(1) te by (simp add: timers_inv_def)
  show "ev_handler (tm_events t' ! te_ref te) \<noteq> None"
    using assms(1) lt v te(2) by (metis nth_mem timers_inv_def)
qed

lemma timers_add_length: "timers_add when h period t = (i, t') \<Longrightarrow> length (tm_events t) \<le> length (tm_events t')"
  by (auto simp: timers_add_def Let_def split: list.splits)

lemma timers_remove_length: "timers_remove i t = (b, t') \<Longrightarrow> length (tm_events t') = length (tm_events t)"
  by (auto simp: timers_remove_def Let_def split: option.splits if_splits)

lemma worker_length:
  "worker_take now t = Some t' \<Longrightarrow> length (tm_events t') = length (tm_events t)"
  "worker_invoke t = Some t' \<Longrightarrow> length (tm_events t') = length (tm_events t)"
  "worker_finish t = Some t' \<Longrightarrow> length (tm_events t') = length (tm_events t)"
  by (auto elim!: worker_takeD)
    (auto simp: worker_invoke_def worker_finish_def Let_def split: option.splits if_splits worker.splits)

lemma tstep_racy_mono: "tstep t a t' \<Longrightarrow> timers_racy_count t \<le> timers_racy_count t'"
  by (erule tstep_cases)
    (auto simp: timers_racy_count_def timers_stop_def timers_remove_length worker_length
      dest: timers_add_length)

lemma tsteps_racy_mono: "tsteps t as t' \<Longrightarrow> timers_racy_count t \<le> timers_racy_count t'"
  by (induction rule: run_steps.induct) (auto dest: tstep_racy_mono)

subsection \<open>Executing a sequence of actions\<close>

fun exec_action :: "'h timers \<Rightarrow> 'h taction \<Rightarrow> 'h timers option" where
  "exec_action t (ActAdd when h period i) =
     (case timers_add when h period t of (j, t') \<Rightarrow> if j = i then Some t' else None)"
| "exec_action t (ActRemove i b) = (case timers_remove i t of (c, t') \<Rightarrow> if b = c then Some t' else None)"
| "exec_action t (ActTake now) = worker_take now t"
| "exec_action t ActInvoke = worker_invoke t"
| "exec_action t ActFinish = worker_finish t"
| "exec_action t ActStop = Some (timers_stop t)"

fun exec_actions :: "'h timers \<Rightarrow> 'h taction list \<Rightarrow> 'h timers option" where
  "exec_actions t [] = Some t"
| "exec_actions t (a # as) = (case exec_action t a of None \<Rightarrow> None | Some t' \<Rightarrow> exec_actions t' as)"

lemma exec_action_tstep: "exec_action t a = Some t' \<Longrightarrow> tstep t a t'"
  by (cases a) (auto intro: tstep.intros split: prod.splits if_splits)

lemma exec_actions_tsteps: "exec_actions t as = Some t' \<Longrightarrow> tsteps t as t'"
  by (induction as arbitrary: t) (auto intro: run_steps.intros exec_action_tstep split: option.splits)

section \<open>Properties\<close>

text \<open>
  C13. Under every interleaving of calls and of the worker, the timer ids in existence are at each
  moment partitioned: each is exactly once scheduled, or free, or in the hands of the worker. A live
  timer is never on the free list, so its id cannot be handed out again while it is live, and a
  scheduled timer is always live.
\<close>

theorem timers_partition:
  assumes "tsteps timers_new as t"
  shows "distinct (timer_refs t) \<and> set (timer_refs t) = {..<length (tm_events t)} \<and>
    (\<forall>i. timer_live t i \<noteq> None \<longrightarrow> i \<notin> set (tm_free_ids t)) \<and>
    (\<forall>te \<in> set (tm_time_events t). timer_live t (te_ref te) \<noteq> None)"
proof -
  from assms have inv: "timers_inv t" by (rule timer_tickets.reach_inv)
  have "\<forall>i. timer_live t i \<noteq> None \<longrightarrow> i \<notin> set (tm_free_ids t)"
    using inv by (auto simp: timers_inv_def timer_live_def split: if_splits)
  moreover have "timer_live t (te_ref te) \<noteq> None" if "te \<in> set (tm_time_events t)" for te
  proof -
    have lt: "te_ref te < length (tm_events t)" by (rule in_range_refs(1) [OF inv that])
    then have "tm_events t ! te_ref te \<in> set (tm_events t)" by simp
    with inv that lt show ?thesis by (auto simp: timers_inv_def timer_live_def)
  qed
  ultimately show ?thesis using timer_tickets.reach_partition [OF assms] by blast
qed

theorem timers_partition_witness:
  "\<exists>t :: nat timers.
     exec_actions timers_new [ActAdd 5 7 0 0, ActAdd 3 8 2 1, ActTake 4, ActInvoke, ActFinish] = Some t \<and>
     distinct (timer_refs t) \<and> set (timer_refs t) = {..<2}"
proof -
  define t0 :: "nat timers" where
    "t0 = the (exec_actions timers_new [ActAdd 5 7 0 0, ActAdd 3 8 2 1, ActTake 4, ActInvoke, ActFinish])"
  have e: "exec_actions timers_new [ActAdd 5 7 0 0, ActAdd 3 8 2 1, ActTake 4, ActInvoke, ActFinish] = Some t0"
    unfolding t0_def by code_simp
  have l: "length (tm_events t0) = 2" unfolding t0_def by code_simp
  show ?thesis
    using timers_partition [OF exec_actions_tsteps [OF e]] e l by auto
qed

text \<open>
  C22. The worker always fires the earliest timer: the time event it takes is due, no scheduled event
  is earlier, nothing else is lost from the schedule, and its handler is present at that moment.
  Running the handler without interference then re-arms a periodic timer exactly one period after
  its previous due time, and retires a one-shot timer, whose id becomes free.
\<close>

theorem timers_fire_earliest:
  assumes "tsteps timers_new as t" and "worker_take now t = Some t1"
    and "worker_invoke t1 = Some t2" and "worker_finish t2 = Some t3"
  shows "\<exists>te h. tm_time_events t = te # tm_time_events t1 \<and> te_next te \<le> now \<and>
    (\<forall>te' \<in> set (tm_time_events t1). te_next te \<le> te_next te') \<and>
    tm_worker t2 = WCalling te h \<and>
    (let p = ev_period (tm_events t ! te_ref te) in
     if p > 0
     then mset (tm_time_events t3) = add_mset (te\<lparr>te_next := te_next te + p\<rparr>) (mset (tm_time_events t1)) \<and>
          timer_live t3 = timer_live t
     else tm_time_events t3 = tm_time_events t1 \<and> tm_free_ids t3 = te_ref te # tm_free_ids t \<and>
          timer_live t3 = (timer_live t)(te_ref te := None))"
proof -
  from assms(1) have inv: "timers_inv t" by (rule timer_tickets.reach_inv)
  from assms(2) obtain te tes where te: "tm_time_events t = te # tes" "te_next te \<le> now"
    and t1: "t1 = t\<lparr>tm_time_events := tes, tm_worker := WUnlocked te\<rparr>"
    by (rule worker_takeD)
  have v: "te_ref te < length (tm_events t)" "ev_valid (tm_events t ! te_ref te)"
    and "ev_handler (tm_events t ! te_ref te) \<noteq> None"
    using take_valid [OF inv assms(2), of te] by (simp_all add: t1)
  then obtain h where h: "ev_handler (tm_events t ! te_ref te) = Some h" by auto
  have t2: "t2 = t\<lparr>tm_time_events := tes, tm_worker := WCalling te h\<rparr>"
    using assms(3) h by (simp add: worker_invoke_def t1)
  have "\<forall>te' \<in> set tes. te_next te \<le> te_next te'"
    using inv te by (simp add: timers_inv_def)
  moreover have "timer_live t3 = (timer_live t)(te_ref te := None)"
    if "\<not> ev_period (tm_events t ! te_ref te) > 0"
    using assms(4) that v by (auto simp: worker_finish_def t2 timer_live_def fun_eq_iff nth_list_update)
  moreover have "timer_live t3 = timer_live t" if "ev_period (tm_events t ! te_ref te) > 0"
    using assms(4) that v by (auto simp: worker_finish_def t2 timer_live_def fun_eq_iff)
  ultimately show ?thesis
    using te assms(4) v by (auto simp: t1 t2 worker_finish_def Let_def)
qed

text \<open>The execution of the witnesses: a one-shot timer due at 5 and a periodic one due at 3.\<close>

definition timers_demo :: "nat timers" where
  "timers_demo = the (exec_actions timers_new [ActAdd 5 7 0 0, ActAdd 3 8 2 1])"

lemma timers_demo_steps: "tsteps timers_new [ActAdd 5 7 0 0, ActAdd 3 8 2 1] timers_demo"
proof (rule exec_actions_tsteps)
  show "exec_actions timers_new [ActAdd 5 7 0 0, ActAdd 3 8 2 1] = Some timers_demo"
    unfolding timers_demo_def by code_simp
qed

theorem timers_fire_earliest_witness:
  "\<exists>te h. tm_time_events timers_demo = te # tm_time_events (the (worker_take 4 timers_demo)) \<and>
     te_next te \<le> 4 \<and>
     tm_worker (the (worker_invoke (the (worker_take 4 timers_demo)))) = WCalling te h"
proof -
  have "worker_take 4 timers_demo = Some (the (worker_take 4 timers_demo))"
    "worker_invoke (the (worker_take 4 timers_demo)) =
       Some (the (worker_invoke (the (worker_take 4 timers_demo))))"
    "worker_finish (the (worker_invoke (the (worker_take 4 timers_demo)))) =
       Some (the (worker_finish (the (worker_invoke (the (worker_take 4 timers_demo))))))"
    by code_simp+
  from timers_fire_earliest [OF timers_demo_steps this] show ?thesis by blast
qed

text \<open>
  A timer id stays attached to its timer: whatever other timers a program adds or removes, as
  long as it does not remove this one, the id keeps naming the start, period and handler it was
  created with, and no other timer receives the id.
\<close>

theorem timer_id_stable:
  assumes "timers_inv t" and "timers_add when h period t = (i, t')"
    and "SlotRelease i \<notin> set ops"
  shows "timer_live (run_slots timer_alloc timer_release timer_live ops t') i = Some (when, period, h) \<and>
    fst (timers_add when' h' period' (run_slots timer_alloc timer_release timer_live ops t')) \<noteq> i"
proof -
  have a: "timer_alloc (when, period, h) t = Some (i, t')"
    using assms(2) by (simp add: timer_alloc_def)
  have ok: "ops_valid (\<lambda>_. True) ops" by (simp add: ops_valid_def)
  obtain j t'' where j: "timers_add when' h' period' (timer_ids.run ops t') = (j, t'')"
    by (cases "timers_add when' h' period' (timer_ids.run ops t')")
  then have "timer_alloc (when', period', h') (timer_ids.run ops t') = Some (j, t'')"
    by (simp add: timer_alloc_def)
  with timer_ids.distinct_handles [OF assms(1) _ a ok assms(3)] have "i \<noteq> j" by simp
  with timer_ids.alloc_then_run [OF assms(1) _ a ok assms(3)] j show ?thesis by simp
qed

theorem timer_id_stable_witness:
  "timer_live (run_slots timer_alloc timer_release timer_live [SlotAlloc (1, 0, 9), SlotRelease 1]
      (snd (timers_add 5 (7::nat) 0 timers_new))) 0 = Some (5, 0, 7)"
proof -
  have a: "timers_add 5 (7::nat) 0 timers_new = (0, snd (timers_add 5 7 0 timers_new))"
    by code_simp
  show ?thesis
    using timer_id_stable [OF timers_new_inv a, of "[SlotAlloc (1, 0, 9), SlotRelease 1]" 0 0 0]
    by simp
qed

text \<open>
  The window between the unlock and the call of the handler is a real race: when another thread
  removes a timer that the worker has just taken, the worker calls an empty handler. Without such a
  removal in that window the handler the worker calls is always the one the timer was created with.
\<close>

theorem timers_remove_race:
  "\<exists>t te. tsteps timers_new [ActAdd 5 h 0 0, ActTake 6, ActRemove 0 True, ActInvoke] t \<and>
     tm_worker t = WCrashed te \<and>
   (\<forall>as s now s'. tsteps timers_new as s \<longrightarrow> worker_take now s = Some s' \<longrightarrow>
      (\<exists>te h s''. worker_invoke s' = Some s'' \<and> tm_worker s'' = WCalling te h \<and>
         ev_handler (tm_events s ! te_ref te) = Some h))"
proof -
  have "exec_actions timers_new [ActAdd 5 h 0 0, ActTake 6, ActRemove 0 True, ActInvoke] =
     Some \<lparr>tm_done = False, tm_events = [\<lparr>ev_id = 0, ev_start = 5, ev_period = 0, ev_handler = None, ev_valid = False\<rparr>],
       tm_time_events = [], tm_free_ids = [], tm_worker = WCrashed \<lparr>te_next = 5, te_ref = 0\<rparr>\<rparr>"
    by (simp add: timers_new_def timers_add_def worker_take_def timers_remove_def worker_invoke_def
        event_invalidate_def Let_def)
  note crash = exec_actions_tsteps [OF this]
  have "\<exists>te h s''. worker_invoke s' = Some s'' \<and> tm_worker s'' = WCalling te h \<and>
         ev_handler (tm_events s ! te_ref te) = Some h"
    if "tsteps timers_new as s" "worker_take now s = Some s'" for as s now s'
  proof -
    have inv: "timers_inv s" by (rule timer_tickets.reach_inv [OF that(1)])
    from that(2) obtain te where te: "tm_worker s' = WUnlocked te" and ev: "tm_events s' = tm_events s"
      by (auto elim!: worker_takeD)
    from take_valid(3) [OF inv that(2) te] ev te show ?thesis
      by (auto simp: worker_invoke_def)
  qed
  note calls = this
  show ?thesis
    by (rule exI, rule exI, rule conjI, rule crash, rule conjI, rule timers.select_convs(5))
      (intro allI impI, erule (1) calls)
qed

theorem timers_remove_race_witness:
  "\<exists>t te. tsteps timers_new [ActAdd 5 (7::nat) 0 0, ActTake 6, ActRemove 0 True, ActInvoke] t \<and>
     tm_worker t = WCrashed te"
  using timers_remove_race [of 7] by blast

end
