(* ===== verification/Crc32.thy ===== *)
theory Crc32
  imports Prelude
begin

unbundle bit_operations_syntax

text \<open>
  Checksums (\<^verbatim>\<open>lib/libkvm/utils/crc32.hpp\<close>, \<^verbatim>\<open>lib/libkvm/utils/crc32.cpp\<close>): the table driven CRC-32
  templates and the routine built on the CRC32 instruction, which produces the tenant hashes, the
  handle hashes and the identifiers of the cached regular expressions.
\<close>

section \<open>The bit serial register\<close>

text \<open>One step of the reflected shift register with feedback polynomial \<open>poly\<close>.\<close>

definition crc_bit :: "u32 \<Rightarrow> u32 \<Rightarrow> u32" where
  "crc_bit poly crc = drop_bit 1 crc XOR (if bit crc 0 then poly else 0)"

fun crc_steps :: "u32 \<Rightarrow> nat \<Rightarrow> u32 \<Rightarrow> u32" where
  "crc_steps poly 0 crc = crc"
| "crc_steps poly (Suc n) crc = crc_steps poly n (crc_bit poly crc)"

text \<open>
  The instructions \<open>crc32\<close> with an 8, 16 and 32 bit operand: the operand is added to the low bits of
  the register, which then advances by as many steps as the operand has bits. Their polynomial is
  0x1EDC6F41, bit reflected.
\<close>

definition crc32c_poly :: u32 where
  "crc32c_poly = 0x82F63B78"

definition mm_crc32_u8 :: "u32 \<Rightarrow> u8 \<Rightarrow> u32" where
  "mm_crc32_u8 crc v = crc_steps crc32c_poly 8 (crc XOR ucast v)"

definition mm_crc32_u16 :: "u32 \<Rightarrow> u16 \<Rightarrow> u32" where
  "mm_crc32_u16 crc v = crc_steps crc32c_poly 16 (crc XOR ucast v)"

definition mm_crc32_u32 :: "u32 \<Rightarrow> u32 \<Rightarrow> u32" where
  "mm_crc32_u32 crc v = crc_steps crc32c_poly 32 (crc XOR v)"

text \<open>Little endian loads.\<close>

definition load16 :: "u8 \<Rightarrow> u8 \<Rightarrow> u16" where
  "load16 b0 b1 = ucast b0 OR push_bit 8 (ucast b1)"

definition load32 :: "u8 \<Rightarrow> u8 \<Rightarrow> u8 \<Rightarrow> u8 \<Rightarrow> u32" where
  "load32 b0 b1 b2 b3 =
     ucast b0 OR push_bit 8 (ucast b1) OR push_bit 16 (ucast b2) OR push_bit 24 (ucast b3)"

section \<open>The hardware assisted routine\<close>

text \<open>\<open>while (vdata < alignto && len > 0)\<close>: \<open>n\<close> is \<open>alignto - vdata\<close>.\<close>

fun crc_align :: "nat \<Rightarrow> u32 \<Rightarrow> u8 list \<Rightarrow> u32 \<times> u8 list" where
  "crc_align (Suc n) partial (b # bs) = crc_align n (mm_crc32_u8 partial b) bs"
| "crc_align n partial bs = (partial, bs)"

text \<open>\<open>while (len >= 8)\<close>: two words per iteration.\<close>

fun crc_by8 :: "u32 \<Rightarrow> u8 list \<Rightarrow> u32 \<times> u8 list" where
  "crc_by8 partial (b0 # b1 # b2 # b3 # b4 # b5 # b6 # b7 # bs) =
     crc_by8 (mm_crc32_u32 (mm_crc32_u32 partial (load32 b0 b1 b2 b3)) (load32 b4 b5 b6 b7)) bs"
| "crc_by8 partial bs = (partial, bs)"

text \<open>\<open>while (len >= 4)\<close>.\<close>

fun crc_by4 :: "u32 \<Rightarrow> u8 list \<Rightarrow> u32 \<times> u8 list" where
  "crc_by4 partial (b0 # b1 # b2 # b3 # bs) = crc_by4 (mm_crc32_u32 partial (load32 b0 b1 b2 b3)) bs"
| "crc_by4 partial bs = (partial, bs)"

text \<open>\<open>if (len & 2)\<close> and \<open>if (len & 1)\<close>, with fewer than four bytes left.\<close>

fun crc_tail :: "u32 \<Rightarrow> u8 list \<Rightarrow> u32" where
  "crc_tail partial [b0] = mm_crc32_u8 partial b0"
| "crc_tail partial [b0, b1] = mm_crc32_u16 partial (load16 b0 b1)"
| "crc_tail partial [b0, b1, b2] = mm_crc32_u8 (mm_crc32_u16 partial (load16 b0 b1)) b2"
| "crc_tail partial bs = partial"

text \<open>\<open>(addr + 0x3) & ~0x3\<close> in pointer arithmetic; no byte is aligned when the sum wraps.\<close>

definition crc_alignto :: "u64 \<Rightarrow> nat" where
  "crc_alignto addr = unat ((addr + 3) AND NOT 3) - unat addr"

definition crc32c_hw_partial :: "u32 \<Rightarrow> u64 \<Rightarrow> u8 list \<Rightarrow> u32" where
  "crc32c_hw_partial partial addr vdata =
     (let (p1, d1) = crc_align (crc_alignto addr) partial vdata;
          (p2, d2) = crc_by8 p1 d1;
          (p3, d3) = crc_by4 p2 d2
      in crc_tail p3 d3)"

definition crc32c_hw :: "u64 \<Rightarrow> u8 list \<Rightarrow> u32" where
  "crc32c_hw addr vdata = crc32c_hw_partial 0xFFFFFFFF addr vdata XOR 0xFFFFFFFF"

section \<open>The table driven templates\<close>

text \<open>\<open>crc = (crc >> 1) ^ (POLYNOMIAL & mask)\<close> with \<open>mask = -(crc & 1)\<close>.\<close>

definition crc_table_step :: "u32 \<Rightarrow> u32 \<Rightarrow> u32" where
  "crc_table_step poly crc = drop_bit 1 crc XOR (poly AND (- (crc AND 1)))"

fun crc_table_iter :: "u32 \<Rightarrow> nat \<Rightarrow> u32 \<Rightarrow> u32" where
  "crc_table_iter poly 0 crc = crc"
| "crc_table_iter poly (Suc i) crc = crc_table_iter poly i (crc_table_step poly crc)"

definition gen_crc32_table :: "u32 \<Rightarrow> u32 list" where
  "gen_crc32_table poly = map (\<lambda>byte. crc_table_iter poly 8 (word_of_nat byte)) [0..<256]"

text \<open>
  \<open>crc32(const void*, size_t)\<close>: the loop counter is a 32 bit unsigned integer compared with a
  64 bit length, so it is kept at its width; for 4 GiB or more the loop does not end (\<open>None\<close>).
\<close>

partial_function (option) crc32_loop :: "u32 list \<Rightarrow> u8 list \<Rightarrow> u32 \<Rightarrow> u32 \<Rightarrow> u32 option" where
  "crc32_loop table bytes i crc =
     (if unat i < length bytes
      then crc32_loop table bytes (i + 1)
             (table ! unat ((crc XOR ucast (bytes ! unat i)) AND 0xFF) XOR drop_bit 8 crc)
      else Some crc)"

definition crc32 :: "u32 \<Rightarrow> u8 list \<Rightarrow> u32 option" where
  "crc32 poly bytes = map_option (\<lambda>crc. NOT crc) (crc32_loop (gen_crc32_table poly) bytes 0 0xFFFFFFFF)"

text \<open>\<open>crc32c(const std::string&)\<close>.\<close>

definition crc32c :: "u8 list \<Rightarrow> u32 option" where
  "crc32c bytes = crc32 0x1EDC6F41 bytes"

section \<open>Linearity of the register\<close>

lemma crc_bit_xor: "crc_bit poly (a XOR b) = crc_bit poly a XOR crc_bit poly b"
  by (rule bit_word_eqI) (auto simp: crc_bit_def bit_simps)

lemma crc_steps_xor: "crc_steps poly n (a XOR b) = crc_steps poly n a XOR crc_steps poly n b"
  by (induction n arbitrary: a b) (simp_all add: crc_bit_xor)

lemma crc_steps_add: "crc_steps poly (m + n) a = crc_steps poly n (crc_steps poly m a)"
  by (induction m arbitrary: a) simp_all

lemma crc_steps_shift:
  "(\<And>i. i < n \<Longrightarrow> \<not> bit a i) \<Longrightarrow> crc_steps poly n a = drop_bit n a"
proof (induction n arbitrary: a)
  case (Suc n)
  then have z: "\<not> bit a 0" by blast
  have "crc_steps poly n (drop_bit 1 a) = drop_bit n (drop_bit 1 a)"
    using Suc.prems by (intro Suc.IH) (simp add: bit_simps)
  with z show ?case by (simp add: crc_bit_def)
qed simp

text \<open>Bytes that are still above the low \<open>n\<close> bits only move down while \<open>n\<close> steps are taken.\<close>

lemma crc_steps_high:
  assumes "\<And>i. i < n \<Longrightarrow> \<not> bit v i"
  shows "crc_steps poly n (c XOR v) = crc_steps poly n c XOR drop_bit n v"
  by (simp add: crc_steps_xor crc_steps_shift assms)

lemma byte_bitD: "bit (b :: u8) k \<Longrightarrow> k < 8"
  using bit_imp_le_length [of b k] by simp

lemma drop_push_byte [simp]:
  "drop_bit 8 (push_bit 8 (ucast (b :: u8) :: u32)) = ucast b"
  "drop_bit 8 (push_bit 16 (ucast (b :: u8) :: u32)) = push_bit 8 (ucast b)"
  "drop_bit 8 (push_bit 24 (ucast (b :: u8) :: u32)) = push_bit 16 (ucast b)"
  by (rule bit_word_eqI; auto simp: bit_simps dest: byte_bitD)+

lemma load16_bytes: "(ucast (load16 b0 b1) :: u32) = ucast b0 XOR push_bit 8 (ucast b1)"
  by (rule bit_word_eqI) (auto simp: load16_def bit_simps dest: byte_bitD)

lemma load32_bytes:
  "load32 b0 b1 b2 b3 = ucast b0 XOR (push_bit 8 (ucast b1) XOR (push_bit 16 (ucast b2) XOR push_bit 24 (ucast b3)))"
proof (rule bit_word_eqI)
  fix n
  assume n: "n < LENGTH(32)"
  consider "n < 8" | "8 \<le> n" "n < 16" | "16 \<le> n" "n < 24" | "24 \<le> n" by linarith
  then show "bit (load32 b0 b1 b2 b3) n = bit (ucast b0 XOR (push_bit 8 (ucast b1) XOR
      (push_bit 16 (ucast b2) XOR push_bit 24 (ucast b3))) :: u32) n"
  proof cases
    case 1
    with n show ?thesis by (simp add: load32_def bit_simps)
  next
    case 2
    with byte_bitD [of b0 n] have "\<not> bit b0 n" by auto
    with 2 n show ?thesis by (simp add: load32_def bit_simps)
  next
    case 3
    with byte_bitD [of b0 n] byte_bitD [of b1 "n - 8"] have "\<not> bit b0 n" "\<not> bit b1 (n - 8)" by auto
    with 3 n show ?thesis by (simp add: load32_def bit_simps)
  next
    case 4
    with byte_bitD [of b0 n] byte_bitD [of b1 "n - 8"] byte_bitD [of b2 "n - 16"]
    have "\<not> bit b0 n" "\<not> bit b1 (n - 8)" "\<not> bit b2 (n - 16)" by auto
    with 4 n show ?thesis by (simp add: load32_def bit_simps)
  qed
qed

text \<open>Eight steps consume the low byte; the bytes above it move down.\<close>

lemma mm_crc32_u8_high:
  assumes "\<And>i. i < 8 \<Longrightarrow> \<not> bit v i"
  shows "crc_steps crc32c_poly (8 + n) (c XOR (ucast b XOR v)) =
     crc_steps crc32c_poly n (mm_crc32_u8 c b XOR drop_bit 8 v)"
  using crc_steps_high [of 8 v crc32c_poly "c XOR ucast b", OF assms]
  by (simp add: crc_steps_add mm_crc32_u8_def xor.assoc)

lemma mm_crc32_u16_bytes: "mm_crc32_u16 c (load16 b0 b1) = mm_crc32_u8 (mm_crc32_u8 c b0) b1"
  using mm_crc32_u8_high [of "push_bit 8 (ucast b1)" 8 c b0]
  by (simp add: mm_crc32_u16_def load16_bytes mm_crc32_u8_def bit_simps)

lemma mm_crc32_u32_bytes:
  "mm_crc32_u32 c (load32 b0 b1 b2 b3) =
     mm_crc32_u8 (mm_crc32_u8 (mm_crc32_u8 (mm_crc32_u8 c b0) b1) b2) b3"
proof -
  let ?b1 = "ucast b1 :: u32" and ?b2 = "ucast b2 :: u32" and ?b3 = "ucast b3 :: u32"
  let ?c1 = "mm_crc32_u8 c b0"
  let ?c2 = "mm_crc32_u8 ?c1 b1"
  have "mm_crc32_u32 c (load32 b0 b1 b2 b3) =
      crc_steps crc32c_poly (8 + 24)
        (c XOR (ucast b0 XOR (push_bit 8 ?b1 XOR (push_bit 16 ?b2 XOR push_bit 24 ?b3))))"
    by (simp add: mm_crc32_u32_def load32_bytes)
  also have "\<dots> = crc_steps crc32c_poly (8 + 16)
      (?c1 XOR (ucast b1 XOR (push_bit 8 ?b2 XOR push_bit 16 ?b3)))"
    by (subst mm_crc32_u8_high) (auto simp: bit_simps drop_bit_xor)
  also have "\<dots> = crc_steps crc32c_poly (8 + 8) (?c2 XOR (ucast b2 XOR push_bit 8 ?b3))"
    by (subst mm_crc32_u8_high) (auto simp: bit_simps drop_bit_xor)
  also have "\<dots> = crc_steps crc32c_poly 8 (mm_crc32_u8 ?c2 b2 XOR ucast b3)"
    by (subst mm_crc32_u8_high) (auto simp: bit_simps)
  finally show ?thesis by (simp add: mm_crc32_u8_def)
qed

section \<open>The hardware routine is the bytewise checksum\<close>

lemma crc_align_foldl:
  "crc_align n p bs = (p', bs') \<Longrightarrow> foldl mm_crc32_u8 p' bs' = foldl mm_crc32_u8 p bs"
  by (induction n p bs rule: crc_align.induct) auto

lemma crc_by8_foldl: "crc_by8 p bs = (p', bs') \<Longrightarrow> foldl mm_crc32_u8 p' bs' = foldl mm_crc32_u8 p bs"
  by (induction p bs rule: crc_by8.induct) (auto simp: mm_crc32_u32_bytes)

lemma crc_by4_foldl: "crc_by4 p bs = (p', bs') \<Longrightarrow> foldl mm_crc32_u8 p' bs' = foldl mm_crc32_u8 p bs"
  by (induction p bs rule: crc_by4.induct) (auto simp: mm_crc32_u32_bytes)

lemma crc_by4_length: "length (snd (crc_by4 p bs)) < 4"
  by (induction p bs rule: crc_by4.induct) auto

lemma crc_tail_foldl: "length bs < 4 \<Longrightarrow> crc_tail p bs = foldl mm_crc32_u8 p bs"
  by (cases "(p, bs)" rule: crc_tail.cases) (auto simp: mm_crc32_u16_bytes)

lemma crc32c_hw_partial_foldl: "crc32c_hw_partial p addr bs = foldl mm_crc32_u8 p bs"
proof -
  obtain p1 d1 p2 d2 p3 d3 where
    s: "crc_align (crc_alignto addr) p bs = (p1, d1)" "crc_by8 p1 d1 = (p2, d2)" "crc_by4 p2 d2 = (p3, d3)"
    by (metis surj_pair)
  have "crc_tail p3 d3 = foldl mm_crc32_u8 p3 d3"
    using crc_by4_length [of p2 d2] by (simp add: s crc_tail_foldl)
  with s show ?thesis
    by (simp add: crc32c_hw_partial_def crc_align_foldl crc_by8_foldl crc_by4_foldl)
qed

section \<open>The table driven templates are the same register\<close>

lemma crc_table_step_eq: "crc_table_step poly crc = crc_bit poly crc"
proof -
  have "crc AND 1 = (if bit crc 0 then 1 else 0)"
    by (rule bit_word_eqI) (auto simp: bit_simps intro!: gr0I)
  then show ?thesis by (simp add: crc_table_step_def crc_bit_def)
qed

lemma crc_table_iter_eq: "crc_table_iter poly n crc = crc_steps poly n crc"
  by (induction n arbitrary: crc) (simp_all add: crc_table_step_eq)

text \<open>The bytewise step for an arbitrary polynomial.\<close>

definition crc_byte :: "u32 \<Rightarrow> u32 \<Rightarrow> u8 \<Rightarrow> u32" where
  "crc_byte poly crc b = crc_steps poly 8 (crc XOR ucast b)"

lemma crc_byte_hw: "crc_byte crc32c_poly = mm_crc32_u8"
  by (simp add: fun_eq_iff crc_byte_def mm_crc32_u8_def)

lemma low_byte_mask: "(0xFF :: u32) = mask 8"
  by (simp add: mask_eq_exp_minus_1)

lemma crc_steps8_split: "crc_steps poly 8 v = crc_steps poly 8 (v AND 0xFF) XOR drop_bit 8 v"
proof -
  have v: "v = (v AND 0xFF) XOR push_bit 8 (drop_bit 8 v)"
    unfolding low_byte_mask by (rule bit_word_eqI) (auto simp: bit_simps)
  have d: "drop_bit 8 (push_bit 8 (drop_bit 8 v)) = drop_bit 8 v"
    by (rule bit_word_eqI) (auto simp: bit_simps dest: bit_imp_le_length)
  show ?thesis
    using crc_steps_high [of 8 "push_bit 8 (drop_bit 8 v)" poly "v AND 0xFF"] d
    by (simp add: bit_simps flip: v)
qed

lemma mask_byte_less: "unat ((v :: u32) AND 0xFF) < 256"
proof -
  have "(v AND 0xFF) \<le> 0xFF" by (rule word_and_le1)
  then show ?thesis by (simp add: word_le_nat_alt)
qed

lemma crc_table_lookup:
  "gen_crc32_table poly ! unat ((crc XOR ucast b) AND 0xFF) XOR drop_bit 8 crc = crc_byte poly crc b"
proof -
  have "drop_bit 8 (crc XOR ucast b) = drop_bit 8 crc"
    by (rule bit_word_eqI) (auto simp: bit_simps dest: byte_bitD)
  with crc_steps8_split [of poly "crc XOR ucast b"] mask_byte_less [of "crc XOR ucast b"] show ?thesis
    by (simp add: gen_crc32_table_def crc_table_iter_eq crc_byte_def)
qed

lemma crc32_loop_foldl:
  assumes "length bytes < 2 ^ 32" and "unat i \<le> length bytes"
  shows "crc32_loop (gen_crc32_table poly) bytes i crc = Some (foldl (crc_byte poly) crc (drop (unat i) bytes))"
  using assms(2)
proof (induction "length bytes - unat i" arbitrary: i crc)
  case 0
  then show ?case by (subst crc32_loop.simps) simp
next
  case (Suc n)
  then have lt: "unat i < length bytes" by simp
  with assms(1) have "unat (i + 1) = unat i + 1"
    by (simp add: unat_word_ariths(1))
  with Suc lt show ?case
    by (subst crc32_loop.simps) (simp add: crc_table_lookup Cons_nth_drop_Suc [symmetric])
qed

lemma crc32_foldl: "length bytes < 2 ^ 32 \<Longrightarrow> crc32 poly bytes = Some (NOT (foldl (crc_byte poly) 0xFFFFFFFF bytes))"
  by (simp add: crc32_def crc32_loop_foldl)

section \<open>The register loses no information\<close>

lemma xor_cancel [simp]:
  fixes a b c :: u32
  shows "a XOR c = b XOR c \<longleftrightarrow> a = b" "c XOR a = c XOR b \<longleftrightarrow> a = b"
proof -
  have "(x XOR c) XOR c = x" for x by (simp add: xor.assoc)
  then show "a XOR c = b XOR c \<longleftrightarrow> a = b" by metis
  then show "c XOR a = c XOR b \<longleftrightarrow> a = b" by (simp add: xor.commute)
qed

lemma crc_bit_zero:
  assumes "bit poly 31" and "crc_bit poly a = 0"
  shows "a = 0"
proof (cases "bit a 0")
  case True
  then have "bit (crc_bit poly a) 31"
    using assms(1) by (auto simp: crc_bit_def bit_simps dest: bit_imp_le_length)
  with assms(2) show ?thesis by simp
next
  case False
  with assms(2) have d: "drop_bit 1 a = 0" by (simp add: crc_bit_def)
  have "\<not> bit a n" for n
  proof (cases n)
    case 0
    with False show ?thesis by simp
  next
    case (Suc m)
    with d have "\<not> bit (drop_bit 1 a) m" by simp
    with Suc show ?thesis by (simp add: bit_simps)
  qed
  then show ?thesis by (intro bit_word_eqI) simp
qed

lemma crc_steps_inj:
  assumes "bit poly 31" and "crc_steps poly n a = crc_steps poly n b"
  shows "a = b"
proof -
  have zero: "crc_steps poly n v = 0 \<Longrightarrow> v = 0" for v
    by (induction n arbitrary: v) (auto dest: crc_bit_zero [OF assms(1)])
  have "crc_steps poly n (a XOR b) = 0" using assms(2) by (simp add: crc_steps_xor)
  then have "a XOR b = b XOR b" by (simp add: zero)
  then show ?thesis by (rule xor_cancel(1) [THEN iffD1])
qed

lemma crc_byte_inj_crc: "\<lbrakk>bit poly 31; crc_byte poly c b = crc_byte poly c' b\<rbrakk> \<Longrightarrow> c = c'"
  unfolding crc_byte_def by (drule (1) crc_steps_inj) simp

lemma crc_byte_inj_byte:
  assumes "bit poly 31" and "crc_byte poly c b = crc_byte poly c b'"
  shows "b = b'"
proof -
  have "(ucast b :: u32) = ucast b'"
    using crc_steps_inj [OF assms(1) assms(2) [unfolded crc_byte_def]] by simp
  then have "unat (ucast b :: u32) = unat (ucast b' :: u32)" by (rule arg_cong)
  moreover have "take_bit 32 (unat x) = unat x" for x :: u8
    using unsigned_less [of x, where 'a = nat] by (intro take_bit_nat_eq_self) simp
  ultimately show ?thesis by (simp add: unsigned_ucast_eq word_unat_eq_iff)
qed

lemma foldl_crc_inj: "\<lbrakk>bit poly 31; foldl (crc_byte poly) c bs = foldl (crc_byte poly) c' bs\<rbrakk> \<Longrightarrow> c = c'"
  by (induction bs arbitrary: c c') (auto dest: crc_byte_inj_crc)

lemma crc32c_poly_top: "bit crc32c_poly 31"
  by (simp add: crc32c_poly_def)

lemma crc32c_hw_partial_byte: "crc32c_hw_partial p addr bs = foldl (crc_byte crc32c_poly) p bs"
  by (simp add: crc32c_hw_partial_foldl crc_byte_hw)

section \<open>Properties\<close>

text \<open>
  The hardware routine computes one function of the bytes alone: the address, hence the way the
  data is cut into words, does not matter, and a checksum continued over the next buffer is the
  checksum of the concatenation.
\<close>

theorem crc32c_hw_chunks:
  "crc32c_hw_partial (crc32c_hw_partial p addr xs) addr' ys = crc32c_hw_partial p addr'' (xs @ ys) \<and>
   crc32c_hw addr xs = crc32c_hw addr'' xs"
  by (simp add: crc32c_hw_def crc32c_hw_partial_byte)

text \<open>
  C23. The table driven template and the hardware routine agree when the template is given the
  reflected polynomial, for every buffer of less than 4 GiB, where the template's loop ends.
\<close>

theorem crc32_table_eq_hw:
  assumes "length bytes < 2 ^ 32"
  shows "crc32 0x82F63B78 bytes = Some (crc32c_hw addr bytes)"
proof -
  have "(NOT x :: u32) = x XOR 0xFFFFFFFF" for x
    by (rule bit_word_eqI) (simp add: bit_simps mask_eq_exp_minus_1 [of 32, where 'a = u32, simplified, symmetric])
  then show ?thesis
    using crc32_foldl [OF assms] by (simp add: crc32c_hw_def crc32c_hw_partial_byte crc32c_poly_def)
qed

theorem crc32_table_eq_hw_witness:
  "crc32 0x82F63B78 [0x61, 0x62, 0x63] = Some (crc32c_hw 0x1001 [0x61, 0x62, 0x63])"
  by (rule crc32_table_eq_hw) simp

text \<open>
  A checksum detects every corruption confined to one byte: two buffers of the same length that
  differ in exactly one position never have the same hardware checksum.
\<close>

theorem crc32c_hw_detects_byte:
  assumes "b \<noteq> b'"
  shows "crc32c_hw addr (xs @ b # ys) \<noteq> crc32c_hw addr (xs @ b' # ys)"
proof
  assume "crc32c_hw addr (xs @ b # ys) = crc32c_hw addr (xs @ b' # ys)"
  then have "crc_byte crc32c_poly (foldl (crc_byte crc32c_poly) 0xFFFFFFFF xs) b =
      crc_byte crc32c_poly (foldl (crc_byte crc32c_poly) 0xFFFFFFFF xs) b'"
    by (simp add: crc32c_hw_def crc32c_hw_partial_byte foldl_crc_inj [OF crc32c_poly_top])
  with assms show False by (auto dest: crc_byte_inj_byte [OF crc32c_poly_top])
qed

theorem crc32c_hw_detects_byte_witness:
  "crc32c_hw 0 ([1, 2] @ 3 # [4]) \<noteq> crc32c_hw 0 ([1, 2] @ 7 # [4])"
  by (rule crc32c_hw_detects_byte) simp

text \<open>
  The template instance named \<open>crc32c\<close> is not the CRC-32C: it is given the polynomial
  0x1EDC6F41 without the bit reflection the algorithm needs, and already differs from the hardware
  routine on a one byte string.
\<close>

theorem crc32c_not_hw: "crc32c [0x61] \<noteq> Some (crc32c_hw addr [0x61])"
proof -
  have "crc32c [0x61] = Some (NOT (crc_byte 0x1EDC6F41 0xFFFFFFFF 0x61))"
    by (simp add: crc32c_def crc32_foldl)
  moreover have "NOT (crc_byte 0x1EDC6F41 0xFFFFFFFF 0x61) \<noteq> mm_crc32_u8 0xFFFFFFFF 0x61 XOR 0xFFFFFFFF"
    by code_simp
  ultimately show ?thesis
    by (simp add: crc32c_hw_def crc32c_hw_partial_foldl)
qed

end
