(* ===== verification/Xorshift.thy ===== *)
theory Xorshift
  imports Prelude
begin

unbundle bit_operations_syntax

text \<open>
  The pseudo random number generator of a machine (\<^verbatim>\<open>lib/libkvm/utils/xorshift.hpp\<close>). Forked
  machines copy the generator of their source. The floating point conversions are left out.
\<close>

section \<open>Generator\<close>

type_synonym xorshift = "u64 \<times> u64"

text \<open>\<open>XorShift128Plus::operator()\<close>.\<close>

definition xorshift_next :: "xorshift \<Rightarrow> u64 \<times> xorshift" where
  "xorshift_next st =
     (let (x, y) = st;
          x' = x XOR push_bit 23 x;
          s1 = x' XOR y XOR drop_bit 17 x' XOR drop_bit 26 y
      in (s1 + y, (y, s1)))"

text \<open>\<open>class XorPRNG\<close>; \<open>random_integer\<close> is not initialised before the first use, which sets it.\<close>

record xorprng =
  x_generator :: xorshift
  x_random_integer :: u64
  x_counter :: nat

definition prng_draw :: "xorprng \<Rightarrow> u64 \<times> xorprng" where
  "prng_draw g = (let (v, st) = xorshift_next (x_generator g) in (v, g\<lparr>x_generator := st\<rparr>))"

text \<open>\<open>rand(min, max)\<close>: a 64 bit remainder, added to \<open>min\<close> and cut to 32 bits. \<open>None\<close> is the division by zero.\<close>

definition prng_rand :: "u32 \<Rightarrow> u32 \<Rightarrow> xorprng \<Rightarrow> (u32 \<times> xorprng) option" where
  "prng_rand mn mx g =
     (if mx - mn = 0 then None
      else let (v, g') = prng_draw g in Some (ucast (v mod ucast (mx - mn) + ucast mn), g'))"

definition prng_randU64 :: "xorprng \<Rightarrow> u64 \<times> xorprng" where
  "prng_randU64 g = prng_draw g"

definition prng_randI32 :: "xorprng \<Rightarrow> u32 \<times> xorprng" where
  "prng_randI32 g = (let (v, g') = prng_draw g in (ucast (v AND 0x7FFFFFFF), g'))"

definition prng_randBool :: "xorprng \<Rightarrow> bool \<times> xorprng" where
  "prng_randBool g =
     (let g1 = (if x_counter g = 0
                then let (v, g') = prng_draw g in g'\<lparr>x_counter := 64, x_random_integer := v\<rparr>
                else g);
          g2 = g1\<lparr>x_counter := x_counter g1 - 1\<rparr>
      in (bit (x_random_integer g2) (x_counter g2), g2))"

fun prng_randBools :: "nat \<Rightarrow> xorprng \<Rightarrow> bool list \<times> xorprng" where
  "prng_randBools 0 g = ([], g)"
| "prng_randBools (Suc n) g =
     (let (b, g1) = prng_randBool g; (bs, g2) = prng_randBools n g1 in (b # bs, g2))"

section \<open>Lemmas\<close>

text \<open>Shifting left by 23 and adding is invertible: the low bits determine the high ones.\<close>

lemma xor_shift_inj:
  fixes x z :: u64
  assumes "x XOR push_bit 23 x = z XOR push_bit 23 z"
  shows "x = z"
proof (rule bit_word_eqI)
  fix n
  assume "n < LENGTH(64)"
  then show "bit x n = bit z n"
  proof (induction n rule: less_induct)
    case (less n)
    have eq: "bit (x XOR push_bit 23 x) n = bit (z XOR push_bit 23 z) n" using assms by simp
    show ?case
    proof (cases "n < 23")
      case True
      with eq less.prems show ?thesis by (simp add: bit_simps)
    next
      case False
      then have "bit x (n - 23) = bit z (n - 23)" using less.prems by (intro less.IH) auto
      with eq False less.prems show ?thesis by (auto simp: bit_simps)
    qed
  qed
qed

lemma shr_xor_inj:
  fixes x z :: u64
  assumes "x XOR drop_bit 17 x = z XOR drop_bit 17 z"
  shows "x = z"
proof (rule bit_word_eqI)
  fix n
  assume "n < LENGTH(64)"
  then show "bit x n = bit z n"
  proof (induction "64 - n" arbitrary: n rule: less_induct)
    case less
    have eq: "bit (x XOR drop_bit 17 x) n = bit (z XOR drop_bit 17 z) n" using assms by simp
    show ?case
    proof (cases "n + 17 < 64")
      case True
      then have "bit x (17 + n) = bit z (17 + n)" by (intro less.hyps) auto
      with eq less.prems show ?thesis by (auto simp: bit_simps)
    next
      case False
      then have "\<not> bit x (17 + n)" "\<not> bit z (17 + n)"
        by (auto dest!: bit_imp_le_length)
      with eq less.prems show ?thesis by (auto simp: bit_simps)
    qed
  qed
qed

lemma xor_left_cancel64:
  fixes a b c :: u64
  shows "a XOR c = b XOR c \<longleftrightarrow> a = b"
proof -
  have "(x XOR c) XOR c = x" for x by (simp add: xor.assoc)
  then show ?thesis by metis
qed

lemma xorshift_state_inj:
  assumes "snd (xorshift_next s) = snd (xorshift_next t)"
  shows "s = t"
proof -
  obtain x y x' y' where st: "s = (x, y)" "t = (x', y')" by (cases s, cases t)
  define u where "u = x XOR push_bit 23 x"
  define u' where "u' = x' XOR push_bit 23 x'"
  from assms have y: "y = y'"
    and s1: "u XOR (y XOR (drop_bit 17 u XOR drop_bit 26 y)) = u' XOR (y' XOR (drop_bit 17 u' XOR drop_bit 26 y'))"
    by (auto simp: xorshift_next_def Let_def st u_def u'_def)
  from s1 have "(u XOR drop_bit 17 u) XOR (y XOR drop_bit 26 y) = (u' XOR drop_bit 17 u') XOR (y XOR drop_bit 26 y)"
    by (simp add: y ac_simps)
  then have "u = u'" unfolding xor_left_cancel64 by (rule shr_xor_inj)
  then have "x = x'" unfolding u_def u'_def by (rule xor_shift_inj)
  with y st show ?thesis by simp
qed

lemma xorshift_zero: "snd (xorshift_next (0, 0)) = (0, 0)"
  by (simp add: xorshift_next_def)

section \<open>Properties\<close>

text \<open>
  The generator never falls into its fixed point: distinct states have distinct successors, so
  a generator seeded with anything but two zero words stays away from the all zero state forever.
\<close>

theorem xorshift_never_zero:
  assumes "st \<noteq> (0, 0)"
  shows "((\<lambda>s. snd (xorshift_next s)) ^^ n) st \<noteq> (0, 0)"
proof (induction n)
  case (Suc n)
  then show ?case
    using xorshift_state_inj [of "((\<lambda>s. snd (xorshift_next s)) ^^ n) st" "(0, 0)"]
    by (auto simp: xorshift_zero)
qed (use assms in simp)

theorem xorshift_never_zero_witness: "((\<lambda>s. snd (xorshift_next s)) ^^ 5) (1, 0) \<noteq> (0, 0)"
  by (rule xorshift_never_zero) simp

text \<open>
  \<open>rand(min, max)\<close> stays in the half open interval it is given, whatever the state.
\<close>

theorem prng_rand_range:
  assumes "mn < mx"
  shows "\<exists>v g'. prng_rand mn mx g = Some (v, g') \<and> mn \<le> v \<and> v < mx"
proof -
  obtain v g' where d: "prng_draw g = (v, g')" by (cases "prng_draw g")
  have lt: "unat mn < unat mx" using assms by (simp add: word_less_nat_alt)
  then have diff: "unat (mx - mn) = unat mx - unat mn"
    by (intro unat_sub) (simp add: word_le_nat_alt)
  have nz: "mx - mn \<noteq> 0" using assms by auto
  let ?r = "unat v mod (unat mx - unat mn)"
  have r: "?r < unat mx - unat mn" using lt by simp
  have mx: "unat mx < 2 ^ 32" using unsigned_less [of mx, where 'a = nat] by simp
  have up: "unat (ucast w :: u64) = unat w" for w :: u32
    using unsigned_less [of w, where 'a = nat] by (simp add: unsigned_ucast_eq take_bit_nat_eq_self)
  have "unat (v mod ucast (mx - mn) + ucast mn) = (?r + unat mn) mod 2 ^ 64"
    by (simp add: unat_word_ariths(1) unat_mod up diff)
  then have s: "unat (v mod ucast (mx - mn) + ucast mn) = ?r + unat mn" using r mx by simp
  have "unat (ucast (v mod ucast (mx - mn) + ucast mn) :: u32) = (?r + unat mn) mod 2 ^ 32"
    unfolding unsigned_ucast_eq take_bit_eq_mod s by simp
  then have "unat (ucast (v mod ucast (mx - mn) + ucast mn) :: u32) = ?r + unat mn" using r mx by simp
  with r nz d show ?thesis by (auto simp: prng_rand_def word_le_nat_alt word_less_nat_alt)
qed

theorem prng_rand_range_witness:
  "\<exists>v g'. prng_rand 10 20 \<lparr>x_generator = (1, 2), x_random_integer = 0, x_counter = 0\<rparr> = Some (v, g') \<and> 10 \<le> v \<and> v < 20"
  by (rule prng_rand_range) simp

end
