(* ===== verification/Tenant_Config.thy ===== *)
theory Tenant_Config
  imports Prelude
begin

text \<open>
  The configuration of a program: the settings structure \<open>TenantGroup\<close>
  (\<^verbatim>\<open>lib/libkvm/tenant.hpp\<close>, \<^verbatim>\<open>lib/libkvm/settings.hpp\<close>) and the functions that fill it from a JSON
  document (\<^verbatim>\<open>lib/libkvm/tenant.cpp\<close>). The JSON library is a parameter: a record of the accessors
  and conversions the code calls, each of which may throw. A setting is a statement on the group
  structure, so what was assigned before an exception is visible afterwards.
\<close>

section \<open>The JSON library\<close>

text \<open>Single precision floats are only stored and compared by the configuration: bit patterns.\<close>

type_synonym float32 = "32 word"

text \<open>
  \<open>j_contains\<close> and \<open>j_at\<close> are \<open>contains(key)\<close> and \<open>operator[](key)\<close>, \<open>j_elems\<close> the range-for over a
  value, \<open>j_items\<close> the range-for over \<open>items()\<close>, \<open>j_iter\<close> the iterators from \<open>begin()\<close> to \<open>end()\<close> with
  what \<open>key()\<close> returns or throws there, and the \<open>j_get\<close> functions the conversions \<open>get<T>()\<close>.
\<close>

record 'j json_ops =
  j_is_array :: "'j \<Rightarrow> bool"
  j_is_object :: "'j \<Rightarrow> bool"
  j_is_string :: "'j \<Rightarrow> bool"
  j_is_boolean :: "'j \<Rightarrow> bool"
  j_size :: "'j \<Rightarrow> nat"
  j_contains :: "'j \<Rightarrow> string \<Rightarrow> bool"
  j_at :: "'j \<Rightarrow> string \<Rightarrow> 'j"
  j_nth :: "'j \<Rightarrow> nat \<Rightarrow> 'j"
  j_elems :: "'j \<Rightarrow> 'j list"
  j_items :: "'j \<Rightarrow> (string \<times> 'j) list"
  j_iter :: "'j \<Rightarrow> (string res \<times> 'j) list"
  j_get_bool :: "'j \<Rightarrow> bool res"
  j_get_u16 :: "'j \<Rightarrow> u16 res"
  j_get_u32 :: "'j \<Rightarrow> u32 res"
  j_get_u64 :: "'j \<Rightarrow> u64 res"
  j_get_float :: "'j \<Rightarrow> float32 res"
  j_get_string :: "'j \<Rightarrow> string res"
  j_get_strings :: "'j \<Rightarrow> string list res"

text \<open>What \<open>getenv("HOME")\<close> and \<open>getcwd\<close> return.\<close>

record sysenv =
  se_home :: "string option"
  se_cwd :: "string option"

section \<open>Settings\<close>

text \<open>\<open>TenantGroup::Warmup\<close>; the header set in insertion order.\<close>

record warmup =
  w_num_requests :: u16
  w_exact :: bool
  w_url :: string
  w_method :: string
  w_headers :: "string list"

text \<open>\<open>tinykvm::VirtualRemapping\<close> as the configuration builds it.\<close>

record remapping =
  r_phys :: u64
  r_virt :: u64
  r_size :: u64
  r_writable :: bool
  r_executable :: bool
  r_blackout :: bool

text \<open>\<open>TenantGroup::VirtualPath\<close>.\<close>

record virtual_path =
  vp_real :: string
  vp_virtual :: string
  vp_writable :: bool
  vp_symlink :: bool
  vp_usable_in_fork :: bool
  vp_prefix :: bool

text \<open>\<open>TenantGroup::DownloadItem\<close>.\<close>

record download_item =
  d_uri :: string
  d_filepath :: string
  d_sha256 :: string
  d_md5 :: string

text \<open>\<open>TenantGroup\<close>.\<close>

record tenant_group =
  g_name :: string
  g_max_boot_time :: float32
  g_max_req_time :: float32
  g_max_storage_time :: float32
  g_max_queue_time :: u32
  g_max_address_space :: u64
  g_max_main_memory :: u64
  g_max_req_mem :: u32
  g_limit_req_mem :: u32
  g_shared_memory :: u32
  g_hugepage_arena_size :: u64
  g_hugepage_requests_arena :: u64
  g_max_concurrency :: u64
  g_max_smp :: u64
  g_max_regex :: u64
  g_has_storage :: bool
  g_hugepages :: bool
  g_split_hugepages :: bool
  g_transparent_hugepages :: bool
  g_allow_debug :: bool
  g_remote_debug_on_exception :: bool
  g_mmap_backed_files :: bool
  g_relocate_fixed_mmap :: bool
  g_control_ephemeral :: bool
  g_ephemeral :: bool
  g_ephemeral_keep_working_memory :: bool
  g_print_stdout :: bool
  g_verbose :: bool
  g_verbose_syscalls :: bool
  g_verbose_pagetable :: bool
  g_cold_start_snapshot_file :: string
  g_warmup :: "warmup option"
  g_server_port :: u16
  g_epoll_systems :: u16
  g_server_address :: string
  g_ws_server_port :: u16
  g_websocket_systems :: u16
  g_ws_server_address :: string
  g_environ :: "string list"
  g_main_arguments :: "string list option"
  g_vmem_remappings :: "remapping list"
  g_vmem_heap_executable :: bool
  g_allowed_paths :: "virtual_path list"
  g_current_working_directory :: string
  g_downloads :: "download_item list"

text \<open>The constants of \<^verbatim>\<open>settings.hpp\<close> the constructor uses.\<close>

definition STARTUP_TIMEOUT :: float32 where "STARTUP_TIMEOUT = 0x41800000"
definition REQUEST_VM_TIMEOUT :: float32 where "REQUEST_VM_TIMEOUT = 0x41000000"
definition STORAGE_TIMEOUT :: float32 where "STORAGE_TIMEOUT = 0x41200000"
definition DEBUG_TIMEOUT :: float32 where "DEBUG_TIMEOUT = 0x42F00000"
definition RESV_QUEUE_TIMEOUT :: u32 where "RESV_QUEUE_TIMEOUT = 60"
definition MAIN_MEMORY_SIZE :: u64 where "MAIN_MEMORY_SIZE = 256"
definition REQUEST_MEMORY_SIZE :: u64 where "REQUEST_MEMORY_SIZE = 64"
definition SHARED_MEMORY_SIZE :: u32 where "SHARED_MEMORY_SIZE = 0"
definition MB :: u64 where "MB = 1048576"

text \<open>\<open>TenantGroup(std::string)\<close> with the default member initializers.\<close>

definition tenant_group_new :: "string \<Rightarrow> tenant_group" where
  "tenant_group_new n =
     \<lparr>g_name = n,
      g_max_boot_time = STARTUP_TIMEOUT, g_max_req_time = REQUEST_VM_TIMEOUT,
      g_max_storage_time = STORAGE_TIMEOUT, g_max_queue_time = RESV_QUEUE_TIMEOUT,
      g_max_address_space = MAIN_MEMORY_SIZE * MB, g_max_main_memory = MAIN_MEMORY_SIZE * MB,
      g_max_req_mem = ucast (REQUEST_MEMORY_SIZE * MB), g_limit_req_mem = - 1,
      g_shared_memory = SHARED_MEMORY_SIZE,
      g_hugepage_arena_size = 0, g_hugepage_requests_arena = 0,
      g_max_concurrency = 2, g_max_smp = 0, g_max_regex = 64,
      g_has_storage = False, g_hugepages = False, g_split_hugepages = True,
      g_transparent_hugepages = False, g_allow_debug = False, g_remote_debug_on_exception = False,
      g_mmap_backed_files = True, g_relocate_fixed_mmap = True, g_control_ephemeral = False,
      g_ephemeral = True, g_ephemeral_keep_working_memory = True,
      g_print_stdout = False, g_verbose = False, g_verbose_syscalls = False, g_verbose_pagetable = False,
      g_cold_start_snapshot_file = [], g_warmup = None,
      g_server_port = 0, g_epoll_systems = 0, g_server_address = [],
      g_ws_server_port = 0, g_websocket_systems = 0, g_ws_server_address = [],
      g_environ = [''LC_TYPE=C'', ''LC_ALL=C'', ''USER=root''],
      g_main_arguments = None, g_vmem_remappings = [], g_vmem_heap_executable = False,
      g_allowed_paths = [], g_current_working_directory = ''/'', g_downloads = []\<rparr>"

definition warmup_new :: warmup where
  "warmup_new = \<lparr>w_num_requests = 0, w_exact = False, w_url = ''/'', w_method = ''GET'',
     w_headers = [''User-Agent: tinykvm'']\<rparr>"

text \<open>The setters that scale megabytes; the 32 bit members keep the low 32 bits of the product.\<close>

definition set_max_address :: "u64 \<Rightarrow> tenant_group \<Rightarrow> tenant_group" where
  "set_max_address mb g = g\<lparr>g_max_address_space := mb * MB\<rparr>"

definition set_max_memory :: "u64 \<Rightarrow> tenant_group \<Rightarrow> tenant_group" where
  "set_max_memory mb g =
     (let g1 = g\<lparr>g_max_main_memory := mb * MB\<rparr>
      in g1\<lparr>g_max_address_space := max (g_max_address_space g1) (g_max_main_memory g1)\<rparr>)"

definition set_max_workmem :: "u64 \<Rightarrow> tenant_group \<Rightarrow> tenant_group" where
  "set_max_workmem mb g = g\<lparr>g_max_req_mem := ucast (mb * MB)\<rparr>"

definition set_limit_workmem_after_req :: "u64 \<Rightarrow> tenant_group \<Rightarrow> tenant_group" where
  "set_limit_workmem_after_req mb g = g\<lparr>g_limit_req_mem := ucast (mb * MB)\<rparr>"

definition set_shared_mem :: "u64 \<Rightarrow> tenant_group \<Rightarrow> tenant_group" where
  "set_shared_mem mb g = g\<lparr>g_shared_memory := ucast (mb * MB)\<rparr>"

definition has_epoll_system :: "tenant_group \<Rightarrow> bool" where
  "has_epoll_system g \<longleftrightarrow> (g_server_port g \<noteq> 0 \<or> g_server_address g \<noteq> []) \<and> g_epoll_systems g > 0"

definition has_websocket_system :: "tenant_group \<Rightarrow> bool" where
  "has_websocket_system g \<longleftrightarrow>
     (g_ws_server_port g \<noteq> 0 \<or> g_ws_server_address g \<noteq> []) \<and> g_websocket_systems g > 0"

section \<open>String helpers\<close>

text \<open>\<open>std::string::find\<close>: the position of the first occurrence.\<close>

fun find_sub :: "string \<Rightarrow> string \<Rightarrow> nat option" where
  "find_sub pat [] = (if pat = [] then Some 0 else None)"
| "find_sub pat (c # cs) =
     (if take (length pat) (c # cs) = pat then Some 0 else map_option Suc (find_sub pat cs))"

definition replace_at :: "nat \<Rightarrow> nat \<Rightarrow> string \<Rightarrow> string \<Rightarrow> string" where
  "replace_at i n r s = take i s @ r @ drop (i + n) s"

definition apply_dollar_vars :: "sysenv \<Rightarrow> string \<Rightarrow> string" where
  "apply_dollar_vars env s =
     (let s1 = (case find_sub ''$HOME'' s of
                  Some i \<Rightarrow> (case se_home env of Some home \<Rightarrow> replace_at i 5 home s | None \<Rightarrow> s)
                | None \<Rightarrow> s)
      in case find_sub ''$PWD'' s1 of
           Some i \<Rightarrow> (case se_cwd env of Some cwd \<Rightarrow> replace_at i 4 cwd s1 | None \<Rightarrow> s1)
         | None \<Rightarrow> s1)"

text \<open>\<open>strtoull(s, &end, 16)\<close>: the value and whether \<open>errno\<close> was set.\<close>

definition hex_value :: "char \<Rightarrow> nat option" where
  "hex_value c =
     (let n = of_char c :: nat in
      if 48 \<le> n \<and> n \<le> 57 then Some (n - 48)
      else if 97 \<le> n \<and> n \<le> 102 then Some (n - 87)
      else if 65 \<le> n \<and> n \<le> 70 then Some (n - 55)
      else None)"

definition is_space :: "char \<Rightarrow> bool" where
  "is_space c \<longleftrightarrow> (let n = of_char c :: nat in n = 32 \<or> (9 \<le> n \<and> n \<le> 13))"

definition strip_sign :: "string \<Rightarrow> bool \<times> string" where
  "strip_sign s = (case s of [] \<Rightarrow> (False, []) | c # cs \<Rightarrow>
     if c = CHR ''-'' then (True, cs) else if c = CHR ''+'' then (False, cs) else (False, c # cs))"

definition strip_0x :: "string \<Rightarrow> string" where
  "strip_0x s =
     (if (take 2 s = ''0x'' \<or> take 2 s = ''0X'') \<and> drop 2 s \<noteq> [] \<and> hex_value (hd (drop 2 s)) \<noteq> None
      then drop 2 s else s)"

definition hex_prefix_value :: "string \<Rightarrow> nat" where
  "hex_prefix_value s =
     foldl (\<lambda>a c. 16 * a + the (hex_value c)) 0 (takeWhile (\<lambda>c. hex_value c \<noteq> None) s)"

definition strtoull16 :: "string \<Rightarrow> u64 \<times> bool" where
  "strtoull16 s =
     (let cs = takeWhile (\<lambda>c. of_char c \<noteq> (0::nat)) s;
          (neg, r) = strip_sign (dropWhile is_space cs);
          v = hex_prefix_value (strip_0x r)
      in if v \<ge> 2 ^ 64 then (- 1, True)
         else (if neg then - word_of_nat v else word_of_nat v, False))"

section \<open>Remappings\<close>

definition remapping_size :: "'j json_ops \<Rightarrow> u64 \<Rightarrow> 'j \<Rightarrow> u64 res" where
  "remapping_size J address v =
     (if j_is_string J v then
        bind_res (j_get_string J v) (\<lambda>s.
          let (sz, err) = strtoull16 s in
          if sz < address then Inl (RuntimeError ''Remapping size was not a number, or is smaller than address'')
          else if err then Inl (RuntimeError ''Remapping does not fit in 64-bit address'')
          else Inr (drop_bit 20 (sz - address)))
      else j_get_u64 J v)"

definition add_remapping :: "'j json_ops \<Rightarrow> string \<Rightarrow> 'j \<Rightarrow> tenant_group stmt" where
  "add_remapping J key v =
     (if \<not> j_is_array J v \<or> j_size J v \<noteq> 2
      then stmt_throw (RuntimeError ''Remapping must be an array of two elements'')
      else stmt_with (j_get_string J (j_nth J v 0)) (\<lambda>s0.
        let (address, err) = strtoull16 s0 in
        if address < 0x20000
        then stmt_throw (RuntimeError ''Remapping address was not a number, or invalid'')
        else if err then stmt_throw (RuntimeError ''Remapping does not fit in 64-bit address'')
        else stmt_with (remapping_size J address (j_nth J v 1)) (\<lambda>size.
          stmt_upd (\<lambda>g. g\<lparr>g_vmem_remappings := g_vmem_remappings g @
            [\<lparr>r_phys = 0, r_virt = address, r_size = push_bit 20 size, r_writable = True,
              r_executable = (key = ''executable_remapping''),
              r_blackout = (key = ''blackout_area'')\<rparr>]\<rparr>))))"

section \<open>One setting\<close>

text \<open>\<open>group.field = obj.value();\<close>\<close>

definition cfg_set :: "'x res \<Rightarrow> ('x \<Rightarrow> tenant_group \<Rightarrow> tenant_group) \<Rightarrow> tenant_group stmt" where
  "cfg_set r f = stmt_with r (\<lambda>x. stmt_upd (f x))"

definition cfg_concurrency :: "'j json_ops \<Rightarrow> 'j \<Rightarrow> tenant_group stmt" where
  "cfg_concurrency J v =
     stmt_seq (cfg_set (j_get_u64 J v) (\<lambda>x g. g\<lparr>g_max_concurrency := x\<rparr>))
       (stmt_throw_if (\<lambda>g. g_max_concurrency g > 255)
          (RuntimeError ''VM concurrency cannot be larger than 255''))"

definition cfg_hugepage_arena :: "'j json_ops \<Rightarrow> 'j \<Rightarrow> tenant_group stmt" where
  "cfg_hugepage_arena J v =
     stmt_seq (cfg_set (j_get_u32 J v) (\<lambda>x g. g\<lparr>g_hugepage_arena_size := ucast x * MB\<rparr>))
     (stmt_seq (stmt_throw_if (\<lambda>g. g_hugepage_arena_size g < 0x200000 \<and> g_hugepage_arena_size g \<noteq> 0)
          (RuntimeError ''Hugepage arena size must be at least 2MB''))
     (stmt_seq (stmt_throw_if (\<lambda>g. g_hugepage_arena_size g > 512 * 1024 * 1024 * 1024)
          (RuntimeError ''Hugepage arena size must be less than 512GB''))
     (stmt_seq (stmt_throw_if (\<lambda>g. g_hugepage_arena_size g mod 0x200000 \<noteq> 0)
          (RuntimeError ''Hugepage arena size must be a multiple of 2MB''))
       (stmt_upd (\<lambda>g. g\<lparr>g_hugepages := (g_hugepage_arena_size g \<noteq> 0)\<rparr>)))))"

definition cfg_request_hugepages :: "'j json_ops \<Rightarrow> 'j \<Rightarrow> tenant_group stmt" where
  "cfg_request_hugepages J v =
     stmt_seq (cfg_set (j_get_u32 J v) (\<lambda>x g. g\<lparr>g_hugepage_requests_arena := ucast x * MB\<rparr>))
     (stmt_seq (stmt_throw_if (\<lambda>g. g_hugepage_requests_arena g < 0x200000 \<and> g_hugepage_requests_arena g \<noteq> 0)
          (RuntimeError ''Hugepage requests arena size must be at least 2MB''))
     (stmt_seq (stmt_throw_if (\<lambda>g. g_hugepage_requests_arena g > 512 * 1024 * 1024 * 1024)
          (RuntimeError ''Hugepage requests arena size must be less than 512GB''))
       (stmt_throw_if (\<lambda>g. g_hugepage_requests_arena g mod 0x200000 \<noteq> 0)
          (RuntimeError ''Hugepage requests arena size must be a multiple of 2MB''))))"

definition cfg_smp :: "'j json_ops \<Rightarrow> 'j \<Rightarrow> tenant_group stmt" where
  "cfg_smp J v =
     stmt_seq (cfg_set (j_get_u64 J v) (\<lambda>x g. g\<lparr>g_max_smp := x\<rparr>))
       (stmt_upd (\<lambda>g. g\<lparr>g_max_smp := min 16 (g_max_smp g)\<rparr>))"

text \<open>\<open>group.ephemeral || obj.value()\<close> does not convert the value when the left operand is true.\<close>

definition cfg_keep_working_memory :: "'j json_ops \<Rightarrow> 'j \<Rightarrow> tenant_group stmt" where
  "cfg_keep_working_memory J v =
     stmt_seq (\<lambda>g. if g_ephemeral g then stmt_skip g
                   else cfg_set (j_get_bool J v) (\<lambda>b g. g\<lparr>g_ephemeral := b\<rparr>) g)
       (cfg_set (j_get_bool J v) (\<lambda>b g. g\<lparr>g_ephemeral_keep_working_memory := b\<rparr>))"

definition cfg_main_arguments :: "'j json_ops \<Rightarrow> sysenv \<Rightarrow> 'j \<Rightarrow> tenant_group stmt" where
  "cfg_main_arguments J env v =
     stmt_seq (stmt_upd (\<lambda>g. g\<lparr>g_main_arguments := Some []\<rparr>))
       (stmt_for (j_elems J v) (\<lambda>arg.
          cfg_set (j_get_string J arg) (\<lambda>a g.
            g\<lparr>g_main_arguments := map_option (\<lambda>vec. vec @ [apply_dollar_vars env a]) (g_main_arguments g)\<rparr>)))"

definition cfg_environment :: "'j json_ops \<Rightarrow> sysenv \<Rightarrow> 'j \<Rightarrow> tenant_group stmt" where
  "cfg_environment J env v =
     cfg_set (j_get_strings J v) (\<lambda>vec g. g\<lparr>g_environ := g_environ g @ map (apply_dollar_vars env) vec\<rparr>)"

definition cfg_remapping :: "'j json_ops \<Rightarrow> string \<Rightarrow> 'j \<Rightarrow> tenant_group stmt" where
  "cfg_remapping J key v =
     (if j_is_array J v \<and> j_size J v = 2 then add_remapping J key v
      else if j_is_object J v then stmt_for (j_items J v) (\<lambda>(_, it). add_remapping J key it)
      else stmt_throw (RuntimeError ''Remapping must be an array of two elements or an object''))"

text \<open>One element of \<open>allowed_paths\<close>.\<close>

definition opt_bool :: "'j json_ops \<Rightarrow> 'j \<Rightarrow> string \<Rightarrow> bool \<Rightarrow> bool res" where
  "opt_bool J it key d = (if j_contains J it key then j_get_bool J (j_at J it key) else Inr d)"

definition opt_string :: "'j json_ops \<Rightarrow> 'j \<Rightarrow> string \<Rightarrow> string \<Rightarrow> string res" where
  "opt_string J it key d = (if j_contains J it key then j_get_string J (j_at J it key) else Inr d)"

definition path_flags :: "'j json_ops \<Rightarrow> 'j \<Rightarrow> virtual_path \<Rightarrow> virtual_path res" where
  "path_flags J it p =
     (if j_contains J it ''writable'' then
        bind_res (j_get_bool J (j_at J it ''writable'')) (\<lambda>b. Inr (p\<lparr>vp_writable := b\<rparr>))
      else if j_contains J it ''symlink'' then
        (if vp_virtual p = [] then Inl (RuntimeError ''Symlink must have a virtual path'')
         else if vp_real p = [] then Inl (RuntimeError ''Symlink must have a real path'')
         else if vp_real p = vp_virtual p
         then Inl (RuntimeError ''Symlink must have different real and virtual paths'')
         else bind_res (j_get_bool J (j_at J it ''symlink'')) (\<lambda>b. Inr (p\<lparr>vp_symlink := b\<rparr>)))
      else Inr p)"

definition parse_allowed_path :: "'j json_ops \<Rightarrow> sysenv \<Rightarrow> 'j \<Rightarrow> virtual_path res" where
  "parse_allowed_path J env it =
     (if j_is_string J it then
        bind_res (j_get_string J it) (\<lambda>s.
          let r = apply_dollar_vars env s in
          Inr \<lparr>vp_real = r, vp_virtual = r, vp_writable = False, vp_symlink = False,
               vp_usable_in_fork = False, vp_prefix = False\<rparr>)
      else if j_is_object J it then
        (if \<not> j_contains J it ''real'' then Inl (RuntimeError ''Allowed paths must have a real path'')
         else bind_res (j_get_string J (j_at J it ''real'')) (\<lambda>s.
           let r = apply_dollar_vars env s in
           if r = [] then Inl (RuntimeError ''Allowed paths must have a non-empty real path'')
           else bind_res (opt_string J it ''virtual'' []) (\<lambda>v.
             bind_res (opt_bool J it ''prefix'' False) (\<lambda>pre.
               path_flags J it
                 \<lparr>vp_real = r, vp_virtual = (if v = [] then r else v), vp_writable = False,
                  vp_symlink = False, vp_usable_in_fork = False, vp_prefix = pre\<rparr>))))
      else Inl (RuntimeError ''Allowed paths must be an array of strings/objects''))"

definition cfg_allowed_paths :: "'j json_ops \<Rightarrow> sysenv \<Rightarrow> 'j \<Rightarrow> tenant_group stmt" where
  "cfg_allowed_paths J env v =
     (if \<not> j_is_array J v
      then stmt_throw (RuntimeError ''Allowed paths must be an array of strings/objects'')
      else stmt_for (j_elems J v) (\<lambda>it.
        cfg_set (parse_allowed_path J env it) (\<lambda>p g. g\<lparr>g_allowed_paths := g_allowed_paths g @ [p]\<rparr>)))"

definition parse_download :: "'j json_ops \<Rightarrow> 'j \<Rightarrow> download_item res" where
  "parse_download J it =
     bind_res (opt_string J it ''uri'' []) (\<lambda>uri.
     bind_res (opt_string J it ''filepath'' []) (\<lambda>filepath.
     bind_res (opt_string J it ''sha256'' []) (\<lambda>sha256.
     bind_res (opt_string J it ''md5'' []) (\<lambda>md5.
       Inr \<lparr>d_uri = uri, d_filepath = filepath, d_sha256 = sha256, d_md5 = md5\<rparr>))))"

definition cfg_download :: "'j json_ops \<Rightarrow> 'j \<Rightarrow> tenant_group stmt" where
  "cfg_download J v =
     (if \<not> j_is_array J v then stmt_throw (RuntimeError ''Download must be an array'')
      else stmt_for (j_elems J v) (\<lambda>it.
        if \<not> j_is_object J it then stmt_throw (RuntimeError ''Download items must be objects'')
        else cfg_set (parse_download J it) (\<lambda>d g. g\<lparr>g_downloads := g_downloads g @ [d]\<rparr>)))"

definition cfg_server :: "'j json_ops \<Rightarrow> 'j \<Rightarrow> tenant_group stmt" where
  "cfg_server J v =
     (if j_is_object J v then
        stmt_seq
          (if j_contains J v ''port'' then
             cfg_set (j_get_u16 J (j_at J v ''port'')) (\<lambda>x g. g\<lparr>g_server_port := x\<rparr>)
           else if j_contains J v ''path'' then
             stmt_seq (stmt_upd (\<lambda>g. g\<lparr>g_server_port := 0\<rparr>))
               (cfg_set (j_get_string J (j_at J v ''path'')) (\<lambda>x g. g\<lparr>g_server_address := x\<rparr>))
           else stmt_throw (RuntimeError ''Server must have a port or path''))
        (stmt_seq
          (stmt_when (j_contains J v ''address'')
             (cfg_set (j_get_string J (j_at J v ''address'')) (\<lambda>x g. g\<lparr>g_server_address := x\<rparr>)))
          (if j_contains J v ''systems''
           then cfg_set (j_get_u16 J (j_at J v ''systems'')) (\<lambda>x g. g\<lparr>g_epoll_systems := x\<rparr>)
           else stmt_upd (\<lambda>g. g\<lparr>g_epoll_systems := 1\<rparr>)))
      else stmt_throw (RuntimeError ''Server must be an object with at least a port''))"

definition cfg_websocket_server :: "'j json_ops \<Rightarrow> 'j \<Rightarrow> tenant_group stmt" where
  "cfg_websocket_server J v =
     (if j_is_object J v then
        stmt_seq
          (if j_contains J v ''port'' then
             cfg_set (j_get_u16 J (j_at J v ''port'')) (\<lambda>x g. g\<lparr>g_ws_server_port := x\<rparr>)
           else stmt_throw (RuntimeError ''Websocket server must have a TCP port''))
        (stmt_seq
          (stmt_when (j_contains J v ''address'')
             (cfg_set (j_get_string J (j_at J v ''address'')) (\<lambda>x g. g\<lparr>g_ws_server_address := x\<rparr>)))
          (if j_contains J v ''systems''
           then cfg_set (j_get_u16 J (j_at J v ''systems'')) (\<lambda>x g. g\<lparr>g_websocket_systems := x\<rparr>)
           else stmt_upd (\<lambda>g. g\<lparr>g_websocket_systems := 1\<rparr>)))
      else stmt_throw (RuntimeError ''WebSocket server must be an object with at least a port''))"

definition upd_warmup :: "(warmup \<Rightarrow> warmup) \<Rightarrow> tenant_group \<Rightarrow> tenant_group" where
  "upd_warmup f g = g\<lparr>g_warmup := map_option f (g_warmup g)\<rparr>"

definition cfg_warmup :: "'j json_ops \<Rightarrow> 'j \<Rightarrow> tenant_group stmt" where
  "cfg_warmup J v =
     (if j_is_object J v then
        stmt_seq (stmt_upd (\<lambda>g. g\<lparr>g_warmup := Some warmup_new\<rparr>))
        (stmt_seq
          (if j_contains J v ''num_requests''
           then cfg_set (j_get_u16 J (j_at J v ''num_requests'')) (\<lambda>x. upd_warmup (\<lambda>w. w\<lparr>w_num_requests := x\<rparr>))
           else stmt_upd (upd_warmup (\<lambda>w. w\<lparr>w_num_requests := 20\<rparr>)))
        (stmt_seq
          (stmt_when (j_contains J v ''exact'')
             (cfg_set (j_get_bool J (j_at J v ''exact'')) (\<lambda>x. upd_warmup (\<lambda>w. w\<lparr>w_exact := x\<rparr>))))
        (stmt_seq
          (stmt_when (j_contains J v ''url'')
             (cfg_set (j_get_string J (j_at J v ''url'')) (\<lambda>x. upd_warmup (\<lambda>w. w\<lparr>w_url := x\<rparr>))))
        (stmt_seq
          (stmt_when (j_contains J v ''method'')
             (cfg_set (j_get_string J (j_at J v ''method'')) (\<lambda>x. upd_warmup (\<lambda>w. w\<lparr>w_method := x\<rparr>))))
          (stmt_when (j_contains J v ''headers'')
             (stmt_for (j_elems J (j_at J v ''headers'')) (\<lambda>header.
                cfg_set (j_get_string J header) (\<lambda>h. upd_warmup (\<lambda>w. w\<lparr>w_headers := List.insert h (w_headers w)\<rparr>)))))))))
      else stmt_throw (RuntimeError ''Warmup must be an object''))"

text \<open>
  \<open>configure_group\<close>: the dispatch on the key. The keys of the program itself (\<open>group\<close>, \<open>key\<close>, \<open>uri\<close>,
  \<open>filename\<close>, \<open>sha256\<close>, \<open>md5\<close>, \<open>start\<close>) are ignored, and an unknown key is only logged.
\<close>

definition configure_key :: "'j json_ops \<Rightarrow> sysenv \<Rightarrow> string \<Rightarrow> 'j \<Rightarrow> tenant_group stmt" where
  "configure_key J env key v =
     (if key = ''max_boot_time'' then cfg_set (j_get_float J v) (\<lambda>x g. g\<lparr>g_max_boot_time := x\<rparr>)
      else if key = ''max_request_time'' then cfg_set (j_get_float J v) (\<lambda>x g. g\<lparr>g_max_req_time := x\<rparr>)
      else if key = ''max_storage_time'' then cfg_set (j_get_float J v) (\<lambda>x g. g\<lparr>g_max_req_time := x\<rparr>)
      else if key = ''max_memory'' then cfg_set (j_get_u64 J v) set_max_memory
      else if key = ''address_space'' then cfg_set (j_get_u64 J v) set_max_address
      else if key = ''max_request_memory'' then cfg_set (j_get_u64 J v) set_max_workmem
      else if key = ''req_mem_limit_after_reset'' \<or> key = ''limit_workmem_after_req''
      then cfg_set (j_get_u64 J v) set_limit_workmem_after_req
      else if key = ''shared_memory'' then cfg_set (j_get_u64 J v) set_shared_mem
      else if key = ''cold_start_file''
      then cfg_set (j_get_string J v) (\<lambda>x g. g\<lparr>g_cold_start_snapshot_file := apply_dollar_vars env x\<rparr>)
      else if key = ''concurrency'' then cfg_concurrency J v
      else if key = ''storage'' then cfg_set (j_get_bool J v) (\<lambda>b g. g\<lparr>g_has_storage := b\<rparr>)
      else if key = ''hugepages'' then cfg_set (j_get_bool J v) (\<lambda>b g. g\<lparr>g_hugepages := b\<rparr>)
      else if key = ''hugepage_arena_size'' then cfg_hugepage_arena J v
      else if key = ''request_hugepages'' \<or> key = ''request_hugepage_arena_size'' then cfg_request_hugepages J v
      else if key = ''split_hugepages'' then cfg_set (j_get_bool J v) (\<lambda>b g. g\<lparr>g_split_hugepages := b\<rparr>)
      else if key = ''transparent_hugepages'' then cfg_set (j_get_bool J v) (\<lambda>b g. g\<lparr>g_transparent_hugepages := b\<rparr>)
      else if key = ''stdout'' then cfg_set (j_get_bool J v) (\<lambda>b g. g\<lparr>g_print_stdout := b\<rparr>)
      else if key = ''smp'' then cfg_smp J v
      else if key = ''allow_debug'' then cfg_set (j_get_bool J v) (\<lambda>b g. g\<lparr>g_allow_debug := b\<rparr>)
      else if key = ''remote_debug_on_exception'' then cfg_set (j_get_bool J v) (\<lambda>b g. g\<lparr>g_remote_debug_on_exception := b\<rparr>)
      else if key = ''control_ephemeral'' then cfg_set (j_get_bool J v) (\<lambda>b g. g\<lparr>g_control_ephemeral := b\<rparr>)
      else if key = ''ephemeral'' then cfg_set (j_get_bool J v) (\<lambda>b g. g\<lparr>g_ephemeral := b\<rparr>)
      else if key = ''ephemeral_keep_working_memory'' then cfg_keep_working_memory J v
      else if key = ''mmap_backed_files'' then cfg_set (j_get_bool J v) (\<lambda>b g. g\<lparr>g_mmap_backed_files := b\<rparr>)
      else if key = ''relocate_fixed_mmap'' then cfg_set (j_get_bool J v) (\<lambda>b g. g\<lparr>g_relocate_fixed_mmap := b\<rparr>)
      else if key = ''main_arguments'' then cfg_main_arguments J env v
      else if key = ''environment'' then cfg_environment J env v
      else if key = ''remapping'' \<or> key = ''executable_remapping'' \<or> key = ''blackout_area''
      then cfg_remapping J key v
      else if key = ''executable_heap'' then cfg_set (j_get_bool J v) (\<lambda>b g. g\<lparr>g_vmem_heap_executable := b\<rparr>)
      else if key = ''allowed_paths'' then cfg_allowed_paths J env v
      else if key = ''current_working_directory''
      then cfg_set (j_get_string J v) (\<lambda>x g. g\<lparr>g_current_working_directory := apply_dollar_vars env x\<rparr>)
      else if key = ''download'' then cfg_download J v
      else if key = ''verbose'' then cfg_set (j_get_bool J v) (\<lambda>b g. g\<lparr>g_verbose := b\<rparr>)
      else if key = ''verbose_syscalls'' then cfg_set (j_get_bool J v) (\<lambda>b g. g\<lparr>g_verbose_syscalls := b\<rparr>)
      else if key = ''verbose_pagetables'' then cfg_set (j_get_bool J v) (\<lambda>b g. g\<lparr>g_verbose_pagetable := b\<rparr>)
      else if key = ''server'' then cfg_server J v
      else if key = ''websocket_server'' then cfg_websocket_server J v
      else if key = ''warmup'' then cfg_warmup J v
      else stmt_skip)"

definition configure_group :: "'j json_ops \<Rightarrow> sysenv \<Rightarrow> string res \<times> 'j \<Rightarrow> tenant_group stmt" where
  "configure_group J env it = stmt_with (fst it) (\<lambda>key. configure_key J env key (snd it))"

text \<open>The loop \<open>for (auto it = obj.begin(); it != obj.end(); ++it) configure_group(name, group, it);\<close>.\<close>

definition configure_all :: "'j json_ops \<Rightarrow> sysenv \<Rightarrow> 'j \<Rightarrow> tenant_group stmt" where
  "configure_all J env obj = stmt_for (j_iter J obj) (configure_group J env)"

section \<open>Well-formed settings\<close>

definition path_wf :: "virtual_path \<Rightarrow> bool" where
  "path_wf p \<longleftrightarrow> \<not> (vp_symlink p \<and> vp_writable p) \<and>
     (vp_symlink p \<longrightarrow> vp_real p \<noteq> [] \<and> vp_virtual p \<noteq> [] \<and> vp_real p \<noteq> vp_virtual p) \<and>
     (vp_real p \<noteq> [] \<longrightarrow> vp_virtual p \<noteq> [])"

definition arena_wf :: "u64 \<Rightarrow> bool" where
  "arena_wf a \<longleftrightarrow> a mod 0x200000 = 0 \<and> a \<le> 512 * 1024 * 1024 * 1024"

definition group_wf :: "tenant_group \<Rightarrow> bool" where
  "group_wf g \<longleftrightarrow>
     g_max_concurrency g \<le> 255 \<and> g_max_smp g \<le> 16 \<and>
     arena_wf (g_hugepage_arena_size g) \<and> arena_wf (g_hugepage_requests_arena g) \<and>
     (\<forall>r \<in> set (g_vmem_remappings g). r_virt r \<ge> 0x20000 \<and> r_phys r = 0 \<and> r_size r mod MB = 0 \<and>
        \<not> (r_executable r \<and> r_blackout r)) \<and>
     (\<forall>p \<in> set (g_allowed_paths g). path_wf p)"

lemma group_wf_new [simp]: "group_wf (tenant_group_new n)"
  by (simp add: group_wf_def tenant_group_new_def arena_wf_def)

text \<open>A statement that does not touch the restricted settings keeps them well-formed.\<close>

lemma cfg_set_keeps [keeps_intros]: "(\<And>x s. P s \<Longrightarrow> r = Inr x \<Longrightarrow> P (f x s)) \<Longrightarrow> stmt_keeps P (cfg_set r f)"
  unfolding cfg_set_def by (intro keeps_intros) auto

lemma cfg_set_fixes [fixes_intros]: "(\<And>x s. h (f x s) = h s) \<Longrightarrow> stmt_fixes h (cfg_set r f)"
  unfolding cfg_set_def by (intro fixes_intros) auto

lemma push_bit_MB [simp]: "(push_bit 20 x :: u64) mod MB = 0"
proof -
  have "take_bit 20 (push_bit 20 x) = 0"
    by (rule bit_word_eqI) (auto simp: bit_simps)
  moreover have "MB = 2 ^ 20" by (simp add: MB_def)
  ultimately show ?thesis by (metis take_bit_eq_mod)
qed

lemma cfg_concurrency_wf: "stmt_keeps group_wf (cfg_concurrency J v)"
  by (auto simp: stmt_keeps_def cfg_concurrency_def cfg_set_def stmt_defs group_wf_def split: sum.splits)

lemma cfg_hugepage_arena_wf: "stmt_keeps group_wf (cfg_hugepage_arena J v)"
  by (auto simp: stmt_keeps_def cfg_hugepage_arena_def cfg_set_def stmt_defs group_wf_def arena_wf_def
      split: sum.splits)

lemma cfg_request_hugepages_wf: "stmt_keeps group_wf (cfg_request_hugepages J v)"
  by (auto simp: stmt_keeps_def cfg_request_hugepages_def cfg_set_def stmt_defs group_wf_def arena_wf_def
      split: sum.splits)

lemma cfg_smp_wf: "stmt_keeps group_wf (cfg_smp J v)"
  by (auto simp: stmt_keeps_def cfg_smp_def cfg_set_def stmt_defs group_wf_def split: sum.splits)

lemma add_remapping_wf: "stmt_keeps group_wf (add_remapping J key v)"
  unfolding add_remapping_def
  by (intro keeps_intros; clarsimp split: prod.split intro!: keeps_intros)
    (auto intro!: keeps_intros simp: group_wf_def)

lemma cfg_remapping_wf: "stmt_keeps group_wf (cfg_remapping J key v)"
  unfolding cfg_remapping_def by (intro keeps_intros) (auto intro: add_remapping_wf)

lemma path_flags_wf:
  "\<lbrakk>path_flags J it p = Inr p'; \<not> vp_symlink p; \<not> vp_writable p; vp_virtual p \<noteq> []\<rbrakk> \<Longrightarrow> path_wf p'"
  by (auto simp: path_flags_def path_wf_def split: if_splits)

lemma parse_allowed_path_wf: "parse_allowed_path J env it = Inr p \<Longrightarrow> path_wf p"
  by (auto simp: parse_allowed_path_def Let_def path_wf_def [of "\<lparr>vp_real = _, vp_virtual = _, vp_writable = _,
        vp_symlink = _, vp_usable_in_fork = _, vp_prefix = _\<rparr>"]
      dest!: path_flags_wf split: if_splits)

lemma cfg_allowed_paths_wf: "stmt_keeps group_wf (cfg_allowed_paths J env v)"
  unfolding cfg_allowed_paths_def
  by (intro keeps_intros) (auto simp: group_wf_def dest: parse_allowed_path_wf)

text \<open>Every other setting is outside the invariant.\<close>

lemma group_wf_simps [simp]:
  "group_wf (set_max_memory mb g) = group_wf g" "group_wf (set_max_address mb g) = group_wf g"
  "group_wf (set_max_workmem mb g) = group_wf g" "group_wf (set_limit_workmem_after_req mb g) = group_wf g"
  "group_wf (set_shared_mem mb g) = group_wf g" "group_wf (upd_warmup f g) = group_wf g"
  by (simp_all add: group_wf_def set_max_memory_def set_max_address_def set_max_workmem_def Let_def
      set_limit_workmem_after_req_def set_shared_mem_def upd_warmup_def)

lemma cfg_other_wf:
  "stmt_keeps group_wf (cfg_main_arguments J env v)" "stmt_keeps group_wf (cfg_environment J env v)"
  "stmt_keeps group_wf (cfg_download J v)" "stmt_keeps group_wf (cfg_server J v)"
  "stmt_keeps group_wf (cfg_websocket_server J v)" "stmt_keeps group_wf (cfg_warmup J v)"
  unfolding cfg_main_arguments_def cfg_environment_def cfg_download_def cfg_server_def
    cfg_websocket_server_def cfg_warmup_def
  by (intro conjI keeps_intros; (simp; fail | simp add: group_wf_def))+

lemma cfg_keep_working_memory_wf: "stmt_keeps group_wf (cfg_keep_working_memory J v)"
  by (auto simp: stmt_keeps_def cfg_keep_working_memory_def cfg_set_def stmt_defs group_wf_def split: sum.splits)

lemmas cfg_wf = cfg_concurrency_wf cfg_hugepage_arena_wf cfg_request_hugepages_wf cfg_smp_wf
  cfg_remapping_wf cfg_allowed_paths_wf cfg_other_wf cfg_keep_working_memory_wf

lemma configure_key_wf: "stmt_keeps group_wf (configure_key J env key v)"
  unfolding configure_key_def
  by (intro keeps_intros cfg_wf; (simp; fail | simp add: group_wf_def))

lemma configure_group_wf: "stmt_keeps group_wf (configure_group J env it)"
  unfolding configure_group_def by (intro keeps_intros configure_key_wf)

lemma configure_all_wf: "stmt_keeps group_wf (configure_all J env obj)"
  unfolding configure_all_def by (intro keeps_intros configure_group_wf)

section \<open>Which settings touch the allowed paths\<close>

abbreviation paths_fixed :: "tenant_group stmt \<Rightarrow> bool" where
  "paths_fixed \<equiv> stmt_fixes g_allowed_paths"

lemma set_paths [simp]:
  "g_allowed_paths (set_max_memory mb g) = g_allowed_paths g"
  "g_allowed_paths (set_max_address mb g) = g_allowed_paths g"
  "g_allowed_paths (set_max_workmem mb g) = g_allowed_paths g"
  "g_allowed_paths (set_limit_workmem_after_req mb g) = g_allowed_paths g"
  "g_allowed_paths (set_shared_mem mb g) = g_allowed_paths g"
  "g_allowed_paths (upd_warmup f g) = g_allowed_paths g"
  by (simp_all add: set_max_memory_def set_max_address_def set_max_workmem_def Let_def
      set_limit_workmem_after_req_def set_shared_mem_def upd_warmup_def)

lemma add_remapping_paths: "paths_fixed (add_remapping J key v)"
  unfolding add_remapping_def
  by (intro fixes_intros; clarsimp split: prod.split) (auto intro!: fixes_intros)

lemma cfg_keep_working_memory_paths: "paths_fixed (cfg_keep_working_memory J v)"
  by (auto simp: stmt_fixes_def cfg_keep_working_memory_def cfg_set_def stmt_defs split: sum.splits)

lemma cfg_paths:
  "paths_fixed (cfg_concurrency J v)" "paths_fixed (cfg_hugepage_arena J v)"
  "paths_fixed (cfg_request_hugepages J v)" "paths_fixed (cfg_smp J v)"
  "paths_fixed (cfg_main_arguments J env v)" "paths_fixed (cfg_environment J env v)"
  "paths_fixed (cfg_remapping J key v)" "paths_fixed (cfg_download J v)" "paths_fixed (cfg_server J v)"
  "paths_fixed (cfg_websocket_server J v)" "paths_fixed (cfg_warmup J v)"
  unfolding cfg_concurrency_def cfg_hugepage_arena_def cfg_request_hugepages_def cfg_smp_def
    cfg_main_arguments_def cfg_environment_def cfg_remapping_def cfg_download_def cfg_server_def
    cfg_websocket_server_def cfg_warmup_def
  by (intro fixes_intros; (clarsimp simp: add_remapping_paths split: prod.split)?)+

lemma configure_key_paths: "key \<noteq> ''allowed_paths'' \<Longrightarrow> paths_fixed (configure_key J env key v)"
  unfolding configure_key_def
  by (simp only: if_False, intro fixes_intros cfg_paths cfg_keep_working_memory_paths; simp)

lemma stmt_for_append:
  assumes "\<And>x s. x \<in> set xs \<Longrightarrow> \<exists>ps. f (fst (k x s)) = f s @ ps \<and> (\<forall>p \<in> set ps. Q p)"
  shows "\<exists>ps. f (fst (stmt_for xs k s)) = f s @ ps \<and> (\<forall>p \<in> set ps. Q p)"
  using assms
proof (induction xs arbitrary: s)
  case Nil
  then show ?case by (simp add: stmt_skip_def)
next
  case (Cons x xs)
  obtain s' r where k: "k x s = (s', r)" by (cases "k x s")
  with Cons.prems [of x s] obtain ps where ps: "f s' = f s @ ps" "\<forall>p \<in> set ps. Q p" by auto
  show ?case
  proof (cases r)
    case None
    from Cons obtain ps' where ps': "f (fst (stmt_for xs k s')) = f s' @ ps'" "\<forall>p \<in> set ps'. Q p"
      by (metis list.set_intros(2))
    with None k ps have "f (fst (stmt_for (x # xs) k s)) = f s @ (ps @ ps')"
      by (simp add: stmt_seq_def)
    with ps ps' show ?thesis by (intro exI [of _ "ps @ ps'"]) auto
  next
    case (Some e)
    with k ps show ?thesis by (auto simp: stmt_seq_def)
  qed
qed

lemma cfg_allowed_paths_append:
  "\<exists>ps. g_allowed_paths (fst (cfg_allowed_paths J env v g)) = g_allowed_paths g @ ps \<and> (\<forall>p \<in> set ps. path_wf p)"
proof (cases "j_is_array J v")
  case True
  then show ?thesis
    unfolding cfg_allowed_paths_def
    by (simp, intro stmt_for_append)
      (auto simp: cfg_set_def stmt_defs dest: parse_allowed_path_wf split: sum.splits)
qed (simp add: cfg_allowed_paths_def stmt_throw_def)

lemma configure_key_allowed: "configure_key J env ''allowed_paths'' v = cfg_allowed_paths J env v"
  by (simp add: configure_key_def)

section \<open>Which settings touch the storage time limit\<close>

abbreviation storage_fixed :: "tenant_group stmt \<Rightarrow> bool" where
  "storage_fixed \<equiv> stmt_fixes g_max_storage_time"

lemma set_storage [simp]:
  "g_max_storage_time (set_max_memory mb g) = g_max_storage_time g"
  "g_max_storage_time (set_max_address mb g) = g_max_storage_time g"
  "g_max_storage_time (set_max_workmem mb g) = g_max_storage_time g"
  "g_max_storage_time (set_limit_workmem_after_req mb g) = g_max_storage_time g"
  "g_max_storage_time (set_shared_mem mb g) = g_max_storage_time g"
  "g_max_storage_time (upd_warmup f g) = g_max_storage_time g"
  by (simp_all add: set_max_memory_def set_max_address_def set_max_workmem_def Let_def
      set_limit_workmem_after_req_def set_shared_mem_def upd_warmup_def)

lemma add_remapping_storage: "storage_fixed (add_remapping J key v)"
  unfolding add_remapping_def
  by (intro fixes_intros; clarsimp split: prod.split) (auto intro!: fixes_intros)

lemma cfg_keep_working_memory_storage: "storage_fixed (cfg_keep_working_memory J v)"
  by (auto simp: stmt_fixes_def cfg_keep_working_memory_def cfg_set_def stmt_defs split: sum.splits)

lemma cfg_storage:
  "storage_fixed (cfg_concurrency J v)" "storage_fixed (cfg_hugepage_arena J v)"
  "storage_fixed (cfg_request_hugepages J v)" "storage_fixed (cfg_smp J v)"
  "storage_fixed (cfg_main_arguments J env v)" "storage_fixed (cfg_environment J env v)"
  "storage_fixed (cfg_remapping J key v)" "storage_fixed (cfg_download J v)" "storage_fixed (cfg_server J v)"
  "storage_fixed (cfg_websocket_server J v)" "storage_fixed (cfg_warmup J v)"
  "storage_fixed (cfg_allowed_paths J env v)"
  unfolding cfg_concurrency_def cfg_hugepage_arena_def cfg_request_hugepages_def cfg_smp_def
    cfg_main_arguments_def cfg_environment_def cfg_remapping_def cfg_download_def cfg_server_def
    cfg_websocket_server_def cfg_warmup_def cfg_allowed_paths_def
  by (intro fixes_intros; (clarsimp simp: add_remapping_storage split: prod.split)?)+

lemma configure_key_storage: "storage_fixed (configure_key J env key v)"
  unfolding configure_key_def
  by (intro fixes_intros cfg_storage cfg_keep_working_memory_storage; simp)

section \<open>A concrete JSON instance\<close>

text \<open>The accessors on a plain data type of JSON documents, used to instantiate the parameter.\<close>

datatype json =
    JNull | JBool bool | JNum nat | JFloat float32 | JString string
  | JArray "json list" | JObject "(string \<times> json) list"

fun json_members :: "json \<Rightarrow> (string \<times> json) list" where
  "json_members (JObject ms) = ms"
| "json_members _ = []"

fun json_elems :: "json \<Rightarrow> json list" where
  "json_elems (JArray xs) = xs"
| "json_elems (JObject ms) = map snd ms"
| "json_elems JNull = []"
| "json_elems v = [v]"

definition json_num :: "(nat \<Rightarrow> 'a) \<Rightarrow> json \<Rightarrow> 'a res" where
  "json_num f v = (case v of JNum n \<Rightarrow> Inr (f n) | _ \<Rightarrow> Inl (JsonError ''type must be number''))"

definition json_str :: "json \<Rightarrow> string res" where
  "json_str v = (case v of JString s \<Rightarrow> Inr s | _ \<Rightarrow> Inl (JsonError ''type must be string''))"

fun json_strs :: "json list \<Rightarrow> string list res" where
  "json_strs [] = Inr []"
| "json_strs (v # vs) = bind_res (json_str v) (\<lambda>s. bind_res (json_strs vs) (\<lambda>ss. Inr (s # ss)))"

definition json_std :: "json json_ops" where
  "json_std =
     \<lparr>j_is_array = (\<lambda>v. case v of JArray _ \<Rightarrow> True | _ \<Rightarrow> False),
      j_is_object = (\<lambda>v. case v of JObject _ \<Rightarrow> True | _ \<Rightarrow> False),
      j_is_string = (\<lambda>v. case v of JString _ \<Rightarrow> True | _ \<Rightarrow> False),
      j_is_boolean = (\<lambda>v. case v of JBool _ \<Rightarrow> True | _ \<Rightarrow> False),
      j_size = (\<lambda>v. length (json_elems v)),
      j_contains = (\<lambda>v k. map_of (json_members v) k \<noteq> None),
      j_at = (\<lambda>v k. case map_of (json_members v) k of Some x \<Rightarrow> x | None \<Rightarrow> JNull),
      j_nth = (\<lambda>v n. if n < length (json_elems v) then json_elems v ! n else JNull),
      j_elems = json_elems,
      j_items = json_members,
      j_iter = (\<lambda>v. map (\<lambda>(k, x). (Inr k, x)) (json_members v)),
      j_get_bool = (\<lambda>v. case v of JBool b \<Rightarrow> Inr b | _ \<Rightarrow> Inl (JsonError ''type must be boolean'')),
      j_get_u16 = json_num word_of_nat, j_get_u32 = json_num word_of_nat, j_get_u64 = json_num word_of_nat,
      j_get_float = (\<lambda>v. case v of JFloat f \<Rightarrow> Inr f | _ \<Rightarrow> Inl (JsonError ''type must be number'')),
      j_get_string = json_str,
      j_get_strings = (\<lambda>v. json_strs (json_elems v))\<rparr>"

section \<open>Properties\<close>

text \<open>
  C5. Whatever the JSON document, a configuration that is accepted leaves the settings within
  their limits: at most 255 request VMs and 16 extra processors, huge page arenas that are a
  multiple of 2 MB and at most 512 GB, remappings outside the low 128 KiB that are whole megabytes
  and never both executable and blacked out, and symlinks that point away from themselves and are
  not writable.
\<close>

theorem configure_all_group_wf:
  assumes "group_wf g" and "configure_all J env obj g = (g', None)"
  shows "group_wf g'"
  using stmt_keepsD [OF configure_all_wf assms(2,1)] .

theorem configure_all_group_wf_witness:
  "\<exists>g'. configure_all json_std \<lparr>se_home = None, se_cwd = None\<rparr>
      (JObject [(''allowed_paths'', JArray [JObject [(''real'', JString ''/a''), (''virtual'', JString ''/b''),
           (''symlink'', JBool True)]]), (''concurrency'', JNum 4)])
      (tenant_group_new ''test'') = (g', None) \<and> group_wf g' \<and> g_max_concurrency g' = 4"
proof -
  let ?env = "\<lparr>se_home = None, se_cwd = None\<rparr>"
  let ?obj = "JObject [(''allowed_paths'', JArray [JObject [(''real'', JString ''/a''), (''virtual'', JString ''/b''),
           (''symlink'', JBool True)]]), (''concurrency'', JNum 4)]"
  let ?p = "\<lparr>vp_real = ''/a'', vp_virtual = ''/b'', vp_writable = False, vp_symlink = True,
      vp_usable_in_fork = False, vp_prefix = False\<rparr>"
  let ?g = "(tenant_group_new ''test'')\<lparr>g_allowed_paths := [?p], g_max_concurrency := 4\<rparr>"
  have "parse_allowed_path json_std ?env (JObject [(''real'', JString ''/a''), (''virtual'', JString ''/b''),
      (''symlink'', JBool True)]) = Inr ?p"
    by code_simp
  then have r: "configure_all json_std ?env ?obj (tenant_group_new ''test'') = (?g, None)"
    by (simp add: configure_all_def configure_group_def configure_key_def json_std_def stmt_defs
        cfg_allowed_paths_def cfg_concurrency_def cfg_set_def json_num_def tenant_group_new_def)
  from configure_all_group_wf [OF group_wf_new r] r show ?thesis
    by (intro exI [of _ ?g]) simp
qed

text \<open>
  File access is only ever granted by the key \<open>allowed_paths\<close>: any other key leaves the list of
  allowed paths as it is, even when it throws half way, and that key only appends well-formed paths,
  so a grant made by the group cannot be taken back or altered by the program's own settings.
\<close>

theorem configure_key_allowed_paths:
  "\<exists>ps. g_allowed_paths (fst (configure_key J env key v g)) = g_allowed_paths g @ ps \<and>
     (key \<noteq> ''allowed_paths'' \<longrightarrow> ps = []) \<and> (\<forall>p \<in> set ps. path_wf p)"
proof (cases "key = ''allowed_paths''")
  case True
  then show ?thesis
    using cfg_allowed_paths_append [of J env v g] by (simp add: configure_key_allowed)
next
  case False
  then show ?thesis
    using stmt_fixesD [OF configure_key_paths [OF False], of J env v g] by simp
qed

theorem configure_key_allowed_paths_witness:
  "\<exists>ps. g_allowed_paths (fst (configure_key json_std \<lparr>se_home = None, se_cwd = None\<rparr> ''allowed_paths''
       (JArray [JString ''/etc/ssl'']) (tenant_group_new ''t''))) =
     g_allowed_paths (tenant_group_new ''t'') @ ps \<and> (\<forall>p \<in> set ps. path_wf p)"
  using configure_key_allowed_paths [of json_std "\<lparr>se_home = None, se_cwd = None\<rparr>" "''allowed_paths''"
      "JArray [JString ''/etc/ssl'']" "tenant_group_new ''t''"] by blast

text \<open>
  The request memory is stored in 32 bits: a limit of fewer than 4096 megabytes is kept exactly,
  and larger ones are reduced modulo 4 GiB, so a configured 4096 megabytes becomes a limit of zero.
\<close>

theorem set_max_workmem_wraps:
  "unat (g_max_req_mem (set_max_workmem mb g)) = (unat mb * 2 ^ 20) mod 2 ^ 32 \<and>
   (unat mb < 4096 \<longrightarrow> unat (g_max_req_mem (set_max_workmem mb g)) = unat mb * 1048576) \<and>
   g_max_req_mem (set_max_workmem 4096 g) = 0"
proof -
  have "unat (ucast (mb * MB) :: u32) = unat (mb * MB) mod 2 ^ 32"
    by (simp add: unsigned_ucast_eq take_bit_eq_mod)
  also have "\<dots> = (unat mb * 2 ^ 20) mod 2 ^ 64 mod 2 ^ 32"
    by (simp add: unat_word_ariths(2) MB_def)
  also have "\<dots> = (unat mb * 2 ^ 20) mod 2 ^ 32"
    by (simp add: mod_mod_cancel)
  finally have m: "unat (g_max_req_mem (set_max_workmem mb g)) = (unat mb * 2 ^ 20) mod 2 ^ 32"
    by (simp add: set_max_workmem_def)
  have "g_max_req_mem (set_max_workmem 4096 g) = 0"
    by (simp add: set_max_workmem_def MB_def)
  with m show ?thesis by auto
qed

theorem set_max_workmem_wraps_witness:
  "unat (g_max_req_mem (set_max_workmem 64 (tenant_group_new ''t''))) = 67108864"
  using set_max_workmem_wraps [of 64 "tenant_group_new ''t''"] by simp

text \<open>
  The documented setting \<open>max_storage_time\<close> has no effect on storage calls: it overwrites the
  time limit of requests instead, and no configuration key changes the time limit of storage calls.
\<close>

theorem max_storage_time_sets_request_time:
  assumes "j_get_float J v = Inr t"
  shows "configure_key J env ''max_storage_time'' v g = (g\<lparr>g_max_req_time := t\<rparr>, None) \<and>
    g_max_storage_time (fst (configure_key J env key v' g)) = g_max_storage_time g"
  using assms stmt_fixesD [OF configure_key_storage, of J env key v' g]
  by (simp add: configure_key_def [of J env "''max_storage_time''"] cfg_set_def stmt_defs)

theorem max_storage_time_sets_request_time_witness:
  "g_max_req_time (fst (configure_key json_std \<lparr>se_home = None, se_cwd = None\<rparr> ''max_storage_time''
     (JFloat 0x40A00000) (tenant_group_new ''t''))) = 0x40A00000"
  using max_storage_time_sets_request_time [of json_std "JFloat 0x40A00000" "0x40A00000"
      "\<lparr>se_home = None, se_cwd = None\<rparr>" "tenant_group_new ''t''"]
  by (simp add: json_std_def)

end
