(* ===== verification/Sandbox.thy ===== *)
theory Sandbox
  imports Tenant_Config
begin

text \<open>
  File access of a guest (\<^verbatim>\<open>lib/libkvm/machine_instance.cpp\<close>): the callbacks the machine constructors
  install in the file descriptor subsystem. A callback either rewrites the guest's path to a host
  path and allows the open, or denies it. The main program \<open>tenant_conf\<close> is \<open>TenantConfig\<close>
  (\<^verbatim>\<open>lib/libkvm/tenant.hpp\<close>).
\<close>

section \<open>Program configuration\<close>

text \<open>\<open>TenantConfig\<close>; \<open>group\<close> is mutable and changes after construction.\<close>

record tenant_conf =
  t_name :: string
  t_hash :: u32
  t_group :: tenant_group
  t_filename :: string
  t_key :: string
  t_uri :: string
  t_sha256 :: string
  t_md5 :: string
  t_allowed_file :: string

definition request_program_filename :: "tenant_conf \<Rightarrow> string" where
  "request_program_filename t = t_filename t"

definition storage_program_filename :: "tenant_conf \<Rightarrow> string" where
  "storage_program_filename t = t_filename t @ ''_storage''"

definition conf_max_req_time :: "tenant_conf \<Rightarrow> bool \<Rightarrow> float32" where
  "conf_max_req_time t debug = (if debug then DEBUG_TIMEOUT else g_max_req_time (t_group t))"

text \<open>\<open>path.find(prefix) == 0\<close>.\<close>

definition starts_with :: "string \<Rightarrow> string \<Rightarrow> bool" where
  "starts_with pre s \<longleftrightarrow> take (length pre) s = pre"

section \<open>The callbacks\<close>

text \<open>The body of the loop over the allowed paths: the rewritten path when this entry matches.\<close>

definition path_match :: "virtual_path \<Rightarrow> string \<Rightarrow> string option" where
  "path_match tp path =
     (if \<not> vp_prefix tp \<and> vp_virtual tp = path then Some (vp_real tp)
      else if vp_prefix tp \<and> starts_with (vp_virtual tp) path
      then Some (vp_real tp @ drop (length (vp_virtual tp)) path)
      else None)"

fun match_readable :: "virtual_path list \<Rightarrow> string \<Rightarrow> string option" where
  "match_readable [] path = None"
| "match_readable (tp # tps) path =
     (case path_match tp path of Some p \<Rightarrow> Some p | None \<Rightarrow> match_readable tps path)"

fun match_writable :: "virtual_path list \<Rightarrow> string \<Rightarrow> string option" where
  "match_writable [] path = None"
| "match_writable (tp # tps) path =
     (if vp_writable tp
      then case path_match tp path of Some p \<Rightarrow> Some p | None \<Rightarrow> match_writable tps path
      else match_writable tps path)"

text \<open>The state file of the program is reachable under the name \<open>state\<close>.\<close>

definition open_readable :: "tenant_conf \<Rightarrow> string \<Rightarrow> string option" where
  "open_readable t path =
     (case match_readable (g_allowed_paths (t_group t)) path of
        Some p \<Rightarrow> Some p
      | None \<Rightarrow> if path = ''state'' then Some (t_allowed_file t) else None)"

definition open_writable :: "tenant_conf \<Rightarrow> string \<Rightarrow> string option" where
  "open_writable t path =
     (case match_writable (g_allowed_paths (t_group t)) path of
        Some p \<Rightarrow> Some p
      | None \<Rightarrow> if path = ''state'' then Some (t_allowed_file t) else None)"

fun match_symlink :: "virtual_path list \<Rightarrow> string \<Rightarrow> string option" where
  "match_symlink [] path = None"
| "match_symlink (tp # tps) path =
     (if vp_virtual tp = path \<and> vp_symlink tp then Some (vp_real tp) else match_symlink tps path)"

definition resolve_symlink :: "tenant_conf \<Rightarrow> string \<Rightarrow> string option" where
  "resolve_symlink t path =
     (case match_symlink (g_allowed_paths (t_group t)) path of
        Some p \<Rightarrow> Some p
      | None \<Rightarrow>
          if path = ''/proc/self/exe'' \<and> request_program_filename t \<noteq> []
          then Some (request_program_filename t) else None)"

text \<open>The local program constructor lets the program read its own binary (\<^verbatim>\<open>program_instance.cpp\<close>).\<close>

definition allow_own_binary :: "tenant_conf \<Rightarrow> tenant_conf" where
  "allow_own_binary t =
     (if request_program_filename t \<noteq> [] then
        t\<lparr>t_group := (t_group t)\<lparr>g_allowed_paths := g_allowed_paths (t_group t) @
          [\<lparr>vp_real = request_program_filename t, vp_virtual = request_program_filename t,
            vp_writable = False, vp_symlink = False, vp_usable_in_fork = True, vp_prefix = False\<rparr>]\<rparr>\<rparr>
      else t)"

section \<open>Lemmas\<close>

lemma path_matchD:
  "path_match tp path = Some p \<Longrightarrow>
     starts_with (vp_virtual tp) path \<and> p = vp_real tp @ drop (length (vp_virtual tp)) path \<and>
     (vp_prefix tp \<or> path = vp_virtual tp)"
  by (auto simp: path_match_def starts_with_def split: if_splits)

lemma match_readableD:
  "match_readable tps path = Some p \<Longrightarrow> \<exists>tp \<in> set tps. path_match tp path = Some p"
  by (induction tps) (auto split: option.splits)

lemma match_writableD:
  "match_writable tps path = Some p \<Longrightarrow> \<exists>tp \<in> set tps. vp_writable tp \<and> path_match tp path = Some p"
  by (induction tps) (auto split: option.splits if_splits)

lemma match_symlinkD:
  "match_symlink tps path = Some p \<Longrightarrow> \<exists>tp \<in> set tps. vp_symlink tp \<and> vp_virtual tp = path \<and> vp_real tp = p"
  by (induction tps) (auto split: if_splits)

lemma match_writable_readable:
  "match_writable tps path = Some p \<Longrightarrow> \<exists>p'. match_readable tps path = Some p'"
  by (induction tps) (auto split: option.splits if_splits)

lemma match_readable_append:
  "match_readable (tps @ tps') path =
     (case match_readable tps path of Some p \<Rightarrow> Some p | None \<Rightarrow> match_readable tps' path)"
  by (induction tps) (auto split: option.splits)

lemma match_writable_append_ro:
  "\<forall>tp \<in> set tps'. \<not> vp_writable tp \<Longrightarrow> match_writable (tps @ tps') path = match_writable tps path"
proof (induction tps)
  case Nil
  then show ?case by (induction tps') auto
qed (auto split: option.splits)

section \<open>Properties\<close>


definition demo_conf :: tenant_conf where
  "demo_conf = \<lparr>t_name = ''demo'', t_hash = 0,
     t_group = (tenant_group_new ''demo'')\<lparr>g_allowed_paths :=
       [\<lparr>vp_real = ''/srv/data/'', vp_virtual = ''/data/'', vp_writable = True, vp_symlink = False,
         vp_usable_in_fork = False, vp_prefix = True\<rparr>]\<rparr>,
     t_filename = ''/prog/demo'', t_key = [], t_uri = [], t_sha256 = [], t_md5 = [],
     t_allowed_file = ''/prog/demo.state''\<rparr>"


text \<open>
  Loading the program from a local file adds read access to its own binary and nothing else:
  what could be opened before resolves as before, no path becomes writable, and the only path that
  newly becomes readable is the file name of the program.
\<close>

theorem allow_own_binary_readonly:
  "open_writable (allow_own_binary t) path = open_writable t path \<and>
   (path \<noteq> t_filename t \<longrightarrow> open_readable (allow_own_binary t) path = open_readable t path) \<and>
   (t_filename t \<noteq> [] \<longrightarrow> open_readable (allow_own_binary t) (t_filename t) \<noteq> None)"
  by (auto simp: allow_own_binary_def open_writable_def open_readable_def request_program_filename_def
      match_readable_append match_writable_append_ro path_match_def split: option.splits)

theorem allow_own_binary_readonly_witness:
  "open_readable (allow_own_binary demo_conf) ''/prog/demo'' \<noteq> None"
  using allow_own_binary_readonly [of demo_conf] by (simp add: demo_conf_def)

end
