(* ===== verification/Machine.thy ===== *)
theory Machine
  imports Instance_Cache Sandbox Xorshift
begin

text \<open>
  The state kept per virtual machine (\<^verbatim>\<open>lib/libkvm/machine_instance.hpp\<close>, \<^verbatim>\<open>machine_instance.cpp\<close>,
  \<^verbatim>\<open>machine_stats.hpp\<close>): flags, the post buffer, the regular expression handles, and the operations
  that reset a machine between requests. The virtual machine itself belongs to the TinyKVM library:
  its state is a type parameter, and the library's operations are a record of functions.
\<close>

section \<open>State\<close>

text \<open>\<open>MachineStats\<close>, without the time measurements.\<close>

record machine_stats =
  st_invocations :: u64
  st_resets :: u64
  st_full_resets :: u64
  st_timeouts :: u64
  st_exceptions :: u32
  st_exception_oom :: u32
  st_exception_mem :: u32
  st_status_2xx :: u64
  st_status_3xx :: u64
  st_status_4xx :: u64
  st_status_5xx :: u64
  st_status_unknown :: u64
  st_input_bytes :: u64
  st_output_bytes :: u64

definition machine_stats_new :: machine_stats where
  "machine_stats_new = \<lparr>st_invocations = 0, st_resets = 0, st_full_resets = 0, st_timeouts = 0,
     st_exceptions = 0, st_exception_oom = 0, st_exception_mem = 0, st_status_2xx = 0, st_status_3xx = 0,
     st_status_4xx = 0, st_status_5xx = 0, st_status_unknown = 0, st_input_bytes = 0, st_output_bytes = 0\<rparr>"

datatype binary_type = BinStatic | BinStaticPie | BinDynamic

text \<open>A compiled regular expression is a pointer; \<open>None\<close> is the null pointer.\<close>

type_synonym vre = "nat option"

text \<open>\<open>class MachineInstance\<close>; \<open>mi_ctx\<close> is the active request context, \<open>'m\<close> the virtual machine.\<close>

record 'm machine =
  mi_ctx :: "nat option"
  mi_vm :: 'm
  mi_is_debug :: bool
  mi_is_storage :: bool
  mi_is_ephemeral :: bool
  mi_waiting :: bool
  mi_warming_up :: bool
  mi_response_called :: u8
  mi_reset_needed :: bool
  mi_soft_reset :: bool
  mi_last_newline :: bool
  mi_binary_type :: binary_type
  mi_sighandler :: u64
  mi_post_data :: u64
  mi_post_size :: u64
  mi_inputs_allocation :: u64
  mi_stats :: machine_stats
  mi_regex :: "vre cache"
  mi_prng :: xorprng

text \<open>The options of \<open>tinykvm::Machine::reset_to\<close> that the program sets.\<close>

record reset_options =
  ro_max_mem :: u64
  ro_max_cow_mem :: u64
  ro_reset_free_work_mem :: u64
  ro_copy_all_registers :: bool
  ro_keep_all_work_memory :: bool

text \<open>
  The operations of the virtual machine used here: \<open>reset_to\<close> returns whether the reset was a full
  one, \<open>fork\<close> is the forking constructor, and the two memory map operations.
\<close>

record 'm vm_ops =
  v_reset_to :: "'m \<Rightarrow> 'm \<Rightarrow> reset_options \<Rightarrow> 'm \<times> bool res"
  v_fork :: "'m \<Rightarrow> tenant_conf \<Rightarrow> 'm"
  v_mmap_unmap :: "u64 \<Rightarrow> u64 \<Rightarrow> 'm \<Rightarrow> 'm"
  v_mmap_allocate :: "u64 \<Rightarrow> 'm \<Rightarrow> u64 \<times> 'm"

section \<open>Accessors\<close>

definition begin_call :: "'m machine \<Rightarrow> 'm machine" where
  "begin_call mi = mi\<lparr>mi_response_called := 0\<rparr>"

definition finish_call :: "u8 \<Rightarrow> 'm machine \<Rightarrow> 'm machine" where
  "finish_call n mi = mi\<lparr>mi_response_called := n\<rparr>"

definition response_called :: "u8 \<Rightarrow> 'm machine \<Rightarrow> bool" where
  "response_called n mi \<longleftrightarrow> mi_response_called mi = n"

definition machine_ctx :: "'m machine \<Rightarrow> nat res" where
  "machine_ctx mi = (case mi_ctx mi of None \<Rightarrow> Inl (RuntimeError ''CTX was null'') | Some c \<Rightarrow> Inr c)"

definition is_reset_needed :: "'m machine \<Rightarrow> bool" where
  "is_reset_needed mi \<longleftrightarrow> mi_reset_needed mi \<or> mi_soft_reset mi \<or> mi_is_ephemeral mi"

definition upd_stats :: "(machine_stats \<Rightarrow> machine_stats) \<Rightarrow> 'm machine \<Rightarrow> 'm machine" where
  "upd_stats f mi = mi\<lparr>mi_stats := f (mi_stats mi)\<rparr>"

definition binary_type_string :: "binary_type \<Rightarrow> string" where
  "binary_type_string b = (case b of BinStatic \<Rightarrow> ''static'' | BinStaticPie \<Rightarrow> ''static-pie'' | BinDynamic \<Rightarrow> ''dynamic'')"

definition shared_memory_size :: "tenant_conf \<Rightarrow> u64" where
  "shared_memory_size t = ucast (g_shared_memory (t_group t))"

definition shared_memory_boundary :: "tenant_conf \<Rightarrow> u64" where
  "shared_memory_boundary t =
     (if shared_memory_size t > 0 then g_max_address_space (t_group t) - shared_memory_size t else - 1)"

section \<open>Forking, freeing and resetting\<close>

text \<open>The forking constructor.\<close>

definition machine_fork :: "'m vm_ops \<Rightarrow> tenant_conf \<Rightarrow> 'm machine \<Rightarrow> 'm machine" where
  "machine_fork V t source =
     \<lparr>mi_ctx = None, mi_vm = v_fork V (mi_vm source) t,
      mi_is_debug = mi_is_debug source, mi_is_storage = False,
      mi_is_ephemeral = mi_is_ephemeral source, mi_waiting = True, mi_warming_up = False,
      mi_response_called = 0, mi_reset_needed = False, mi_soft_reset = False, mi_last_newline = True,
      mi_binary_type = mi_binary_type source, mi_sighandler = mi_sighandler source,
      mi_post_data = 0, mi_post_size = 0, mi_inputs_allocation = 0, mi_stats = machine_stats_new,
      mi_regex = cache_reset_and_loan (mi_regex source)
                   (cache_new (unat (g_max_regex (t_group t))) ''Regex handles''),
      mi_prng = mi_prng source\<rparr>"

text \<open>
  \<open>tail_reset\<close>: the callback frees the item of each owned entry and leaves a null pointer there. The
  pointers passed to \<open>VRE_free\<close> are the second component.
\<close>

definition tail_reset :: "'m machine \<Rightarrow> 'm machine \<times> vre list" where
  "tail_reset mi =
     (mi\<lparr>mi_regex := cache_foreach_owned (\<lambda>e. e\<lparr>e_item := None\<rparr>) (mi_regex mi)\<rparr>,
      cache_owned_items (mi_regex mi))"

text \<open>\<open>reset_to(ctx, source)\<close>: an exception of the library's reset is caught and printed.\<close>

definition machine_reset_options :: "tenant_conf \<Rightarrow> 'm machine \<Rightarrow> reset_options" where
  "machine_reset_options t mi =
     \<lparr>ro_max_mem = g_max_main_memory (t_group t), ro_max_cow_mem = ucast (g_max_req_mem (t_group t)),
      ro_reset_free_work_mem = ucast (g_limit_req_mem (t_group t)), ro_copy_all_registers = True,
      ro_keep_all_work_memory =
        (\<not> mi_reset_needed mi \<and> g_ephemeral_keep_working_memory (t_group t))\<rparr>"

definition machine_reset_to ::
    "'m vm_ops \<Rightarrow> tenant_conf \<Rightarrow> nat option \<Rightarrow> 'm machine \<Rightarrow> 'm machine \<Rightarrow> 'm machine" where
  "machine_reset_to V t ctx source mi =
     (let mi = mi\<lparr>mi_ctx := ctx\<rparr> in
      if is_reset_needed mi then
        let mi = upd_stats (\<lambda>s. s\<lparr>st_resets := st_resets s + 1\<rparr>) mi;
            (vm, r) = v_reset_to V (mi_vm mi) (mi_vm source) (machine_reset_options t mi);
            mi = mi\<lparr>mi_vm := vm\<rparr>;
            mi = (if r = Inr True then upd_stats (\<lambda>s. s\<lparr>st_full_resets := st_full_resets s + 1\<rparr>) mi else mi)
        in mi\<lparr>mi_waiting := mi_waiting source, mi_post_size := 0, mi_inputs_allocation := 0,
              mi_sighandler := mi_sighandler source,
              mi_regex := cache_reset_and_loan (mi_regex source) (mi_regex mi),
              mi_reset_needed := False, mi_soft_reset := False\<rparr>
      else mi)"

text \<open>\<open>allocate_post_data\<close>: the buffer only grows; the old mapping is dropped first.\<close>

definition allocate_post_data :: "'m vm_ops \<Rightarrow> u64 \<Rightarrow> 'm machine \<Rightarrow> u64 \<times> 'm machine" where
  "allocate_post_data V bytes mi =
     (if mi_post_size mi < bytes then
        let vm1 = (if mi_post_size mi > 0 then v_mmap_unmap V (mi_post_data mi) (mi_post_size mi) (mi_vm mi)
                   else mi_vm mi);
            (addr, vm2) = v_mmap_allocate V bytes vm1
        in (addr, mi\<lparr>mi_vm := vm2, mi_post_data := addr, mi_post_size := bytes\<rparr>)
      else (mi_post_data mi, mi))"

section \<open>Lemmas\<close>

lemma is_reset_needed_ctx [simp]: "is_reset_needed (mi\<lparr>mi_ctx := c\<rparr>) = is_reset_needed mi"
  by (simp add: is_reset_needed_def)

lemma upd_stats_simps [simp]:
  "mi_vm (upd_stats f mi) = mi_vm mi" "mi_regex (upd_stats f mi) = mi_regex mi"
  "mi_is_ephemeral (upd_stats f mi) = mi_is_ephemeral mi" "mi_ctx (upd_stats f mi) = mi_ctx mi"
  "mi_reset_needed (upd_stats f mi) = mi_reset_needed mi" "mi_soft_reset (upd_stats f mi) = mi_soft_reset mi"
  "mi_post_data (upd_stats f mi) = mi_post_data mi" "mi_post_size (upd_stats f mi) = mi_post_size mi"
  "mi_is_storage (upd_stats f mi) = mi_is_storage mi" "mi_waiting (upd_stats f mi) = mi_waiting mi"
  "mi_response_called (upd_stats f mi) = mi_response_called mi"
  "mi_is_debug (upd_stats f mi) = mi_is_debug mi"
  by (simp_all add: upd_stats_def)

lemma machine_reset_to_fields:
  assumes "is_reset_needed mi"
  shows "mi_vm (machine_reset_to V t ctx source mi) =
        fst (v_reset_to V (mi_vm mi) (mi_vm source) (machine_reset_options t mi))"
    and "mi_regex (machine_reset_to V t ctx source mi) = cache_reset_and_loan (mi_regex source) (mi_regex mi)"
    and "mi_post_size (machine_reset_to V t ctx source mi) = 0"
    and "mi_waiting (machine_reset_to V t ctx source mi) = mi_waiting source"
    and "\<not> mi_reset_needed (machine_reset_to V t ctx source mi)"
    and "\<not> mi_soft_reset (machine_reset_to V t ctx source mi)"
  using assms
  by (auto simp: machine_reset_to_def Let_def machine_reset_options_def upd_stats_def split: prod.splits)

lemma machine_reset_to_kept [simp]:
  "mi_is_ephemeral (machine_reset_to V t ctx source mi) = mi_is_ephemeral mi"
  "mi_ctx (machine_reset_to V t ctx source mi) = ctx"
  by (auto simp: machine_reset_to_def Let_def upd_stats_def split: prod.splits)

lemma machine_reset_to_skip:
  "\<not> is_reset_needed mi \<Longrightarrow> machine_reset_to V t ctx source mi = mi\<lparr>mi_ctx := ctx\<rparr>"
  by (simp add: machine_reset_to_def)

lemma tail_reset_kept [simp]:
  "mi_is_ephemeral (fst (tail_reset mi)) = mi_is_ephemeral mi" "mi_vm (fst (tail_reset mi)) = mi_vm mi"
  "is_reset_needed (fst (tail_reset mi)) = is_reset_needed mi"
  by (simp_all add: tail_reset_def is_reset_needed_def)

lemma tail_reset_twice:
  "snd (tail_reset (fst (tail_reset mi))) = map (\<lambda>_. None) (snd (tail_reset mi))"
  by (auto simp: tail_reset_def cache_owned_items_def cache_foreach_owned_def filter_map comp_def
      intro!: arg_cong [where f = length] filter_cong)

section \<open>A concrete virtual machine\<close>

text \<open>A machine whose observable state is one number, used to instantiate the parameter.\<close>

definition vm_demo :: "nat vm_ops" where
  "vm_demo = \<lparr>v_reset_to = (\<lambda>m source opts. (source, Inr True)), v_fork = (\<lambda>m t. m),
     v_mmap_unmap = (\<lambda>addr size m. m), v_mmap_allocate = (\<lambda>size m. (0x1000, m))\<rparr>"

definition main_demo :: "nat machine" where
  "main_demo = (machine_fork vm_demo demo_conf
     \<lparr>mi_ctx = None, mi_vm = 7, mi_is_debug = False, mi_is_storage = False, mi_is_ephemeral = True,
      mi_waiting = True, mi_warming_up = False, mi_response_called = 0, mi_reset_needed = False,
      mi_soft_reset = False, mi_last_newline = True, mi_binary_type = BinStatic, mi_sighandler = 0,
      mi_post_data = 0, mi_post_size = 0, mi_inputs_allocation = 0, mi_stats = machine_stats_new,
      mi_regex = cache_new 64 ''Regex handles'',
      mi_prng = \<lparr>x_generator = (1, 2), x_random_integer = 0, x_counter = 0\<rparr>\<rparr>)"

section \<open>Properties\<close>

text \<open>
  Every regular expression a request compiled is freed exactly once if the machine is reset
  afterwards. Without the reset (a program that is not ephemeral) the entries stay registered with a
  null pointer: the handle is still found by its hash, and the end of the next request passes as
  many null pointers to the free function as there were expressions.
\<close>

theorem tail_reset_frees_once:
  assumes "mi' = machine_reset_to V t None source (fst (tail_reset mi))"
  shows "snd (tail_reset mi') =
      (if is_reset_needed mi then [] else map (\<lambda>_. None) (snd (tail_reset mi))) \<and>
    (\<forall>h. cache_find (mi_regex mi') h =
       (if is_reset_needed mi then cache_find (mi_regex source) h else cache_find (mi_regex mi) h))"
proof (cases "is_reset_needed mi")
  case True
  then have "is_reset_needed (fst (tail_reset mi))" by simp
  from machine_reset_to_fields(2) [OF this, of V t None source] True show ?thesis
    by (simp add: assms tail_reset_def)
next
  case False
  then have m: "mi' = (fst (tail_reset mi))\<lparr>mi_ctx := None\<rparr>"
    by (simp add: assms machine_reset_to_skip)
  have find: "cache_find (mi_regex (fst (tail_reset mi))) h = cache_find (mi_regex mi) h" for h
    by (simp add: tail_reset_def cache_find_def cache_foreach_owned_def first_index_map comp_def if_distrib cong: if_cong)
  have "snd (tail_reset mi') = snd (tail_reset (fst (tail_reset mi)))"
    by (simp add: m tail_reset_def)
  with False find show ?thesis by (simp add: tail_reset_twice m)
qed

theorem tail_reset_frees_once_witness:
  "let mi = main_demo\<lparr>mi_is_ephemeral := False,
        mi_regex := \<lparr>c_entries = [\<lparr>e_item = Some 5, e_hash = 77, e_non_owned = False\<rparr>], c_capacity = 64,
          c_description = ''Regex handles''\<rparr>\<rparr>
   in snd (tail_reset (machine_reset_to vm_demo demo_conf None main_demo (fst (tail_reset mi)))) = [None]"
  unfolding Let_def
  using tail_reset_frees_once [OF refl, of vm_demo demo_conf main_demo]
  by (simp add: is_reset_needed_def main_demo_def machine_fork_def)
    (simp add: tail_reset_def cache_owned_items_def)

end
