(* ===== verification/Guest.thy ===== *)
theory Guest
  imports Machine
begin

text \<open>
  What the program sees of a running guest: the general purpose registers that system calls and
  responses use, and the operations of the virtual machine monitor on guest memory and execution.
  The monitor is third-party code, so its operations are fields of a record that the definitions
  take as an argument. Guest memory holds bytes, written as characters.
\<close>

section \<open>Registers\<close>

record regs =
  r_rax :: u64
  r_rdi :: u64
  r_rsi :: u64
  r_rdx :: u64
  r_rcx :: u64
  r_r8 :: u64
  r_r9 :: u64
  r_rip :: u64

definition regs_zero :: regs where
  "regs_zero = \<lparr>r_rax = 0, r_rdi = 0, r_rsi = 0, r_rdx = 0, r_rcx = 0, r_r8 = 0, r_r9 = 0, r_rip = 0\<rparr>"

text \<open>A register read into a narrower unsigned or signed variable.\<close>

definition to_u16 :: "u64 \<Rightarrow> nat" where
  "to_u16 r = unat (ucast r :: u16)"

definition to_u32 :: "u64 \<Rightarrow> nat" where
  "to_u32 r = unat (ucast r :: u32)"

definition to_int :: "u64 \<Rightarrow> int" where
  "to_int r = sint (ucast r :: u32)"

lemma to_u16_less [simp]: "to_u16 r < 65536"
  using unsigned_less [of "ucast r :: u16"] by (simp add: to_u16_def)

lemma to_u16_small: "r \<le> 65535 \<Longrightarrow> to_u16 r = unat r"
  by (simp add: to_u16_def unsigned_ucast_eq take_bit_nat_eq_self_iff word_le_nat_alt)

section \<open>Memory\<close>

text \<open>
  \<open>copy_from_guest\<close> (also \<open>string_or_view\<close>), \<open>copy_to_guest\<close>, \<open>copy_from_cstring\<close>, \<open>buffer_to_string\<close>
  with its limit, and \<open>gather_buffers_from_range\<close>, which splits a range into at most the given
  number of host buffers. A write that throws is taken to have written nothing.
\<close>

record 'm guest_ops =
  go_read :: "u64 \<Rightarrow> nat \<Rightarrow> 'm \<Rightarrow> string res"
  go_write :: "u64 \<Rightarrow> string \<Rightarrow> 'm \<Rightarrow> 'm res"
  go_cstring :: "u64 \<Rightarrow> 'm \<Rightarrow> string res"
  go_string :: "u64 \<Rightarrow> nat \<Rightarrow> nat \<Rightarrow> 'm \<Rightarrow> string res"
  go_gather :: "nat \<Rightarrow> u64 \<Rightarrow> u64 \<Rightarrow> 'm \<Rightarrow> string list res"

text \<open>
  A concrete memory, as a function from addresses, to evaluate definitions on: reads and writes
  that would pass the end of the address space throw, and a range is one buffer.
\<close>

definition mem_read :: "(u64 \<Rightarrow> char) \<Rightarrow> u64 \<Rightarrow> nat \<Rightarrow> string" where
  "mem_read m a n = map (\<lambda>i. m (a + of_nat i)) [0..<n]"

definition mem_write :: "u64 \<Rightarrow> string \<Rightarrow> (u64 \<Rightarrow> char) \<Rightarrow> u64 \<Rightarrow> char" where
  "mem_write a s m = (\<lambda>x. if unat (x - a) < length s then s ! unat (x - a) else m x)"

definition mem_guest :: "(u64 \<Rightarrow> char) guest_ops" where
  "mem_guest =
     \<lparr>go_read = (\<lambda>a n m. if unat a + n < 2 ^ 48 then Inr (mem_read m a n) else Inl (MemoryException a (of_nat n) False)),
      go_write = (\<lambda>a s m. if unat a + length s < 2 ^ 48 then Inr (mem_write a s m)
        else Inl (MemoryException a (of_nat (length s)) False)),
      go_cstring = (\<lambda>a m. Inr (takeWhile (\<lambda>c. c \<noteq> CHR 0x00) (mem_read m a 64))),
      go_string = (\<lambda>a n limit m. if n \<le> limit then Inr (mem_read m a n) else Inl (MemoryException a (of_nat n) False)),
      go_gather = (\<lambda>k a n m. if 0 < k \<or> n = 0 then Inr (if n = 0 then [] else [mem_read m a (unat n)])
        else Inl (MachineException ''Too many buffers'' 0))\<rparr>"

lemma length_mem_read [simp]: "length (mem_read m a n) = n"
  by (simp add: mem_read_def)

lemma mem_read_write:
  assumes "length s < 2 ^ 64"
  shows "mem_read (mem_write a s m) a (length s) = s"
proof (rule nth_equalityI)
  fix i assume i: "i < length (mem_read (mem_write a s m) a (length s))"
  then have "unat (of_nat i :: u64) = i" using assms by (simp add: unsigned_of_nat take_bit_nat_eq_self_iff)
  with i show "mem_read (mem_write a s m) a (length s) ! i = s ! i"
    by (simp add: mem_read_def mem_write_def)
qed simp

section \<open>Little endian encoding\<close>

text \<open>How a struct member lies in memory: its bytes, least significant first.\<close>

fun le_bytes :: "nat \<Rightarrow> 'a::len word \<Rightarrow> string" where
  "le_bytes 0 w = []"
| "le_bytes (Suc n) w = char_of (unat (take_bit 8 w)) # le_bytes n (drop_bit 8 w)"

fun le_word :: "string \<Rightarrow> 'a::len word" where
  "le_word [] = 0"
| "le_word (c # cs) = of_nat (of_char c) + push_bit 8 (le_word cs)"

lemma length_le_bytes [simp]: "length (le_bytes n w) = n"
  by (induction n w rule: le_bytes.induct) auto

lemma le_word_byte: "(of_nat (of_char (char_of (unat (take_bit 8 w)) :: char)) :: 'a::len word) = take_bit 8 w"
proof -
  have "unat (take_bit 8 w) < 256"
    by (simp add: unsigned_take_bit_eq take_bit_nat_def)
  then show ?thesis by (simp add: of_char_of)
qed

lemma le_word_le_bytes: "le_word (le_bytes n w) = take_bit (8 * n) (w :: 'a::len word)"
proof (induction n arbitrary: w)
  case (Suc n)
  let ?u = "take_bit (8 + 8 * n) w"
  have "push_bit 8 (take_bit (8 * n) (drop_bit 8 w)) + take_bit 8 w = push_bit 8 (drop_bit 8 ?u) + take_bit 8 ?u"
    by (simp add: drop_bit_take_bit)
  also have "\<dots> = ?u" by (rule bits_ident)
  finally show ?case
    using Suc le_word_byte [of w] by (simp add: add.commute)
qed simp

lemma le_word_roundtrip [simp]: "LENGTH('a) \<le> 8 * n \<Longrightarrow> le_word (le_bytes n w) = (w :: 'a::len word)"
  by (simp add: le_word_le_bytes take_bit_word_eq_self)

text \<open>An array of words: \<open>n\<close> bytes each.\<close>

definition enc_array :: "nat \<Rightarrow> 'a::len word list \<Rightarrow> string" where
  "enc_array n ws = concat (map (le_bytes n) ws)"

fun dec_array :: "nat \<Rightarrow> nat \<Rightarrow> string \<Rightarrow> 'a::len word list" where
  "dec_array n 0 s = []"
| "dec_array n (Suc k) s = le_word (take n s) # dec_array n k (drop n s)"

lemma length_enc_array [simp]: "length (enc_array n ws) = n * length ws"
  by (induction ws) (auto simp: enc_array_def)

lemma dec_enc_array:
  "LENGTH('a) \<le> 8 * n \<Longrightarrow> dec_array n (length ws) (enc_array n (ws :: 'a::len word list) @ rest) = ws"
  by (induction ws) (auto simp: enc_array_def)

section \<open>Execution\<close>

text \<open>
  The ways the program enters a guest: a call of a guest function on the guest's stack or on a
  given one, with integers or strings as arguments, and resuming it. Each has a time limit.
\<close>

datatype varg = AInt u64 | AStr string

datatype vmcall =
    VCall u64 "varg list" float32
  | VCallStack u64 u64 "varg list" float32
  | VResume float32
  | VUser float32
  | VRun float32
  | VDebug float32
  | VSmpWait

text \<open>
  What the virtual machine monitor offers for running a guest. Running it may make system calls,
  which change the machine instance around it, so \<open>x_run\<close> is a step of the whole instance, with the
  exception it ended with, if any. \<open>x_copy\<close> is \<open>copy_from_machine\<close>: destination address, source
  machine, source address and length; it may throw half way. \<open>x_push\<close> pushes bytes on a stack and
  returns the new stack, and \<open>x_setup\<close> sets the registers for a call of a function on a stack.
\<close>

record 'm exec_ops =
  x_regs :: "'m \<Rightarrow> regs"
  x_set_regs :: "regs \<Rightarrow> 'm \<Rightarrow> 'm"
  x_stopped :: "'m \<Rightarrow> bool"
  x_stack :: "'m \<Rightarrow> u64"
  x_setup :: "u64 \<Rightarrow> u64 \<Rightarrow> varg list \<Rightarrow> 'm \<Rightarrow> 'm"
  x_copy :: "u64 \<Rightarrow> 'm \<Rightarrow> u64 \<Rightarrow> u64 \<Rightarrow> 'm \<Rightarrow> 'm \<times> exn option"
  x_push :: "string \<Rightarrow> u64 \<Rightarrow> 'm \<Rightarrow> (u64 \<times> 'm) res"
  x_run :: "vmcall \<Rightarrow> 'm machine \<Rightarrow> 'm machine \<times> exn option"

text \<open>
  A concrete machine to evaluate definitions on: a memory with the registers of its processor. How
  it runs is a parameter.
\<close>

type_synonym vm_mem = "(u64 \<Rightarrow> char) \<times> regs"

definition exec_mem :: "(vmcall \<Rightarrow> vm_mem machine \<Rightarrow> vm_mem machine \<times> exn option) \<Rightarrow> vm_mem exec_ops" where
  "exec_mem run =
     \<lparr>x_regs = snd, x_set_regs = (\<lambda>r vm. (fst vm, r)), x_stopped = (\<lambda>vm. True), x_stack = (\<lambda>vm. 0x10000),
      x_setup = (\<lambda>f st args vm. vm),
      x_copy = (\<lambda>dst src sa len vm. ((mem_write dst (mem_read (fst src) sa (unat len)) (fst vm), snd vm), None)),
      x_push = (\<lambda>s st vm. Inr (st - of_nat (length s), (mem_write (st - of_nat (length s)) s (fst vm), snd vm))),
      x_run = run\<rparr>"

definition guest_mem :: "vm_mem guest_ops" where
  "guest_mem =
     \<lparr>go_read = (\<lambda>a n vm. go_read mem_guest a n (fst vm)),
      go_write = (\<lambda>a s vm. map_sum id (\<lambda>m. (m, snd vm)) (go_write mem_guest a s (fst vm))),
      go_cstring = (\<lambda>a vm. go_cstring mem_guest a (fst vm)),
      go_string = (\<lambda>a n limit vm. go_string mem_guest a n limit (fst vm)),
      go_gather = (\<lambda>k a n vm. go_gather mem_guest k a n (fst vm))\<rparr>"

lemma mem_write_outside:
  assumes "of_nat (length s) \<le> a - b" and "length s < 2 ^ 64"
  shows "mem_write b s m a = m a"
proof -
  have "unat (of_nat (length s) :: u64) = length s"
    using assms(2) by (simp add: unsigned_of_nat take_bit_nat_eq_self)
  with assms(1) show ?thesis by (simp add: mem_write_def word_le_nat_alt)
qed

end
