(* ===== verification/Storage.thy ===== *)
theory Storage
  imports Guest Timers
begin

text \<open>
  The state a program shares between its virtual machines (\<^verbatim>\<open>lib/libkvm/program_instance.cpp\<close>,
  \<^verbatim>\<open>lib/libkvm/serialized_state.hpp\<close>): the table of entry points, which is saved with a snapshot, the
  storage VM with its allow list, serialized calls and asynchronous tasks, and the transfer of
  storage data to a new program on a live update. Tasks of the storage queue run one at a time, so
  a call is one step of the storage VM.
\<close>

definition STORAGE_CLEANUP_TIMEOUT :: float32 where "STORAGE_CLEANUP_TIMEOUT = 0x3F800000"
definition STORAGE_DESERIALIZE_TIMEOUT :: float32 where "STORAGE_DESERIALIZE_TIMEOUT = 0x40000000"
definition ASYNC_STORAGE_TIMEOUT :: float32 where "ASYNC_STORAGE_TIMEOUT = 0x41700000"
definition STORAGE_TASK_MAX_ARGUMENT :: nat where "STORAGE_TASK_MAX_ARGUMENT = 2097152"
definition STORAGE_TASK_MAX_TIMERS :: nat where "STORAGE_TASK_MAX_TIMERS = 15"

section \<open>Entry points\<close>

text \<open>\<open>enum class ProgramEntryIndex\<close>.\<close>

datatype program_entry =
    ON_RECV | BACKEND_GET | BACKEND_POST | BACKEND_METHOD | BACKEND_STREAM | BACKEND_ERROR
  | LIVEUPD_SERIALIZE | LIVEUPD_DESERIALIZE | SOCKET_PAUSE_RESUME_API

fun entry_index :: "program_entry \<Rightarrow> int" where
  "entry_index ON_RECV = 0"
| "entry_index BACKEND_GET = 1"
| "entry_index BACKEND_POST = 2"
| "entry_index BACKEND_METHOD = 3"
| "entry_index BACKEND_STREAM = 4"
| "entry_index BACKEND_ERROR = 5"
| "entry_index LIVEUPD_SERIALIZE = 6"
| "entry_index LIVEUPD_DESERIALIZE = 7"
| "entry_index SOCKET_PAUSE_RESUME_API = 12"

definition TOTAL_ENTRIES :: nat where
  "TOTAL_ENTRIES = 13"

text \<open>\<open>SerializedState\<close>: the entries are 32 bits wide.\<close>

type_synonym entries = "u32 list"

definition entries_new :: entries where
  "entries_new = replicate TOTAL_ENTRIES 0"

text \<open>The index is an \<open>int\<close> that \<open>std::array::at\<close> converts to an unsigned 64 bit number.\<close>

definition entry_at :: "entries \<Rightarrow> int \<Rightarrow> u64 res" where
  "entry_at es idx =
     (if 0 \<le> idx \<and> nat idx < length es then Inr (ucast (es ! nat idx)) else Inl (OutOfRange ''array::at''))"

definition set_entry_at :: "int \<Rightarrow> u64 \<Rightarrow> entries \<Rightarrow> entries res" where
  "set_entry_at idx addr es =
     (if 0 \<le> idx \<and> nat idx < length es then Inr (es[nat idx := ucast addr]) else Inl (OutOfRange ''array::at''))"

text \<open>\<open>save_state\<close> and \<open>load_state\<close> copy the struct to and from the user area of a snapshot, if there is one.\<close>

definition save_state :: "entries \<Rightarrow> string option \<Rightarrow> string res" where
  "save_state es area =
     (case area of None \<Rightarrow> Inl (RuntimeError ''Invalid state area'')
      | Some m \<Rightarrow> Inr (enc_array 4 es @ drop (4 * TOTAL_ENTRIES) m))"

definition load_state :: "string option \<Rightarrow> entries \<Rightarrow> bool \<times> entries" where
  "load_state area es =
     (case area of None \<Rightarrow> (False, es) | Some m \<Rightarrow> (True, dec_array 4 TOTAL_ENTRIES m))"

section \<open>The storage VM\<close>

text \<open>\<open>class Storage\<close>; \<open>so_tasks\<close> holds the futures of asynchronous tasks.\<close>

record 'm storage =
  so_vm :: "'m machine"
  so_allow :: "u64 list"
  so_tasks :: "(u64 \<times> string) list"

definition is_allowed :: "'m storage \<Rightarrow> u64 \<Rightarrow> bool" where
  "is_allowed S addr \<longleftrightarrow> so_allow S = [] \<or> addr \<in> set (so_allow S)"

text \<open>The loop that copies the caller's buffers below the stack of the storage VM, aligned to 8 bytes.\<close>

fun push_buffers ::
    "'m exec_ops \<Rightarrow> 'm \<Rightarrow> (u64 \<times> u64) list \<Rightarrow> u64 \<Rightarrow> 'm \<Rightarrow> 'm \<times> ((u64 \<times> u64) list \<times> u64) res" where
  "push_buffers X src [] vaddr stm = (stm, Inr ([], vaddr))"
| "push_buffers X src ((addr, len) # bufs) vaddr stm =
     (let v = and (vaddr - len) (not 7) in
      case x_copy X v src addr len stm of
        (stm, Some e) \<Rightarrow> (stm, Inl e)
      | (stm, None) \<Rightarrow>
          (case push_buffers X src bufs v stm of
             (stm, r) \<Rightarrow> (stm, bind_res r (\<lambda>(bs, v'). Inr ((v, len) # bs, v')))))"

definition enc_buffers :: "(u64 \<times> u64) list \<Rightarrow> string" where
  "enc_buffers bs = enc_array 8 (concat (map (\<lambda>(a, l). [a, l]) bs))"

text \<open>
  The part of the task inside the \<open>try\<close>: the caller's VM, the storage instance, and the result. An
  exception leaves what has been done so far. First what follows once the storage VM has stopped.
\<close>

definition storage_finish ::
    "'m exec_ops \<Rightarrow> u64 \<Rightarrow> u64 \<Rightarrow> 'm \<Rightarrow> 'm machine \<Rightarrow> 'm \<times> 'm machine \<times> u64 res" where
  "storage_finish X res_addr res_size src st =
     (let r = x_regs X (mi_vm st);
          st_res_size = (if r_rsi r < res_size then r_rsi r else res_size);
          copies = (res_addr \<noteq> 0 \<and> r_rdi r \<noteq> 0);
          (src', e) = (if copies then x_copy X res_addr (mi_vm st) (r_rdi r) st_res_size src else (src, None))
      in case e of
           Some e \<Rightarrow> (src', st, Inl e)
         | None \<Rightarrow>
             let st' = (if copies then upd_stats (\<lambda>s. s\<lparr>st_output_bytes := st_output_bytes s + st_res_size\<rparr>) st else st);
                 retval = (if res_addr \<noteq> 0 then st_res_size else r_rsi r)
             in if response_called 2 st'
                then (case x_run X (VRun STORAGE_CLEANUP_TIMEOUT) st' of
                        (st'', Some e) \<Rightarrow> (src', st'', Inl e)
                      | (st'', None) \<Rightarrow> (src', st'', Inr retval))
                else (src', st', Inr retval))"

definition storage_run ::
    "'m exec_ops \<Rightarrow> tenant_conf \<Rightarrow> u64 \<Rightarrow> u64 \<Rightarrow> u64 \<Rightarrow> nat \<Rightarrow> u64 \<Rightarrow> u64 \<Rightarrow> 'm \<Rightarrow> 'm machine \<Rightarrow>
     'm \<times> 'm machine \<times> u64 res" where
  "storage_run X t func stack bufaddr n res_addr res_size src st =
     (let timeout = g_max_storage_time (t_group t);
          st = upd_stats (\<lambda>s. s\<lparr>st_invocations := st_invocations s + 1\<rparr>) (begin_call st);
          st = st\<lparr>mi_vm := x_setup X func stack [AInt (of_nat n), AInt bufaddr, AInt res_size] (mi_vm st)\<rparr>
      in case x_run X (if mi_is_debug st then VDebug timeout else VRun timeout) st of
           (st, Some e) \<Rightarrow> (src, st, Inl e)
         | (st, None) \<Rightarrow>
             if \<not> x_stopped X (mi_vm st) \<or> \<not> (response_called 2 st \<or> response_called 3 st)
             then (src, st, Inl (RuntimeError ''Storage did not respond properly''))
             else storage_finish X res_addr res_size src st)"

text \<open>
  \<open>storage_call\<close>: the caller's VM, the storage, and the returned number, or the exception that
  reaches the caller. Minus one is the largest unsigned number.
\<close>

definition storage_call ::
    "'m exec_ops \<Rightarrow> 'm guest_ops \<Rightarrow> tenant_conf \<Rightarrow> u64 \<Rightarrow> (u64 \<times> u64) list \<Rightarrow> u64 \<Rightarrow> u64 \<Rightarrow> 'm \<Rightarrow> 'm storage option \<Rightarrow>
     'm \<times> 'm storage option \<times> u64 res" where
  "storage_call X G t func bufs res_addr res_size src storage =
     (if res_addr + res_size < res_addr then (src, storage, Inr (- 1))
      else case storage of
        None \<Rightarrow> (src, storage, Inl (RuntimeError ''Storage not initialized''))
      | Some S \<Rightarrow>
          if \<not> is_allowed S func then (src, storage, Inl (RuntimeError ''Not allowed to call storage function''))
          else
            let stm = mi_vm (so_vm S) in
            case push_buffers X src bufs (x_stack X stm) stm of
              (stm, Inl e) \<Rightarrow> (src, Some (S\<lparr>so_vm := (so_vm S)\<lparr>mi_vm := stm\<rparr>\<rparr>), Inl e)
            | (stm, Inr (bs, v)) \<Rightarrow>
                let bufaddr = v - of_nat (length bufs) * 16 in
                (case go_write G bufaddr (enc_buffers bs) stm of
                   Inl e \<Rightarrow> (src, Some (S\<lparr>so_vm := (so_vm S)\<lparr>mi_vm := stm\<rparr>\<rparr>), Inl e)
                 | Inr stm \<Rightarrow>
                     let st = upd_stats (\<lambda>s. s\<lparr>st_input_bytes := st_input_bytes s + sum_list (map snd bufs)\<rparr>)
                                ((so_vm S)\<lparr>mi_vm := stm\<rparr>)
                     in (case storage_run X t func (and bufaddr (not 15)) bufaddr (length bufs) res_addr res_size src st of
                           (src', st', Inl e) \<Rightarrow>
                             (src', Some (S\<lparr>so_vm := upd_stats (\<lambda>s. s\<lparr>st_exceptions := st_exceptions s + 1\<rparr>) st'\<rparr>), Inr (- 1))
                         | (src', st', Inr v) \<Rightarrow> (src', Some (S\<lparr>so_vm := st'\<rparr>), Inr v))))"

text \<open>
  \<open>storage_task\<close>: all but the last future are dropped, and the task is queued. The task itself runs
  later, on the storage queue; \<open>x_push\<close> puts the argument on the stack of the storage VM.
\<close>

definition storage_task :: "u64 \<Rightarrow> string \<Rightarrow> 'm storage option \<Rightarrow> 'm storage option \<times> u64 res" where
  "storage_task func arg storage =
     (case storage of
        None \<Rightarrow> (storage, Inl (RuntimeError ''Storage not initialized''))
      | Some S \<Rightarrow>
          if \<not> is_allowed S func then (storage, Inl (RuntimeError ''Not allowed to call storage function''))
          else (Some (S\<lparr>so_tasks := drop (length (so_tasks S) - 1) (so_tasks S) @ [(func, arg)]\<rparr>), Inr 0))"

definition run_storage_task :: "'m exec_ops \<Rightarrow> u64 \<Rightarrow> string \<Rightarrow> 'm machine \<Rightarrow> 'm machine \<times> int" where
  "run_storage_task X func arg st =
     (let st = upd_stats (\<lambda>s. s\<lparr>st_invocations := st_invocations s + 1,
                 st_input_bytes := st_input_bytes s + of_nat (length arg)\<rparr>) st
      in case x_push X arg (x_stack X (mi_vm st)) (mi_vm st) of
           Inl e \<Rightarrow> (upd_stats (\<lambda>s. s\<lparr>st_exceptions := st_exceptions s + 1\<rparr>) st, -1)
         | Inr (rsp, vm) \<Rightarrow>
             (case x_run X (VCallStack func rsp [AInt rsp, AInt (of_nat (length arg))] ASYNC_STORAGE_TIMEOUT) (st\<lparr>mi_vm := vm\<rparr>) of
                (st, Some e) \<Rightarrow> (upd_stats (\<lambda>s. s\<lparr>st_exceptions := st_exceptions s + 1\<rparr>) st, -1)
              | (st, None) \<Rightarrow> (st, 0)))"

text \<open>
  \<open>live_update_call\<close>: the old storage VM serializes, the new one says where the data goes, and the
  data is copied over. The result is the number of bytes, or minus one.
\<close>

definition live_update_call ::
    "'m exec_ops \<Rightarrow> tenant_conf \<Rightarrow> nat option \<Rightarrow> u64 \<Rightarrow> u64 \<Rightarrow> 'm machine \<Rightarrow> 'm machine \<Rightarrow> 'm machine \<times> 'm machine \<times> int" where
  "live_update_call X t ctx func newfunc old new =
     (let timeout = g_max_storage_time (t_group t) in
      case x_run X (VCall func [] timeout) (old\<lparr>mi_ctx := ctx\<rparr>) of
        (old, Some e) \<Rightarrow> (old, new, -1)
      | (old, None) \<Rightarrow>
          let r = x_regs X (mi_vm old); data = r_rdi r; len = r_rsi r in
          if data + len < data \<or> data = 0 then (old, new, -1)
          else
            case x_run X (VCall newfunc [AInt len] timeout) (new\<lparr>mi_ctx := ctx\<rparr>) of
              (new, Some e) \<Rightarrow> (old, new, -1)
            | (new, None) \<Rightarrow>
                let r' = x_regs X (mi_vm new); res_data = r_rdi r'; res_size = min (r_rsi r') len in
                if res_data \<noteq> 0 then
                  (case x_copy X res_data (mi_vm old) data res_size (mi_vm new) of
                     (vm, Some e) \<Rightarrow> (old, new\<lparr>mi_vm := vm\<rparr>, -1)
                   | (vm, None) \<Rightarrow>
                       (case x_run X (VRun STORAGE_DESERIALIZE_TIMEOUT) (new\<lparr>mi_vm := vm\<rparr>) of
                          (new, Some e) \<Rightarrow> (old, new, -1)
                        | (new, None) \<Rightarrow> (old, new, sint res_size)))
                else (old, new, 0))"

section \<open>Lemmas\<close>

lemma and_not_split:
  fixes x y :: "'a::len word"
  shows "x - and x (not y) = and x y"
proof -
  have zero: "and (and x (not y)) (and x y) = 0"
    by (rule bit_eqI) (auto simp: bit_and_iff bit_not_iff)
  have "and x (not y) + and x y = or (and x (not y)) (and x y)"
    by (rule disjunctive_add_eq_or [OF zero])
  also have "\<dots> = x" by (rule bit_eqI) (auto simp: bit_and_iff bit_or_iff bit_not_iff)
  finally show ?thesis by (simp add: algebra_simps)
qed

lemma and_not_zero: "and (and x (not y)) y = (0 :: 'a::len word)"
  by (rule bit_eqI) (auto simp: bit_and_iff bit_not_iff)

lemma align_bounds:
  fixes x y :: "'a::len word"
  shows "unat (and x (not y)) \<le> unat x" and "unat x \<le> unat (and x (not y)) + unat y"
proof -
  have le: "and x (not y) \<le> x" by (rule word_and_le2)
  then show "unat (and x (not y)) \<le> unat x" by (simp only: word_le_nat_alt)
  have "and x y \<le> y" by (rule word_and_le1)
  then have "unat (x - and x (not y)) \<le> unat y" by (simp only: and_not_split word_le_nat_alt)
  with le show "unat x \<le> unat (and x (not y)) + unat y" by (simp add: unat_sub)
qed

lemma unat_numeral_7: "unat (7 :: u64) = 7"
  by simp

text \<open>The step of the loop when the buffer fits below the address.\<close>

lemma push_step:
  fixes vaddr len :: u64
  assumes "unat len + 8 \<le> unat vaddr"
  defines "v \<equiv> and (vaddr - len) (not 7)"
  shows "unat v + unat len \<le> unat vaddr" and "unat vaddr \<le> unat v + unat len + 7" and "and v 7 = 0"
proof -
  have "unat (vaddr - len) = unat vaddr - unat len"
    using assms(1) by (intro unat_sub) (simp add: word_le_nat_alt)
  with align_bounds [of "vaddr - len" 7] and_not_zero [of "vaddr - len" 7] assms(1) show "unat v + unat len \<le> unat vaddr"
    "unat vaddr \<le> unat v + unat len + 7" "and v 7 = 0"
    unfolding v_def by (simp_all only: unat_numeral_7)
qed

text \<open>What a copy may change: only the bytes of the destination range.\<close>

definition copy_law :: "'m exec_ops \<Rightarrow> ('m \<Rightarrow> u64 \<Rightarrow> char) \<Rightarrow> bool" where
  "copy_law X mem \<longleftrightarrow> (\<forall>dst src sa len vm a. len \<le> a - dst \<longrightarrow> mem (fst (x_copy X dst src sa len vm)) a = mem vm a)"

lemma copy_lawD:
  "\<lbrakk>copy_law X mem; x_copy X dst src sa len vm = (vm', e); len \<le> a - dst\<rbrakk> \<Longrightarrow> mem vm' a = mem vm a"
  by (metis copy_law_def fst_conv)

lemma storage_finish_confined:
  assumes "copy_law X mem" and "storage_finish X res_addr res_size src st = (src', st', r)" and "res_size \<le> a - res_addr"
  shows "mem src' a = mem src a"
proof -
  let ?len = "if r_rsi (x_regs X (mi_vm st)) < res_size then r_rsi (x_regs X (mi_vm st)) else res_size"
  obtain w e where c: "x_copy X res_addr (mi_vm st) (r_rdi (x_regs X (mi_vm st))) ?len src = (w, e)"
    by (cases "x_copy X res_addr (mi_vm st) (r_rdi (x_regs X (mi_vm st))) ?len src")
  have "mem w a = mem src a"
    by (rule copy_lawD [OF assms(1) c]) (use assms(3) in auto)
  moreover have "src' = src \<or> src' = w"
    using assms(2) unfolding storage_finish_def Let_def c
    by (auto split: prod.splits option.splits if_splits)
  ultimately show ?thesis by auto
qed

lemma storage_finish_bound:
  assumes "storage_finish X res_addr res_size src st = (src', st', Inr v)" and "res_addr \<noteq> 0"
  shows "v \<le> res_size"
  using assms unfolding storage_finish_def Let_def
  by (auto split: prod.splits option.splits if_splits)

lemma storage_run_cases:
  "storage_run X t func stack bufaddr n res_addr res_size src st = (src', st', r) \<Longrightarrow>
     src' = src \<and> (\<exists>e. r = Inl e) \<or> (\<exists>st1. storage_finish X res_addr res_size src st1 = (src', st', r))"
  by (auto simp: storage_run_def Let_def split: prod.splits option.splits if_splits)

lemma storage_call_cases:
  assumes "storage_call X G t func bufs res_addr res_size src (Some S) = (src', storage', r)"
  shows "src' = src \<and> (r = Inr (- 1) \<or> (\<exists>e. r = Inl e)) \<or>
    (\<exists>st1 st' r'. storage_finish X res_addr res_size src st1 = (src', st', r') \<and> (r = r' \<or> r = Inr (- 1)))"
proof (cases "res_addr + res_size < res_addr \<or> \<not> is_allowed S func")
  case True
  with assms show ?thesis by (auto simp: storage_call_def split: if_splits)
next
  case False
  obtain stm p where p: "push_buffers X src bufs (x_stack X (mi_vm (so_vm S))) (mi_vm (so_vm S)) = (stm, p)"
    by (cases "push_buffers X src bufs (x_stack X (mi_vm (so_vm S))) (mi_vm (so_vm S))")
  show ?thesis
  proof (cases "(\<exists>e. p = Inl e) \<or> (\<exists>bs v e. p = Inr (bs, v) \<and> go_write G (v - of_nat (length bufs) * 16) (enc_buffers bs) stm = Inl e)")
    case True
    with False p assms show ?thesis by (auto simp: storage_call_def Let_def)
  next
    case ok: False
    then obtain bs v where p2: "p = Inr (bs, v)" by (cases p) auto
    with ok obtain stm' where w: "go_write G (v - of_nat (length bufs) * 16) (enc_buffers bs) stm = Inr stm'"
      by (cases "go_write G (v - of_nat (length bufs) * 16) (enc_buffers bs) stm") auto
    let ?b = "v - of_nat (length bufs) * 16"
    let ?st = "upd_stats (\<lambda>s. s\<lparr>st_input_bytes := st_input_bytes s + sum_list (map snd bufs)\<rparr>) ((so_vm S)\<lparr>mi_vm := stm'\<rparr>)"
    obtain s1 st' r' where run: "storage_run X t func (and ?b (not 15)) ?b (length bufs) res_addr res_size src ?st = (s1, st', r')"
      by (rule prod_cases3)
    have "src' = s1 \<and> (r = r' \<or> r = Inr (- 1))"
      using assms False p p2 w run by (auto simp: storage_call_def Let_def split: sum.splits)
    with storage_run_cases [OF run] show ?thesis by blast
  qed
qed

lemma push_buffers_below:
  assumes "push_buffers X src bufs vaddr stm = (stm', Inr (bs, v'))"
    and "(\<Sum>(a, l)\<leftarrow>bufs. unat l + 8) \<le> unat vaddr"
  shows "unat v' \<le> unat vaddr"
  using assms
proof (induction bufs arbitrary: vaddr stm bs)
  case (Cons buf bufs)
  obtain addr len where b: "buf = (addr, len)" by (cases buf)
  let ?v = "and (vaddr - len) (not 7)"
  from Cons.prems(1) b obtain stm1 bs1 where "push_buffers X src bufs ?v stm1 = (stm', Inr (bs1, v'))"
    by (auto simp: Let_def bind_res_def split: prod.splits option.splits sum.splits)
  moreover from Cons.prems(2) b have l: "unat len + 8 + (\<Sum>(a, l)\<leftarrow>bufs. unat l + 8) \<le> unat vaddr" by simp
  moreover from l have "unat len + 8 \<le> unat vaddr" by linarith
  note push_step [OF this]
  ultimately show ?case using Cons.IH [of ?v stm1 bs1] by linarith
qed simp

section \<open>Properties\<close>

text \<open>
  C10. A storage call touches the caller only where the caller asked for the result: whatever the
  storage program does, the memory of the calling VM outside the result buffer is unchanged, and
  the number returned for a result buffer is at most its size, or minus one. A function that is
  not on the allow list is refused and nothing runs.
\<close>

theorem storage_call_confined:
  assumes "copy_law X mem" and "storage_call X G t func bufs res_addr res_size src storage = (src', storage', r)"
    and "res_size \<le> a - res_addr"
  shows "mem src' a = mem src a \<and>
    (\<forall>v. r = Inr v \<and> res_addr \<noteq> 0 \<longrightarrow> v \<le> res_size \<or> v = - 1) \<and>
    (\<forall>S. storage = Some S \<and> \<not> is_allowed S func \<longrightarrow>
       src' = src \<and> storage' = storage \<and> (r = Inr (- 1) \<or> (\<exists>e. r = Inl e)))"
proof (cases storage)
  case None
  with assms(2) show ?thesis by (auto simp: storage_call_def split: if_splits)
next
  case (Some S)
  have "mem src' a = mem src a \<and> (\<forall>v. r = Inr v \<and> res_addr \<noteq> 0 \<longrightarrow> v \<le> res_size \<or> v = - 1)"
    using storage_call_cases [OF assms(2) [unfolded Some]]
    by (auto dest: storage_finish_confined [OF assms(1) _ assms(3)] storage_finish_bound)
  moreover have "src' = src \<and> storage' = storage \<and> (r = Inr (- 1) \<or> (\<exists>e. r = Inl e))" if "\<not> is_allowed S func"
    using that assms(2) Some by (auto simp: storage_call_def split: if_splits)
  ultimately show ?thesis using Some by simp
qed

text \<open>A storage program that answers with four bytes at 0x500.\<close>

definition storage_answer :: "vmcall \<Rightarrow> vm_mem machine \<Rightarrow> vm_mem machine \<times> exn option" where
  "storage_answer c mi =
     ((finish_call 3 mi)\<lparr>mi_vm := (fst (mi_vm mi), regs_zero\<lparr>r_rdi := 0x500, r_rsi := 4\<rparr>)\<rparr>, None)"

definition machine_of :: "'m \<Rightarrow> 'm machine" where
  "machine_of vm = \<lparr>mi_ctx = None, mi_vm = vm, mi_is_debug = False, mi_is_storage = True, mi_is_ephemeral = True,
     mi_waiting = True, mi_warming_up = False, mi_response_called = 0, mi_reset_needed = False, mi_soft_reset = False,
     mi_last_newline = True, mi_binary_type = BinStatic, mi_sighandler = 0, mi_post_data = 0, mi_post_size = 0,
     mi_inputs_allocation = 0, mi_stats = machine_stats_new, mi_regex = cache_new 4 [],
     mi_prng = \<lparr>x_generator = (1, 2), x_random_integer = 0, x_counter = 0\<rparr>\<rparr>"

definition storage_demo :: "vm_mem storage" where
  "storage_demo = \<lparr>so_vm = machine_of (\<lambda>a. if a = 0x500 then CHR ''k'' else CHR ''-'', regs_zero),
     so_allow = [0x400], so_tasks = []\<rparr>"

lemma exec_mem_copy_law [simp]: "copy_law (exec_mem run) fst"
proof -
  have "unat len < 2 ^ 64" for len :: u64 using unsigned_less [of len] by simp
  then show ?thesis by (simp add: copy_law_def exec_mem_def mem_write_outside)
qed

theorem storage_call_confined_witness:
  "\<exists>src' storage'.
     storage_call (exec_mem storage_answer) guest_mem demo_conf 0x400 [(0x10, 3)] 0x2000 2 (\<lambda>a. CHR ''.'', regs_zero)
       (Some storage_demo) = (src', storage', Inr 2) \<and>
     fst src' 0x2002 = CHR ''.'' \<and> fst src' 0x2000 = CHR ''k''"
proof -
  let ?c = "storage_call (exec_mem storage_answer) guest_mem demo_conf 0x400 [(0x10, 3)] 0x2000 2 (\<lambda>a. CHR ''.'', regs_zero)
       (Some storage_demo)"
  obtain src' storage' r where c: "?c = (src', storage', r)" by (rule prod_cases3)
  have r: "r = Inr 2 \<and> fst src' 0x2000 = CHR ''k''"
    using c by (auto simp: storage_call_def storage_demo_def is_allowed_def exec_mem_def guest_mem_def mem_guest_def
        storage_run_def storage_finish_def storage_answer_def machine_of_def Let_def response_called_def finish_call_def
        upd_stats_def begin_call_def enc_buffers_def mem_write_def mem_read_def regs_zero_def bind_res_def)
  have "fst src' 0x2002 = fst (\<lambda>a. CHR ''.'', regs_zero) 0x2002"
    using storage_call_confined [OF exec_mem_copy_law c, of "0x2002"] by simp
  with c r show ?thesis by simp
qed

text \<open>
  C18. The input buffers of a storage call never overlap: as long as they fit below the stack of the
  storage VM, each copy is aligned to 8 bytes, keeps its length, ends at or below the start of the
  one before it, and lies above the array of descriptors.
\<close>

theorem push_buffers_layout:
  assumes "push_buffers X src bufs vaddr stm = (stm', Inr (bs, v'))"
    and "(\<Sum>(a, l)\<leftarrow>bufs. unat l + 8) \<le> unat vaddr"
  shows "map snd bs = map snd bufs \<and>
    (\<forall>(a, l) \<in> set bs. and a 7 = 0 \<and> unat v' \<le> unat a \<and> unat a + unat l \<le> unat vaddr) \<and>
    sorted_wrt (\<lambda>(a, l) (b, k). unat b + unat k \<le> unat a) bs"
  using assms
proof (induction bufs arbitrary: vaddr stm bs)
  case Nil
  then show ?case by auto
next
  case (Cons buf bufs)
  obtain addr len where b: "buf = (addr, len)" by (cases buf)
  let ?v = "and (vaddr - len) (not 7)"
  from Cons.prems(1) b obtain stm1 bs1 where c: "x_copy X ?v src addr len stm = (stm1, None)"
    and r: "push_buffers X src bufs ?v stm1 = (stm', Inr (bs1, v'))" and bs: "bs = (?v, len) # bs1"
    by (auto simp: Let_def bind_res_def split: prod.splits option.splits sum.splits)
  from Cons.prems(2) b have l: "unat len + 8 + (\<Sum>(a, l)\<leftarrow>bufs. unat l + 8) \<le> unat vaddr" by simp
  from l push_step [of len vaddr] have fits: "(\<Sum>(a, l)\<leftarrow>bufs. unat l + 8) \<le> unat ?v" by linarith
  have le: "unat len + 8 \<le> unat vaddr" using l by linarith
  note ih = Cons.IH [OF r fits] and q = push_step [OF le]
  have v: "unat v' \<le> unat ?v"
    using push_buffers_below [OF r fits] .
  show ?case
    using ih q v by (auto simp: bs b simp del: bit_simps)
qed

theorem push_buffers_layout_witness:
  "\<exists>stm'. push_buffers (exec_mem storage_answer) (\<lambda>a. CHR ''.'', regs_zero) [(0x10, 3), (0x20, 9)] 0x10000
      (mi_vm (so_vm storage_demo)) = (stm', Inr ([(0xFFF8, 3), (0xFFE8, 9)], 0xFFE8)) \<and>
    sorted_wrt (\<lambda>(a, l) (b, k). unat b + unat k \<le> unat a) [(0xFFF8 :: u64, 3 :: u64), (0xFFE8, 9)]"
proof -
  let ?p = "push_buffers (exec_mem storage_answer) (\<lambda>a. CHR ''.'', regs_zero) [(0x10, 3), (0x20, 9)] 0x10000
      (mi_vm (so_vm storage_demo))"
  have e: "snd ?p = Inr ([(0xFFF8, 3), (0xFFE8, 9)], 0xFFE8)"
    by (simp add: exec_mem_def Let_def bind_res_def)
  then obtain stm' where p: "?p = (stm', Inr ([(0xFFF8, 3), (0xFFE8, 9)], 0xFFE8))"
    by (cases ?p) simp
  with push_buffers_layout [OF p] show ?thesis by auto
qed

text \<open>
  A snapshot restores the entry points: loading the area that was saved gives back exactly the
  table of the program that saved it, whatever the table was before.
\<close>

theorem saved_entries_restored:
  assumes "length es = TOTAL_ENTRIES" and "save_state es area = Inr a"
  shows "load_state (Some a) es' = (True, es)"
  using assms dec_enc_array [of 4 es] by (auto simp: save_state_def load_state_def split: option.splits)

theorem saved_entries_restored_witness:
  "\<exists>a. save_state (entries_new[1 := 0x401000]) (Some []) = Inr a \<and>
     load_state (Some a) entries_new = (True, entries_new[1 := 0x401000])"
  using saved_entries_restored [of "entries_new[1 := 0x401000]" "Some []" _ entries_new]
  by (simp add: save_state_def entries_new_def)

end
