(* ===== verification/Http_Fields.thy ===== *)
theory Http_Fields
  imports Guest
begin

text \<open>
  The header fields of a request or response as the guest edits them
  (\<^verbatim>\<open>lib/libkvm/system_calls_http.cpp\<close>): selection of the HTTP object, search by name, validation,
  append, replace and unset. The fields of an object are a list; the first five are the request or
  status line. The abstract view at the end is a table from names, without regard to case, to the
  values of the fields with that name, in order.
\<close>

section \<open>State\<close>

record http =
  h_fields_max :: nat
  h_fields :: "string list"

definition HDR_FIRST :: nat where
  "HDR_FIRST = 5"

definition HDR_INVALID :: u32 where
  "HDR_INVALID = 0xFFFFFFFF"

text \<open>The HTTP objects of a context; \<open>hc_bo\<close> is whether it is a backend context.\<close>

record http_ctx =
  hc_bo :: bool
  hc_bereq :: "http option"
  hc_beresp :: "http option"
  hc_req :: "http option"
  hc_resp :: "http option"

text \<open>
  What the code uses of Varnish: the two selectors of the backend side, and \<open>http_SetH\<close>, which makes
  a C string the contents of a field.
\<close>

record varnish_api =
  va_HDR_BEREQ :: int
  va_HDR_BERESP :: int
  va_SetH :: "string \<Rightarrow> string"

definition seth_law :: "varnish_api \<Rightarrow> bool" where
  "seth_law A \<longleftrightarrow> (\<forall>s. CHR 0x00 \<notin> set s \<longrightarrow> va_SetH A s = s)"

datatype http_sel = SelBereq | SelBeresp | SelReq | SelResp

fun sel_http :: "http_sel \<Rightarrow> http_ctx \<Rightarrow> http option" where
  "sel_http SelBereq c = hc_bereq c"
| "sel_http SelBeresp c = hc_beresp c"
| "sel_http SelReq c = hc_req c"
| "sel_http SelResp c = hc_resp c"

fun set_http :: "http_sel \<Rightarrow> http \<Rightarrow> http_ctx \<Rightarrow> http_ctx" where
  "set_http SelBereq hp c = c\<lparr>hc_bereq := Some hp\<rparr>"
| "set_http SelBeresp hp c = c\<lparr>hc_beresp := Some hp\<rparr>"
| "set_http SelReq hp c = c\<lparr>hc_req := Some hp\<rparr>"
| "set_http SelResp hp c = c\<lparr>hc_resp := Some hp\<rparr>"

definition http_where :: "varnish_api \<Rightarrow> http_ctx \<Rightarrow> int \<Rightarrow> http_sel option" where
  "http_where A c w =
     (if hc_bo c then
        (if w = 0 \<or> w = va_HDR_BEREQ A then Some SelBereq
         else if w = 1 \<or> w = va_HDR_BERESP A then Some SelBeresp else None)
      else if w = 0 then Some SelReq else if w = 1 then Some SelResp else None)"

definition get_http :: "varnish_api \<Rightarrow> http_ctx \<Rightarrow> int \<Rightarrow> (http_sel \<times> http) res" where
  "get_http A c w =
     (case http_where A c w of
        None \<Rightarrow> Inl (RuntimeError ''Selected HTTP not available at this time'')
      | Some s \<Rightarrow> (case sel_http s c of
            None \<Rightarrow> Inl (RuntimeError ''Selected HTTP not available at this time'')
          | Some hp \<Rightarrow> Inr (s, hp)))"

definition http_get_request_headers :: "varnish_api \<Rightarrow> http_ctx \<Rightarrow> string list res" where
  "http_get_request_headers A c =
     bind_res (get_http A c 0) (\<lambda>(s, hp).
       if length (h_fields hp) < HDR_FIRST then Inl (OutOfRange ''No HTTP request headers available'')
       else Inr (drop HDR_FIRST (h_fields hp)))"

section \<open>Searching\<close>

definition lower :: "char \<Rightarrow> char" where
  "lower c = (let n = of_char c :: nat in if 65 \<le> n \<and> n \<le> 90 then char_of (n + 32) else c)"

text \<open>\<open>strncasecmp\<close> of two byte sequences of the same length: both end at a null byte.\<close>

fun nocase_eq :: "string \<Rightarrow> string \<Rightarrow> bool" where
  "nocase_eq [] [] \<longleftrightarrow> True"
| "nocase_eq (a # as) (b # bs) \<longleftrightarrow> lower a = lower b \<and> (a = CHR 0x00 \<or> nocase_eq as bs)"
| "nocase_eq _ _ \<longleftrightarrow> False"

definition field_matches :: "string \<Rightarrow> string \<Rightarrow> bool" where
  "field_matches name field \<longleftrightarrow>
     length name + 1 \<le> length field \<and> field ! length name = CHR '':'' \<and> nocase_eq name (take (length name) field)"

text \<open>\<open>http_findhdr\<close>: the index of the first matching field after the first five, or 0.\<close>

definition http_findhdr :: "http \<Rightarrow> string \<Rightarrow> nat" where
  "http_findhdr hp name =
     (case first_index (field_matches name) (drop HDR_FIRST (h_fields hp)) of
        None \<Rightarrow> 0 | Some i \<Rightarrow> HDR_FIRST + i)"

text \<open>\<open>http_unsetat\<close>: the two assertions are the value None.\<close>

definition http_unsetat :: "nat \<Rightarrow> http \<Rightarrow> http option" where
  "http_unsetat idx hp =
     (if HDR_FIRST \<le> idx \<and> idx < length (h_fields hp)
      then Some (hp\<lparr>h_fields := remove_nth idx (h_fields hp)\<rparr>) else None)"

section \<open>Validation\<close>

definition validate_guest_field :: "string \<Rightarrow> unit res" where
  "validate_guest_field s =
     (if length s < 4 then Inl (RuntimeError ''HTTP header field was too small'')
      else if length s \<ge> 0x10000 then Inl (RuntimeError ''HTTP header field was too large'')
      else case first_index (\<lambda>c. c = CHR '':'') s of
        None \<Rightarrow> Inl (RuntimeError ''HTTP header field had no colon'')
      | Some i \<Rightarrow>
          if i = 0 then Inl (RuntimeError ''HTTP header field starts with colon'')
          else if i = length s - 1 then Inl (RuntimeError ''HTTP header field ends with colon'')
          else if s ! (i + 1) \<noteq> CHR '' '' then Inl (RuntimeError ''HTTP header field colon has no space after'')
          else if s ! 0 = CHR '' '' then Inl (RuntimeError ''HTTP header field begins with space'')
          else if s ! (length s - 1) = CHR '' '' then Inl (RuntimeError ''HTTP header field ends with space'')
          else Inr ())"

text \<open>
  \<open>strchr\<close> on a literal: the bytes up to the first null byte, and that null byte itself.
  The literal has its null byte in the third place.
\<close>

definition strchr_found :: "string \<Rightarrow> char \<Rightarrow> bool" where
  "strchr_found lit c \<longleftrightarrow> c \<in> set (takeWhile (\<lambda>x. x \<noteq> CHR 0x00) lit) \<or> c = CHR 0x00"

definition illegal_chars :: string where
  "illegal_chars = [CHR '':'', CHR '' '', CHR 0x00, CHR 0x08, CHR 0x1B, CHR 0x0C, CHR 0x09, CHR 0x0D, CHR 0x0A]"

definition validate_guest_field_key :: "string \<Rightarrow> unit res" where
  "validate_guest_field_key s =
     (if length s < 1 then Inl (RuntimeError ''HTTP header field name was too small'')
      else if length s \<ge> 0x10000 then Inl (RuntimeError ''HTTP header field name was too large'')
      else if list_ex (strchr_found illegal_chars) s
      then Inl (RuntimeError ''HTTP header field name had an illegal character'')
      else Inr ())"

section \<open>Editing\<close>

text \<open>\<open>http_header_append\<close>: the index, or \<open>HDR_INVALID\<close> when the object is full.\<close>

definition http_header_append :: "varnish_api \<Rightarrow> string \<Rightarrow> http \<Rightarrow> (u32 \<times> http) res" where
  "http_header_append A val hp =
     (if length (h_fields hp) \<ge> h_fields_max hp then Inr (HDR_INVALID, hp)
      else bind_res (validate_guest_field val) (\<lambda>_.
        Inr (of_nat (length (h_fields hp)), hp\<lparr>h_fields := h_fields hp @ [va_SetH A val]\<rparr>)))"

text \<open>
  The part of \<open>kvm_http_set\<close> after the bytes have been read: replace, append, or unset when there is
  no colon. An assertion that fails would be the value None.
\<close>

definition http_set_field :: "varnish_api \<Rightarrow> string \<Rightarrow> http \<Rightarrow> (u32 \<times> http) res option" where
  "http_set_field A buffer hp =
     (case first_index (\<lambda>c. c = CHR '':'') buffer of
        Some namelen \<Rightarrow>
          (case validate_guest_field buffer of
             Inl e \<Rightarrow> Some (Inl e)
           | Inr _ \<Rightarrow>
               let index = http_findhdr hp (take namelen buffer) in
               if index > 0 then Some (Inr (of_nat index, hp\<lparr>h_fields := (h_fields hp)[index := buffer]\<rparr>))
               else Some (http_header_append A buffer hp))
      | None \<Rightarrow>
          let index = http_findhdr hp buffer in
          if index > 0 then map_option (\<lambda>hp'. Inr (of_nat index, hp')) (http_unsetat index hp)
          else Some (Inr (0, hp)))"

text \<open>\<open>kvm_http_set\<close>; \<open>ws\<close> is whether the workspace has room for the field.\<close>

definition kvm_http_set ::
    "varnish_api \<Rightarrow> 'm guest_ops \<Rightarrow> bool \<Rightarrow> int \<Rightarrow> u64 \<Rightarrow> u32 \<Rightarrow> 'm machine \<Rightarrow> http_ctx \<Rightarrow> (u32 \<times> http_ctx) res option" where
  "kvm_http_set A G ws w g_what g_wlen mi c =
     (if g_wlen = 0 then Some (Inr (0, c))
      else if g_wlen > 0xFFFF then Some (Inl (RuntimeError ''HTTP header field too large''))
      else case bind_res (machine_ctx mi) (\<lambda>_. get_http A c w) of
        Inl e \<Rightarrow> Some (Inl e)
      | Inr (s, hp) \<Rightarrow>
          if \<not> ws then Some (Inl (RuntimeError ''Unable to make room for HTTP header field''))
          else case go_read G g_what (unat g_wlen) (mi_vm mi) of
            Inl e \<Rightarrow> Some (Inl e)
          | Inr buffer \<Rightarrow>
              map_option (\<lambda>r. bind_res r (\<lambda>(i, hp'). Inr (i, set_http s hp' c))) (http_set_field A buffer hp))"

section \<open>The abstract table\<close>

text \<open>The name of a field without regard to case, and its value.\<close>

definition field_name :: "string \<Rightarrow> string option" where
  "field_name f = (case first_index (\<lambda>c. c = CHR '':'') f of None \<Rightarrow> None | Some i \<Rightarrow> Some (map lower (take i f)))"

text \<open>The fields with a given name, in order.\<close>

definition fields_named :: "string \<Rightarrow> http \<Rightarrow> string list" where
  "fields_named name hp = filter (\<lambda>f. field_name f = Some (map lower name)) (drop HDR_FIRST (h_fields hp))"

text \<open>A name that a field can have: no colon and no null byte.\<close>

definition name_wf :: "string \<Rightarrow> bool" where
  "name_wf name \<longleftrightarrow> CHR '':'' \<notin> set name \<and> CHR 0x00 \<notin> set name"

lemma nocase_eq_lower:
  assumes "CHR 0x00 \<notin> set a" shows "nocase_eq a b \<longleftrightarrow> map lower a = map lower b"
  using assms by (induction a b rule: nocase_eq.induct) auto

lemma lower_colon_eq [simp]: "lower (CHR '':'') = CHR '':''"
  by (simp add: lower_def Let_def)

lemma lower_colon [simp]: "lower c = CHR '':'' \<longleftrightarrow> c = CHR '':''"
proof
  assume a: "lower c = CHR '':''"
  show "c = CHR '':''"
  proof (cases "65 \<le> (of_char c :: nat) \<and> (of_char c :: nat) \<le> 90")
    case True
    with a have "(of_char (char_of ((of_char c :: nat) + 32) :: char) :: nat) = of_char (CHR '':'')"
      by (simp add: lower_def Let_def)
    with True show ?thesis by simp
  qed (use a in \<open>simp add: lower_def Let_def split: if_splits\<close>)
qed (simp add: lower_def Let_def)

lemma field_matches_name:
  assumes "name_wf name"
  shows "field_matches name f \<longleftrightarrow> field_name f = Some (map lower name)"
proof
  assume m: "field_matches name f"
  then have l: "length name < length f" and c: "f ! length name = CHR '':''"
    and e: "map lower name = map lower (take (length name) f)"
    using assms by (auto simp: field_matches_def name_wf_def nocase_eq_lower)
  have "f ! j \<noteq> CHR '':''" if "j < length name" for j
  proof
    assume "f ! j = CHR '':''"
    moreover have "lower (name ! j) = lower (f ! j)"
      using arg_cong [OF e, of "\<lambda>xs. xs ! j"] that l by simp
    ultimately have "name ! j = CHR '':''" by simp
    with that assms show False by (metis name_wf_def nth_mem)
  qed
  with l c have "first_index (\<lambda>c. c = CHR '':'') f = Some (length name)"
    by (intro first_index_SomeI) auto
  with e show "field_name f = Some (map lower name)" by (simp add: field_name_def)
next
  assume "field_name f = Some (map lower name)"
  then obtain i where i: "first_index (\<lambda>c. c = CHR '':'') f = Some i" and e: "map lower (take i f) = map lower name"
    by (auto simp: field_name_def split: option.splits)
  from first_index_SomeD [OF i] have il: "i < length f" and c: "f ! i = CHR '':''" by auto
  from arg_cong [OF e, of length] il have "length name = i" by simp
  with e il c assms show "field_matches name f"
    by (auto simp: field_matches_def name_wf_def nocase_eq_lower)
qed

subsection \<open>First matches\<close>

lemma filter_first_Some:
  "first_index P xs = Some i \<Longrightarrow> filter P xs = xs ! i # tl (filter P xs)"
proof (induction xs arbitrary: i)
  case (Cons x xs)
  then show ?case by (cases "P x") auto
qed simp

lemma filter_first_update:
  "\<lbrakk>first_index P xs = Some i; P y\<rbrakk> \<Longrightarrow> filter P (xs[i := y]) = y # tl (filter P xs)"
proof (induction xs arbitrary: i)
  case (Cons x xs)
  then show ?case by (cases "P x") auto
qed simp

lemma filter_first_remove:
  "first_index P xs = Some i \<Longrightarrow> filter P (remove_nth i xs) = tl (filter P xs)"
proof (induction xs arbitrary: i)
  case (Cons x xs)
  then show ?case by (cases "P x") auto
qed simp

lemma filter_other_update:
  "\<lbrakk>i < length xs; \<not> Q (xs ! i); \<not> Q y\<rbrakk> \<Longrightarrow> filter Q (xs[i := y]) = filter Q xs"
proof (induction xs arbitrary: i)
  case (Cons x xs)
  then show ?case by (cases i) auto
qed simp

lemma filter_other_remove:
  "\<lbrakk>i < length xs; \<not> Q (xs ! i)\<rbrakk> \<Longrightarrow> filter Q (remove_nth i xs) = filter Q xs"
proof (induction xs arbitrary: i)
  case (Cons x xs)
  then show ?case by (cases i) auto
qed simp

lemma drop_update: "drop k (xs[k + i := y]) = (drop k xs)[i := y]"
  by (simp add: drop_update_swap)

lemma take_remove_nth: "k \<le> i \<Longrightarrow> take k (remove_nth i xs) = take k xs"
  by (induction i xs arbitrary: k rule: remove_nth.induct) (auto simp: take_Cons split: nat.splits)

lemma drop_remove_nth: "drop k (remove_nth (k + i) xs) = remove_nth i (drop k xs)"
  by (induction k arbitrary: xs; case_tac xs) auto

subsection \<open>Refinement\<close>

lemma http_findhdr_cases [consumes 1, case_names absent found]:
  assumes "name_wf name"
  obtains (absent) "http_findhdr hp name = 0" "fields_named name hp = []"
  | (found) i where "http_findhdr hp name = HDR_FIRST + i"
      "first_index (\<lambda>f. field_name f = Some (map lower name)) (drop HDR_FIRST (h_fields hp)) = Some i"
      "HDR_FIRST + i < length (h_fields hp)"
proof (cases "first_index (field_matches name) (drop HDR_FIRST (h_fields hp))")
  case None
  with assms have "fields_named name hp = []"
    by (auto simp: fields_named_def first_index_None filter_empty_conv field_matches_name)
  with None show ?thesis by (intro absent) (simp_all add: http_findhdr_def)
next
  case (Some i)
  have "field_matches name = (\<lambda>f. field_name f = Some (map lower name))"
    using field_matches_name [OF assms] by blast
  with Some first_index_SomeD [OF Some] show ?thesis
    by (intro found [of i]) (auto simp: http_findhdr_def)
qed

text \<open>What an edit does to the fields with a name: replace the first or add one, or remove the first.\<close>

definition table_edit :: "string \<Rightarrow> string \<Rightarrow> string list \<Rightarrow> string list" where
  "table_edit buffer name fs =
     (case field_name buffer of
        Some n \<Rightarrow> if n = map lower name then buffer # tl fs else fs
      | None \<Rightarrow> if map lower buffer = map lower name then tl fs else fs)"

lemma field_name_wf:
  assumes "first_index (\<lambda>c. c = CHR '':'') buffer = Some k" and "CHR 0x00 \<notin> set buffer"
  shows "name_wf (take k buffer)" and "field_name buffer = Some (map lower (take k buffer))"
proof -
  have "c \<noteq> CHR '':''" if "c \<in> set (take k buffer)" for c
    using that first_index_SomeD [OF assms(1)] by (auto simp: in_set_conv_nth)
  with assms(2) show "name_wf (take k buffer)"
    by (auto simp: name_wf_def dest: in_set_takeD)
qed (use assms(1) in \<open>simp add: field_name_def\<close>)

lemma http_replace_named:
  assumes "first_index (\<lambda>f. field_name f = Some m) (drop HDR_FIRST (h_fields hp)) = Some i"
    and "field_name buffer = Some m"
  shows "fields_named n (hp\<lparr>h_fields := (h_fields hp)[HDR_FIRST + i := buffer]\<rparr>) = table_edit buffer n (fields_named n hp)"
proof (cases "m = map lower n")
  case True
  then show ?thesis
    using assms filter_first_update [OF assms(1), of buffer] by (simp add: fields_named_def table_edit_def drop_update)
next
  case False
  with assms first_index_SomeD [OF assms(1)] show ?thesis
    by (auto simp: fields_named_def table_edit_def drop_update intro!: filter_other_update)
qed

lemma http_append_named:
  assumes "HDR_FIRST \<le> length (h_fields hp)" and "field_name buffer = Some (map lower name)"
    and "fields_named name hp = []"
  shows "fields_named n (hp\<lparr>h_fields := h_fields hp @ [buffer]\<rparr>) = table_edit buffer n (fields_named n hp)"
  using assms by (auto simp: fields_named_def table_edit_def)

lemma http_unset_named:
  assumes "first_index (\<lambda>f. field_name f = Some (map lower buffer)) (drop HDR_FIRST (h_fields hp)) = Some i"
    and "field_name buffer = None"
  shows "fields_named n (hp\<lparr>h_fields := remove_nth (HDR_FIRST + i) (h_fields hp)\<rparr>) = table_edit buffer n (fields_named n hp)"
proof (cases "map lower buffer = map lower n")
  case True
  then show ?thesis
    using assms filter_first_remove [OF assms(1)] by (simp add: fields_named_def table_edit_def drop_remove_nth)
next
  case False
  with assms first_index_SomeD [OF assms(1)] show ?thesis
    by (auto simp: fields_named_def table_edit_def drop_remove_nth intro!: filter_other_remove)
qed

lemma table_edit_absent:
  "\<lbrakk>field_name buffer = None; fields_named buffer hp = []\<rbrakk> \<Longrightarrow> table_edit buffer n (fields_named n hp) = fields_named n hp"
  by (auto simp: table_edit_def fields_named_def)

text \<open>An object whose field count fits its 16 bit counter and has at least the request line.\<close>

definition http_wf :: "http \<Rightarrow> bool" where
  "http_wf hp \<longleftrightarrow> HDR_FIRST \<le> length (h_fields hp) \<and> length (h_fields hp) \<le> h_fields_max hp \<and> h_fields_max hp < 2 ^ 16"

lemma http_wf_index:
  "\<lbrakk>http_wf hp; k \<le> length (h_fields hp)\<rbrakk> \<Longrightarrow> (of_nat k :: u32) \<noteq> HDR_INVALID"
proof -
  assume wf: "http_wf hp" and k: "k \<le> length (h_fields hp)"
  then have "unat (of_nat k :: u32) = k" by (simp add: http_wf_def unsigned_of_nat take_bit_nat_eq_self_iff)
  moreover have "unat HDR_INVALID = 2 ^ 32 - 1" by (simp add: HDR_INVALID_def)
  ultimately show ?thesis using wf k by (auto simp: http_wf_def)
qed

lemma http_set_field_unset:
  assumes "first_index (\<lambda>c. c = CHR '':'') buffer = None" and "CHR 0x00 \<notin> set buffer"
  shows "\<exists>i hp'. http_set_field A buffer hp = Some (Inr (i, hp')) \<and>
    take HDR_FIRST (h_fields hp') = take HDR_FIRST (h_fields hp) \<and>
    (\<forall>n. fields_named n hp' = table_edit buffer n (fields_named n hp))"
proof -
  have fn: "field_name buffer = None" using assms(1) by (simp add: field_name_def)
  have wf: "name_wf buffer" using assms by (auto simp: name_wf_def first_index_None)
  from wf show ?thesis
  proof (cases rule: http_findhdr_cases [where hp = hp])
    case absent
    with assms(1) fn show ?thesis by (simp add: http_set_field_def Let_def table_edit_absent)
  next
    case (found i)
    then have "http_unsetat (HDR_FIRST + i) hp = Some (hp\<lparr>h_fields := remove_nth (HDR_FIRST + i) (h_fields hp)\<rparr>)"
      by (simp add: http_unsetat_def)
    with found assms(1) show ?thesis
      by (simp add: http_set_field_def Let_def http_unset_named [OF found(2) fn] take_remove_nth) (simp add: HDR_FIRST_def)
  qed
qed

lemma http_set_field_assign:
  assumes "seth_law A" and "first_index (\<lambda>c. c = CHR '':'') buffer = Some k" and "CHR 0x00 \<notin> set buffer"
    and "http_wf hp" and "validate_guest_field buffer = Inr ()"
  shows "\<exists>i hp'. http_set_field A buffer hp = Some (Inr (i, hp')) \<and>
    take HDR_FIRST (h_fields hp') = take HDR_FIRST (h_fields hp) \<and>
    (if i = HDR_INVALID then hp' = hp \<and> length (h_fields hp) = h_fields_max hp
     else \<forall>n. fields_named n hp' = table_edit buffer n (fields_named n hp))"
proof -
  note wf = field_name_wf [OF assms(2,3)]
  from wf(1) show ?thesis
  proof (cases rule: http_findhdr_cases [where hp = hp])
    case absent
    show ?thesis
    proof (cases "length (h_fields hp) \<ge> h_fields_max hp")
      case True
      with absent assms show ?thesis
        by (simp add: http_set_field_def Let_def http_header_append_def http_wf_def)
    next
      case False
      have "va_SetH A buffer = buffer" using assms(1,3) by (simp add: seth_law_def)
      with False absent assms http_wf_index [OF assms(4) order_refl] show ?thesis
        by (simp add: http_set_field_def Let_def http_header_append_def http_append_named [OF _ wf(2) absent(2)] http_wf_def)
    qed
  next
    case (found i)
    with assms wf http_wf_index [OF assms(4), of "HDR_FIRST + i"] show ?thesis
      by (simp add: http_set_field_def Let_def http_replace_named [OF found(2) wf(2)]) (simp add: HDR_FIRST_def)
  qed
qed

section \<open>Properties\<close>

text \<open>
  C11. Editing the header fields implements a table from names, without regard to case, to fields: a
  field with a colon replaces the first field of its name or is added, a field without one removes
  the first field of that name, the fields of every other name and the request line are unchanged,
  and no assertion is violated. Only a field that fails validation is refused, and only a full
  object drops a new field.
\<close>

theorem http_set_refines:
  assumes "seth_law A" and "http_wf hp" and "CHR 0x00 \<notin> set buffer"
  shows "case http_set_field A buffer hp of
      None \<Rightarrow> False
    | Some (Inl e) \<Rightarrow> CHR '':'' \<in> set buffer \<and> validate_guest_field buffer = Inl e
    | Some (Inr (i, hp')) \<Rightarrow>
        take HDR_FIRST (h_fields hp') = take HDR_FIRST (h_fields hp) \<and>
        (if i = HDR_INVALID then hp' = hp \<and> length (h_fields hp) = h_fields_max hp
         else \<forall>n. fields_named n hp' = table_edit buffer n (fields_named n hp))"
proof (cases "first_index (\<lambda>c. c = CHR '':'') buffer")
  case None
  from http_set_field_unset [OF this assms(3), of A hp] obtain i hp' where
    r: "http_set_field A buffer hp = Some (Inr (i, hp'))" "take HDR_FIRST (h_fields hp') = take HDR_FIRST (h_fields hp)"
    "\<forall>n. fields_named n hp' = table_edit buffer n (fields_named n hp)" by blast
  have wf: "name_wf buffer" using None assms(3) by (auto simp: name_wf_def first_index_None)
  from wf have "i \<noteq> HDR_INVALID"
  proof (cases rule: http_findhdr_cases [where hp = hp])
    case absent
    with r(1) None show ?thesis by (auto simp: http_set_field_def Let_def HDR_INVALID_def)
  next
    case (found j)
    with r(1) None have "i = of_nat (HDR_FIRST + j)"
      by (auto simp: http_set_field_def Let_def split: if_splits)
    with found(3) http_wf_index [OF assms(2), of "HDR_FIRST + j"] show ?thesis by simp
  qed
  with r show ?thesis by simp
next
  case (Some k)
  show ?thesis
  proof (cases "validate_guest_field buffer")
    case (Inl e)
    with Some show ?thesis by (auto simp: http_set_field_def dest: first_index_Some_mem)
  next
    case (Inr u)
    with http_set_field_assign [OF assms(1) Some assms(3,2)] show ?thesis by auto
  qed
qed

definition api_demo :: varnish_api where
  "api_demo = \<lparr>va_HDR_BEREQ = 4, va_HDR_BERESP = 5, va_SetH = takeWhile (\<lambda>c. c \<noteq> CHR 0x00)\<rparr>"

lemma api_demo_law [simp]: "seth_law api_demo"
  by (auto simp: seth_law_def api_demo_def takeWhile_eq_all_conv)

definition http_demo :: http where
  "http_demo = \<lparr>h_fields_max = 8, h_fields = [''GET'', ''/'', ''HTTP/1.1'', [], [], ''Host: a'', ''X-A: 1'']\<rparr>"

theorem http_set_refines_witness:
  "http_set_field api_demo ''x-a: 2'' http_demo = Some (Inr (6, http_demo\<lparr>h_fields :=
     [''GET'', ''/'', ''HTTP/1.1'', [], [], ''Host: a'', ''x-a: 2'']\<rparr>)) \<and>
   (case http_set_field api_demo ''x-a: 2'' http_demo of
      None \<Rightarrow> False
    | Some (Inl e) \<Rightarrow> CHR '':'' \<in> set ''x-a: 2'' \<and> validate_guest_field ''x-a: 2'' = Inl e
    | Some (Inr (i, hp')) \<Rightarrow>
        take HDR_FIRST (h_fields hp') = take HDR_FIRST (h_fields http_demo) \<and>
        (if i = HDR_INVALID then hp' = http_demo \<and> length (h_fields http_demo) = h_fields_max http_demo
         else \<forall>n. fields_named n hp' = table_edit ''x-a: 2'' n (fields_named n http_demo)))"
proof -
  have "http_wf http_demo" by (simp add: http_wf_def http_demo_def HDR_FIRST_def)
  moreover have "http_set_field api_demo ''x-a: 2'' http_demo = Some (Inr (6, http_demo\<lparr>h_fields :=
     [''GET'', ''/'', ''HTTP/1.1'', [], [], ''Host: a'', ''x-a: 2'']\<rparr>))"
    by (simp add: http_set_field_def validate_guest_field_def http_findhdr_def http_demo_def HDR_FIRST_def
        field_matches_def lower_def Let_def char_of_def bit_0)
  ultimately show ?thesis
    using http_set_refines [of api_demo http_demo "''x-a: 2''"] by simp
qed

text \<open>
  The list of illegal characters of a header name ends at the null byte in its third place: a
  name of a legal length is accepted exactly when it has no colon, no space and no null byte, so
  that tabs, carriage returns and line feeds, which the list names, are accepted.
\<close>

theorem illegal_chars_cut_short:
  assumes "0 < length s" and "length s < 0x10000"
  shows "validate_guest_field_key s = Inr () \<longleftrightarrow> set s \<inter> {CHR '':'', CHR '' '', CHR 0x00} = {}"
  using assms by (auto simp: validate_guest_field_key_def list_ex_iff strchr_found_def illegal_chars_def)

theorem illegal_chars_cut_short_witness:
  "validate_guest_field_key [CHR 0x0D, CHR 0x0A, CHR 0x09] = Inr () \<and>
   {CHR 0x0D, CHR 0x0A, CHR 0x09} \<subseteq> set illegal_chars"
  using illegal_chars_cut_short [of "[CHR 0x0D, CHR 0x0A, CHR 0x09]"] by (simp add: illegal_chars_def)

end
