(* ===== verification/Delivery.thy ===== *)
theory Delivery
  imports Prelude
begin

text \<open>
  The contract of a fetch processor: Varnish asks it again and again for the next bytes of a body, with
  some room each time, until it says that the body has ended. Two of the program's bodies are delivered
  this way, the response of a program and the answer to a live update; that the whole body arrives,
  however the transfer is divided, is proved here once.
\<close>

text \<open>What Varnish receives when it pulls with the given rooms, and whether the end was announced.\<close>

fun drain :: "(nat \<Rightarrow> 's \<Rightarrow> ('s \<times> 'a list \<times> bool) option) \<Rightarrow> 's \<Rightarrow> nat list \<Rightarrow> ('a list \<times> bool) option" where
  "drain pull s [] = Some ([], False)"
| "drain pull s (room # rooms) =
     (case pull room s of
        None \<Rightarrow> None
      | Some (s', out, ended) \<Rightarrow>
          if ended then Some (out, True) else map_option (\<lambda>(out', e). (out @ out', e)) (drain pull s' rooms))"

text \<open>
  A pull returns the next bytes of what is left, fills the room it has unless the body ends, and says
  that it ends only when nothing is left.
\<close>

locale fetch_processor =
  fixes pull :: "nat \<Rightarrow> 's \<Rightarrow> ('s \<times> 'a list \<times> bool) option"
    and left :: "'s \<Rightarrow> 'a list"
    and ready :: "'s \<Rightarrow> bool"
  assumes pull_law: "ready s \<Longrightarrow> \<exists>s' out ended. pull room s = Some (s', out, ended) \<and> out @ left s' = left s \<and>
    (if ended then left s' = [] else ready s' \<and> length out = room)"
begin

lemma drain_spec:
  assumes "ready s"
  obtains (all) "drain pull s rooms = Some (left s, True)"
  | (part) "drain pull s rooms = Some (take (sum_list rooms) (left s), False)" "sum_list rooms \<le> length (left s)"
proof -
  have "drain pull s rooms = Some (left s, True) \<or>
      drain pull s rooms = Some (take (sum_list rooms) (left s), False) \<and> sum_list rooms \<le> length (left s)"
    using assms
  proof (induction rooms arbitrary: s)
    case (Cons room rooms)
    from pull_law [OF Cons.prems] obtain s' out ended where p: "pull room s = Some (s', out, ended)" and l: "out @ left s' = left s"
      and e: "if ended then left s' = [] else ready s' \<and> length out = room" by blast
    show ?case
    proof (cases ended)
      case True
      then show ?thesis using p l e by simp
    next
      case False
      then have "ready s'" "length out = room" using e by simp_all
      then show ?thesis using Cons.IH [of s'] False p by (auto simp flip: l)
    qed
  qed simp
  then show ?thesis using that by blast
qed

text \<open>With more room than there are bytes, everything is delivered and the end is announced.\<close>

lemma drain_all: "\<lbrakk>ready s; length (left s) < sum_list rooms\<rbrakk> \<Longrightarrow> drain pull s rooms = Some (left s, True)"
  by (erule drain_spec [of _ rooms]) simp_all

end

text \<open>A processor that announces the end together with the last bytes needs no further room.\<close>

locale prompt_processor = fetch_processor pull left ready
  for pull :: "nat \<Rightarrow> 's \<Rightarrow> ('s \<times> 'a list \<times> bool) option" and left and ready +
  assumes prompt: "\<lbrakk>ready s; pull room s = Some (s', out, ended); left s' = []\<rbrakk> \<Longrightarrow> ended"
begin

lemma drain_exact:
  "\<lbrakk>ready s; length (left s) \<le> sum_list rooms; rooms \<noteq> []\<rbrakk> \<Longrightarrow> drain pull s rooms = Some (left s, True)"
proof (induction rooms arbitrary: s)
  case (Cons room rooms)
  from pull_law [OF Cons.prems(1)] obtain s' out ended where p: "pull room s = Some (s', out, ended)" and l: "out @ left s' = left s"
    and e: "if ended then left s' = [] else ready s' \<and> length out = room" by blast
  show ?case
  proof (cases ended)
    case True
    then show ?thesis using p l e by simp
  next
    case False
    then have more: "left s' \<noteq> []" using prompt [OF Cons.prems(1) p] by blast
    have "length (left s') \<le> sum_list rooms" using Cons.prems(2) False e by (simp flip: l)
    moreover from this more have "rooms \<noteq> []" by auto
    ultimately have "drain pull s' rooms = Some (left s', True)" using Cons.IH False e by simp
    then show ?thesis using False p by (simp flip: l)
  qed
qed simp

end

end
