(* ===== verification/Backend_Chain.thy ===== *)
theory Backend_Chain
  imports Delivery
begin

text \<open>
  The C side of a backend request (\<^verbatim>\<open>src/kvm/kvm_backend.c\<close>, \<^verbatim>\<open>src/kvm/to_string.c\<close>,
  \<^verbatim>\<open>src/kvm/kvm_streaming_backend.c\<close>): the thread local program chain, the loop that passes the
  result of one program to the next, the reservations it takes and gives back on the way, and the
  fetch processors that copy the response into the cache. What the called functions return is an
  environment, a function of the position in the chain; what the code does with the reservations is
  the trace it leaves. A reservation is named by the chain position at which it was made, and a
  request starts without one of its own.
\<close>

section \<open>The program chain\<close>

text \<open>\<open>struct kvm_chain_item\<close>; a program is a number, the special function is the self request.\<close>

record chain_item =
  ci_tenant :: nat
  ci_special :: bool
  ci_method :: string
  ci_url :: string
  ci_argument :: string
  ci_content_type :: string
  ci_break_status :: int
  ci_soft_reset :: int

definition KVM_PROGRAM_CHAIN_ENTRIES :: nat where
  "KVM_PROGRAM_CHAIN_ENTRIES = 16"

text \<open>The parts of the request the chain reads: the method and content type of the first HTTP object found.\<close>

record vcl_ctx =
  vc_backend_fetch :: bool
  vc_http :: "(string \<times> string option) option"

definition or_empty :: "string option \<Rightarrow> string" where
  "or_empty s = (case s of None \<Rightarrow> [] | Some x \<Rightarrow> x)"

text \<open>\<open>kvm_init_chain\<close>: the thread local queue, and the index of the new item.\<close>

definition kvm_init_chain ::
    "vcl_ctx \<Rightarrow> nat \<Rightarrow> string option \<Rightarrow> string option \<Rightarrow> chain_item list \<Rightarrow> nat option \<times> chain_item list" where
  "kvm_init_chain ctx tenant url arg q =
     (if length q \<ge> KVM_PROGRAM_CHAIN_ENTRIES then (None, q)
      else
        let item = \<lparr>ci_tenant = tenant, ci_special = False, ci_method = [], ci_url = or_empty url,
              ci_argument = or_empty arg, ci_content_type = [], ci_break_status = 1000, ci_soft_reset = 0\<rparr>
        in if q = [] then
             case vc_http ctx of
               None \<Rightarrow> (None, q)
             | Some (method, ctype) \<Rightarrow>
                 (Some 0, [item\<lparr>ci_method := method, ci_content_type := or_empty ctype\<rparr>])
           else (Some (length q), q @ [item]))"

definition kvm_init_fetch ::
    "string option \<Rightarrow> string option \<Rightarrow> chain_item list \<Rightarrow> nat option \<times> chain_item list" where
  "kvm_init_fetch url arg q =
     (case url of
        None \<Rightarrow> (None, q)
      | Some u \<Rightarrow>
          if q \<noteq> [] then (None, q)
          else (Some 0, [\<lparr>ci_tenant = 0, ci_special = True, ci_method = [], ci_url = u,
                 ci_argument = or_empty arg, ci_content_type = [], ci_break_status = 0, ci_soft_reset = 0\<rparr>]))"

text \<open>\<open>vmod_chain\<close>; \<open>lookup\<close> looks a program up.\<close>

definition vmod_chain ::
    "(string \<Rightarrow> nat option) \<Rightarrow> vcl_ctx \<Rightarrow> string \<Rightarrow> string option \<Rightarrow> string option \<Rightarrow> int \<Rightarrow> chain_item list \<Rightarrow>
     bool \<times> chain_item list" where
  "vmod_chain lookup ctx program url arg break_status q =
     (if \<not> vc_backend_fetch ctx then (False, q)
      else if program = ''fetch'' \<and> (case url of Some (c # cs) \<Rightarrow> c = CHR ''/'' | _ \<Rightarrow> False) then
        (case kvm_init_fetch url arg q of (None, q') \<Rightarrow> (False, q') | (Some i, q') \<Rightarrow> (True, q'))
      else case lookup program of
        None \<Rightarrow> (False, q)
      | Some tenant \<Rightarrow>
          (case kvm_init_chain ctx tenant url arg q of
             (None, q') \<Rightarrow> (False, q')
           | (Some i, q') \<Rightarrow> (True, q'[i := (q' ! i)\<lparr>ci_break_status := break_status\<rparr>])))"

text \<open>
  \<open>vmod_vm_backend\<close>: on success the chain moves into the backend object and the queue is emptied.
  \<open>ws\<close> is whether the workspace has room for the object.
\<close>

definition vmod_vm_backend ::
    "(string \<Rightarrow> nat option) \<Rightarrow> bool \<Rightarrow> vcl_ctx \<Rightarrow> string \<Rightarrow> string option \<Rightarrow> string option \<Rightarrow> chain_item list \<Rightarrow>
     chain_item list option \<times> chain_item list" where
  "vmod_vm_backend lookup ws ctx program url arg q =
     (if \<not> vc_backend_fetch ctx then (None, q)
      else if \<not> ws then (None, q)
      else case lookup program of
        None \<Rightarrow> (None, q)
      | Some tenant \<Rightarrow>
          (case kvm_init_chain ctx tenant url arg q of
             (None, q') \<Rightarrow> (None, q')
           | (Some i, q') \<Rightarrow> (Some q', [])))"

section \<open>Traces\<close>

datatype cev = CReserve nat | CFree nat | CRead nat | CCall nat | CChunkFree

datatype cfault = FreeNotHeld nat | UseNotHeld nat

text \<open>Replaying a trace: the reservations held at its end, or the first event on a reservation that is not held.\<close>

fun replay :: "cev list \<Rightarrow> nat list \<Rightarrow> cfault + nat list" where
  "replay [] held = Inr held"
| "replay (CReserve i # tr) held = replay tr (i # held)"
| "replay (CFree i # tr) held = (if i \<in> set held then replay tr (remove1 i held) else Inl (FreeNotHeld i))"
| "replay (CRead i # tr) held = (if i \<in> set held then replay tr held else Inl (UseNotHeld i))"
| "replay (CCall i # tr) held = (if i \<in> set held then replay tr held else Inl (UseNotHeld i))"
| "replay (CChunkFree # tr) held = replay tr held"

lemma replay_append:
  "replay (tr @ tr') held = (case replay tr held of Inl f \<Rightarrow> Inl f | Inr held' \<Rightarrow> replay tr' held')"
  by (induction tr held rule: replay.induct) auto

section \<open>The backend loop\<close>

text \<open>Where the buffers of the result point to.\<close>

datatype owner = OwnNone | OwnVm nat | OwnChunk | OwnWorkspace

text \<open>The request's private data: the slot and the function that frees it.\<close>

datatype priv = PrivNone | PrivVm nat | PrivReserved nat

record cstate =
  cs_last_slot :: "nat option"
  cs_last_tenant :: "nat option"
  cs_chunk :: bool
  cs_priv :: priv
  cs_owner :: owner
  cs_status :: int
  cs_content_length :: nat
  cs_trace :: "cev list"

text \<open>
  What the called functions return at a chain position: whether a temporary or a full reservation
  succeeds, whether the body arrives, whether the transfer to the next program succeeds, what a
  self request and a program call produce (result code or status, and content length), and whether
  the workspace has room for the structures and for the copy of the content.
\<close>

record chain_env =
  ce_reserve :: "nat \<Rightarrow> bool"
  ce_body :: bool
  ce_transfer :: "nat \<Rightarrow> bool"
  ce_self :: "nat \<Rightarrow> int \<times> int \<times> nat"
  ce_call :: "nat \<Rightarrow> int \<times> nat"
  ce_ws_post :: bool
  ce_ws_result :: bool
  ce_ws_copy :: bool
  ce_ws_htc :: bool

definition log_ev :: "cev \<Rightarrow> cstate \<Rightarrow> cstate" where
  "log_ev e st = st\<lparr>cs_trace := cs_trace st @ [e]\<rparr>"

text \<open>\<open>kvm_free_reserved_machine\<close> returns at once when the context or the slot is null.\<close>

definition kvm_free_reserved_machine :: "bool \<Rightarrow> nat option \<Rightarrow> cstate \<Rightarrow> cstate" where
  "kvm_free_reserved_machine has_ctx slot st =
     (case slot of None \<Rightarrow> st | Some s \<Rightarrow> if has_ctx then log_ev (CFree s) st else st)"

definition read_result :: "cstate \<Rightarrow> cstate" where
  "read_result st = (case cs_owner st of OwnVm s \<Rightarrow> log_ev (CRead s) st | _ \<Rightarrow> st)"

definition free_chunk :: "cstate \<Rightarrow> cstate" where
  "free_chunk st = (if cs_chunk st then (log_ev CChunkFree st)\<lparr>cs_chunk := False\<rparr> else st)"

definition loop_exit_actions :: "cstate \<Rightarrow> cstate" where
  "loop_exit_actions st =
     (let st = free_chunk st in kvm_free_reserved_machine True (cs_last_slot st) st)"

text \<open>\<open>kvm_early_slot_release\<close>: the free function is called without a context.\<close>

definition kvm_early_slot_release :: "cstate \<Rightarrow> cstate" where
  "kvm_early_slot_release st =
     (case cs_priv st of
        PrivNone \<Rightarrow> st
      | PrivVm s \<Rightarrow> log_ev (CFree s) st
      | PrivReserved s \<Rightarrow> kvm_free_reserved_machine False (Some s) st)\<lparr>cs_priv := PrivNone\<rparr>"

text \<open>Varnish frees the private data when the task ends, with a context.\<close>

definition task_end :: "cstate \<Rightarrow> cstate" where
  "task_end st =
     (case cs_priv st of
        PrivNone \<Rightarrow> st
      | PrivVm s \<Rightarrow> log_ev (CFree s) st
      | PrivReserved s \<Rightarrow> kvm_free_reserved_machine True (Some s) st)\<lparr>cs_priv := PrivNone\<rparr>"

text \<open>Taking a slot for a chain item: the last reservation, a temporary one, or a full one.\<close>

definition chain_acquire :: "chain_env \<Rightarrow> nat \<Rightarrow> bool \<Rightarrow> chain_item \<Rightarrow> cstate \<Rightarrow> nat option \<times> cstate" where
  "chain_acquire E index is_temporary it st =
     (case cs_last_slot st of
        Some slot \<Rightarrow>
          if cs_last_tenant st = Some (ci_tenant it) then
            (Some slot,
             if is_temporary then st\<lparr>cs_last_slot := None\<rparr>
             else st\<lparr>cs_last_slot := None, cs_priv := PrivReserved slot\<rparr>)
          else if ce_reserve E index then
            (Some index, (log_ev (CReserve index) st)\<lparr>cs_priv := (if is_temporary then cs_priv st else PrivVm index)\<rparr>)
          else (None, st)
      | None \<Rightarrow>
          if ce_reserve E index then
            (Some index, (log_ev (CReserve index) st)\<lparr>cs_priv := (if is_temporary then cs_priv st else PrivVm index)\<rparr>)
          else (None, st))"

datatype loop_exit = LoopDone | LoopBreak | LoopFail

text \<open>The call of the program, after the input has been transferred.\<close>

definition chain_call :: "chain_env \<Rightarrow> nat \<Rightarrow> bool \<Rightarrow> chain_item \<Rightarrow> nat \<Rightarrow> cstate \<Rightarrow> cstate \<times> loop_exit" where
  "chain_call E index is_temporary it slot st =
     (let (status, clen) = ce_call E index;
          st = (log_ev (CCall slot) st)\<lparr>cs_last_slot := Some slot, cs_last_tenant := Some (ci_tenant it),
                 cs_owner := OwnVm slot, cs_status := status, cs_content_length := clen\<rparr>
      in if status \<ge> ci_break_status it
         then ((if is_temporary then kvm_free_reserved_machine True (Some slot) st else st), LoopBreak)
         else (st, LoopDone))"

text \<open>The body of the \<open>for\<close> loop of \<open>kvmbe_gethdrs\<close>; \<open>LoopDone\<close> continues with the next item.\<close>

definition gethdrs_item :: "chain_env \<Rightarrow> bool \<Rightarrow> nat \<Rightarrow> bool \<Rightarrow> chain_item \<Rightarrow> cstate \<Rightarrow> cstate \<times> loop_exit" where
  "gethdrs_item E is_post index is_temporary it st =
     (if ci_special it then
        let (res, status, clen) = ce_self E index;
            st = st\<lparr>cs_owner := OwnChunk, cs_status := status, cs_content_length := clen\<rparr>
        in if res < 0 \<or> status \<ge> 400 then (st, LoopBreak) else (st\<lparr>cs_chunk := True\<rparr>, LoopDone)
      else
        case chain_acquire E index is_temporary it st of
          (None, st) \<Rightarrow> (loop_exit_actions st, LoopFail)
        | (Some slot, st) \<Rightarrow>
            if is_post \<and> index = 0 then
              (if ce_body E then chain_call E index is_temporary it slot (st\<lparr>cs_last_slot := None\<rparr>)
               else ((if is_temporary then kvm_free_reserved_machine True (Some slot) st else st), LoopFail))
            else if index > 0 then
              (let st = read_result st in
               if ce_transfer E index then
                 chain_call E index is_temporary it slot
                   ((kvm_free_reserved_machine True (cs_last_slot st) st)\<lparr>cs_last_slot := None\<rparr>)
               else
                 (let st = loop_exit_actions st in
                  ((if is_temporary then kvm_free_reserved_machine True (Some slot) st else st), LoopFail)))
            else chain_call E index is_temporary it slot (st\<lparr>cs_last_slot := None\<rparr>))"

fun gethdrs_loop :: "chain_env \<Rightarrow> bool \<Rightarrow> nat \<Rightarrow> chain_item list \<Rightarrow> cstate \<Rightarrow> cstate \<times> loop_exit" where
  "gethdrs_loop E is_post index [] st = (st, LoopDone)"
| "gethdrs_loop E is_post index (it # rest) st =
     (case gethdrs_item E is_post index (rest \<noteq> []) it st of
        (st', LoopDone) \<Rightarrow> gethdrs_loop E is_post (index + 1) rest st'
      | r \<Rightarrow> r)"

definition cstate_new :: cstate where
  "cstate_new = \<lparr>cs_last_slot = None, cs_last_tenant = None, cs_chunk = False, cs_priv = PrivNone,
     cs_owner = OwnNone, cs_status = 0, cs_content_length = 0, cs_trace = []\<rparr>"

definition BACKEND_EARLY_RELEASE_SIZE :: nat where
  "BACKEND_EARLY_RELEASE_SIZE = 16384"

text \<open>After the loop: short results are copied to the workspace and the VM is let go.\<close>

definition gethdrs_early_release :: "chain_env \<Rightarrow> cstate \<Rightarrow> cstate" where
  "gethdrs_early_release E st =
     (if cs_last_slot st \<noteq> None \<and> cs_content_length st < BACKEND_EARLY_RELEASE_SIZE then
        let st = (if cs_content_length st = 0 then st\<lparr>cs_owner := OwnNone\<rparr>
                  else if ce_ws_copy E then (read_result st)\<lparr>cs_owner := OwnWorkspace\<rparr> else st)
        in kvm_early_slot_release st
      else st)"

text \<open>\<open>kvmbe_gethdrs\<close>: the final state and the result code. A status below 200 becomes 500.\<close>

definition kvmbe_gethdrs :: "chain_env \<Rightarrow> bool \<Rightarrow> chain_item list \<Rightarrow> cstate \<times> int" where
  "kvmbe_gethdrs E is_post chain =
     (if (is_post \<or> length chain > 1) \<and> \<not> ce_ws_post E then (cstate_new, -1)
      else if \<not> ce_ws_result E then (cstate_new, -1)
      else case gethdrs_loop E is_post 0 chain cstate_new of
        (st, LoopFail) \<Rightarrow> (st, -1)
      | (st, _) \<Rightarrow>
          let st = free_chunk (gethdrs_early_release E st);
              st = (if cs_status st < 200 then st\<lparr>cs_status := 500\<rparr> else st)
          in (st, if ce_ws_htc E then 0 else -1))"

text \<open>The whole life of a backend request: headers, the body copied by the fetch processor, the end of the task.\<close>

definition backend_request :: "chain_env \<Rightarrow> bool \<Rightarrow> chain_item list \<Rightarrow> cev list" where
  "backend_request E is_post chain =
     (case kvmbe_gethdrs E is_post chain of
        (st, res) \<Rightarrow>
          cs_trace (task_end (if res = 0 \<and> cs_content_length st > 0 then read_result st else st)))"

section \<open>Lemmas\<close>

lemma log_ev_simps [simp]:
  "cs_trace (log_ev e st) = cs_trace st @ [e]" "cs_last_slot (log_ev e st) = cs_last_slot st"
  "cs_last_tenant (log_ev e st) = cs_last_tenant st" "cs_chunk (log_ev e st) = cs_chunk st"
  "cs_priv (log_ev e st) = cs_priv st" "cs_owner (log_ev e st) = cs_owner st"
  "cs_status (log_ev e st) = cs_status st" "cs_content_length (log_ev e st) = cs_content_length st"
  by (simp_all add: log_ev_def)

definition opt_list :: "'a option \<Rightarrow> 'a list" where
  "opt_list x = (case x of None \<Rightarrow> [] | Some s \<Rightarrow> [s])"

definition priv_list :: "priv \<Rightarrow> nat list" where
  "priv_list p = (case p of PrivNone \<Rightarrow> [] | PrivVm s \<Rightarrow> [s] | PrivReserved s \<Rightarrow> [s])"

lemma opt_list_simps [simp]: "opt_list None = []" "opt_list (Some s) = [s]"
  by (simp_all add: opt_list_def)

lemma priv_list_simps [simp]:
  "priv_list PrivNone = []" "priv_list (PrivVm s) = [s]" "priv_list (PrivReserved s) = [s]"
  by (simp_all add: priv_list_def)

abbreviation held :: "cstate \<Rightarrow> cfault + nat list" where
  "held st \<equiv> replay (cs_trace st) []"

lemma held_log [simp]:
  "held (log_ev e st) = (case held st of Inl f \<Rightarrow> Inl f | Inr h \<Rightarrow> replay [e] h)"
  by (simp add: replay_append)

lemma free_chunk_simps [simp]:
  "held (free_chunk st) = held st" "cs_last_slot (free_chunk st) = cs_last_slot st"
  "cs_priv (free_chunk st) = cs_priv st" "cs_owner (free_chunk st) = cs_owner st"
  "cs_content_length (free_chunk st) = cs_content_length st" "cs_status (free_chunk st) = cs_status st"
  by (auto simp: free_chunk_def replay_append split: sum.splits)

text \<open>Between two items the only reservation is the last one, and the result lies in its VM.\<close>

definition between :: "cstate \<Rightarrow> bool" where
  "between st \<longleftrightarrow> held st = Inr (opt_list (cs_last_slot st)) \<and> cs_priv st = PrivNone \<and>
     (\<forall>s. cs_owner st = OwnVm s \<longrightarrow> cs_last_slot st = Some s)"

text \<open>After the loop the only reservation is the one of the request, and the result lies in its VM or is empty.\<close>

definition settled :: "cstate \<Rightarrow> bool" where
  "settled st \<longleftrightarrow> held st = Inr (priv_list (cs_priv st)) \<and>
     (\<forall>s. cs_owner st = OwnVm s \<longrightarrow> cs_content_length st = 0 \<or> s \<in> set (priv_list (cs_priv st)))"

lemma between_new: "between cstate_new"
  by (simp add: between_def cstate_new_def)

lemma chain_acquire_None:
  "\<lbrakk>between st; chain_acquire E i tmp it st = (None, st')\<rbrakk> \<Longrightarrow> st' = st"
  by (auto simp: chain_acquire_def split: option.splits if_splits)

text \<open>What is held once a slot has been acquired: that slot and the previous one, unless they are the same.\<close>

lemma chain_acquire_Some:
  assumes "between st" and "chain_acquire E i tmp it st = (Some slot, st')"
  shows "held st' = Inr (slot # opt_list (cs_last_slot st'))"
    and "cs_owner st' = cs_owner st" and "cs_content_length st' = cs_content_length st"
    and "\<forall>s. cs_owner st' = OwnVm s \<longrightarrow> s \<in> set (slot # opt_list (cs_last_slot st'))"
    and "cs_priv st' = PrivNone \<or> \<not> tmp" and "\<not> tmp \<longrightarrow> priv_list (cs_priv st') = [slot]"
  using assms by (auto simp: chain_acquire_def between_def replay_append split: option.splits if_splits)

lemma chain_call_exit:
  assumes "held st = Inr [slot]" and "cs_last_slot st = None" and "chain_call E i tmp it slot st = (st', ex)"
    and "tmp \<longrightarrow> cs_priv st = PrivNone" and "\<not> tmp \<longrightarrow> priv_list (cs_priv st) = [slot]"
  shows "ex \<noteq> LoopFail" and "tmp \<and> ex = LoopDone \<longrightarrow> between st'"
    and "\<not> tmp \<or> ex = LoopBreak \<and> snd (ce_call E i) = 0 \<longrightarrow> settled st'"
  using assms
  by (auto simp: chain_call_def Let_def between_def settled_def kvm_free_reserved_machine_def replay_append
      split: prod.splits if_splits)

lemma loop_exit_held:
  "held st = Inr (h @ opt_list (cs_last_slot st)) \<Longrightarrow> set h \<inter> set (opt_list (cs_last_slot st)) = {} \<Longrightarrow>
     held (loop_exit_actions st) = Inr h \<and> cs_priv (loop_exit_actions st) = cs_priv st"
  by (cases "cs_last_slot st")
    (auto simp: loop_exit_actions_def Let_def kvm_free_reserved_machine_def replay_append remove1_append)

lemma loop_exit_held1:
  "held st = Inr (slot # opt_list (cs_last_slot st)) \<Longrightarrow>
     held (loop_exit_actions st) = Inr [slot] \<and> cs_priv (loop_exit_actions st) = cs_priv st"
  by (cases "cs_last_slot st")
    (auto simp: loop_exit_actions_def Let_def kvm_free_reserved_machine_def replay_append)

lemma read_result_held:
  assumes "held st = Inr h" and "\<forall>s. cs_owner st = OwnVm s \<longrightarrow> s \<in> set h"
  shows "held (read_result st) = Inr h"
  using assms by (cases "cs_owner st") (auto simp: read_result_def replay_append)

lemma read_result_simps [simp]:
  "cs_last_slot (read_result st) = cs_last_slot st" "cs_priv (read_result st) = cs_priv st"
  "cs_owner (read_result st) = cs_owner st" "cs_content_length (read_result st) = cs_content_length st"
  by (auto simp: read_result_def split: owner.splits)

lemma free_last_held:
  "held st = Inr (slot # opt_list (cs_last_slot st)) \<Longrightarrow>
     held ((kvm_free_reserved_machine True (cs_last_slot st) st)\<lparr>cs_last_slot := None\<rparr>) = Inr [slot]"
  by (cases "cs_last_slot st") (auto simp: kvm_free_reserved_machine_def replay_append)

lemma free_reserved_simps [simp]:
  "cs_priv (kvm_free_reserved_machine b s st) = cs_priv st"
  "cs_owner (kvm_free_reserved_machine b s st) = cs_owner st"
  "cs_content_length (kvm_free_reserved_machine b s st) = cs_content_length st"
  by (auto simp: kvm_free_reserved_machine_def split: option.splits)

text \<open>A failed item gives back everything except a reservation the request keeps.\<close>

lemma fail_held:
  assumes "held st = Inr [slot]" and "tmp \<longrightarrow> cs_priv st = PrivNone" and "\<not> tmp \<longrightarrow> priv_list (cs_priv st) = [slot]"
  shows "held (if tmp then kvm_free_reserved_machine True (Some slot) st else st) =
     Inr (priv_list (cs_priv (if tmp then kvm_free_reserved_machine True (Some slot) st else st)))"
  using assms by (auto simp: kvm_free_reserved_machine_def replay_append)

text \<open>How an item may leave the loop.\<close>

definition item_exit_ok :: "chain_env \<Rightarrow> nat \<Rightarrow> bool \<Rightarrow> chain_item \<Rightarrow> cstate \<Rightarrow> cstate \<Rightarrow> loop_exit \<Rightarrow> bool" where
  "item_exit_ok E index tmp it st st' ex \<longleftrightarrow>
     (ex = LoopFail \<longrightarrow> held st' = Inr (priv_list (cs_priv st'))) \<and>
     (ex = LoopDone \<and> tmp \<longrightarrow> between st') \<and>
     (ex = LoopDone \<and> \<not> tmp \<and> \<not> ci_special it \<longrightarrow> settled st') \<and>
     (ex = LoopBreak \<and> \<not> ci_special it \<and> (tmp \<longrightarrow> snd (ce_call E index) = 0) \<longrightarrow> settled st') \<and>
     (ex = LoopBreak \<and> ci_special it \<and> cs_last_slot st = None \<longrightarrow> settled st')"

text \<open>How an item ends whose VM has been acquired: after the call, or with the VM given back.\<close>

lemma gethdrs_item_acquired:
  assumes b: "between st" and "\<not> ci_special it" and a: "chain_acquire E index tmp it st = (Some sl, st1)"
  shows "\<lbrakk>chain_call E index tmp it sl st2 = (st', ex); held st2 = Inr [sl]; cs_last_slot st2 = None; cs_priv st2 = cs_priv st1\<rbrakk> \<Longrightarrow>
      item_exit_ok E index tmp it st st' ex"
    and "\<lbrakk>held st2 = Inr [sl]; cs_priv st2 = cs_priv st1\<rbrakk> \<Longrightarrow>
      item_exit_ok E index tmp it st (if tmp then kvm_free_reserved_machine True (Some sl) st2 else st2) LoopFail"
proof -
  note acq = chain_acquire_Some [OF b a]
  have priv: "tmp \<longrightarrow> cs_priv st1 = PrivNone" using acq(5) by auto
  show "\<lbrakk>chain_call E index tmp it sl st2 = (st', ex); held st2 = Inr [sl]; cs_last_slot st2 = None; cs_priv st2 = cs_priv st1\<rbrakk> \<Longrightarrow>
      item_exit_ok E index tmp it st st' ex"
    using chain_call_exit [of st2 sl E index tmp it st' ex] priv acq(6) assms(2) by (auto simp: item_exit_ok_def)
  show "\<lbrakk>held st2 = Inr [sl]; cs_priv st2 = cs_priv st1\<rbrakk> \<Longrightarrow>
      item_exit_ok E index tmp it st (if tmp then kvm_free_reserved_machine True (Some sl) st2 else st2) LoopFail"
    using fail_held [of st2 sl tmp] priv acq(6) by (simp add: item_exit_ok_def)
qed

lemma gethdrs_item_exit:
  assumes b: "between st" and first: "index = 0 \<longrightarrow> cs_last_slot st = None"
    and r: "gethdrs_item E is_post index tmp it st = (st', ex)"
  shows "item_exit_ok E index tmp it st st' ex"
proof (cases "ci_special it")
  case True
  with r b show ?thesis
    by (auto simp: item_exit_ok_def gethdrs_item_def Let_def between_def settled_def split: prod.splits if_splits)
next
  case False
  obtain slot st1 where a: "chain_acquire E index tmp it st = (slot, st1)" by (cases "chain_acquire E index tmp it st")
  show ?thesis
  proof (cases slot)
    case None
    with a chain_acquire_None [OF b] have "st1 = st" by simp
    with None a r False b loop_exit_held [of st "[]"] show ?thesis
      by (auto simp: item_exit_ok_def gethdrs_item_def between_def)
  next
    case (Some sl)
    note acq = chain_acquire_Some [OF b a [unfolded Some]] and item = gethdrs_item_acquired [OF b False a [unfolded Some]]
    have first1: "index = 0 \<Longrightarrow> held st1 = Inr [sl]"
      using acq(1) first a Some by (auto simp: chain_acquire_def split: if_splits)
    have h: "held (read_result st1) = Inr (sl # opt_list (cs_last_slot (read_result st1)))"
      using read_result_held [OF acq(1,4)] by simp
    consider (call) "index = 0" "is_post \<longrightarrow> ce_body E" | (nobody) "is_post" "index = 0" "\<not> ce_body E"
      | (next_ok) "index > 0" "ce_transfer E index" | (next_fail) "index > 0" "\<not> ce_transfer E index" by auto
    then show ?thesis
    proof cases
      case call
      with r a Some False have "chain_call E index tmp it sl (st1\<lparr>cs_last_slot := None\<rparr>) = (st', ex)"
        by (auto simp: gethdrs_item_def split: if_splits)
      then show ?thesis by (rule item(1)) (use first1 call in simp_all)
    next
      case nobody
      with r a Some False item(2) [of st1] first1 show ?thesis by (auto simp: gethdrs_item_def)
    next
      case next_ok
      with r a Some False have "chain_call E index tmp it sl
          ((kvm_free_reserved_machine True (cs_last_slot (read_result st1)) (read_result st1))\<lparr>cs_last_slot := None\<rparr>) = (st', ex)"
        by (simp add: gethdrs_item_def)
      then show ?thesis by (rule item(1)) (use free_last_held [OF h] in simp_all)
    next
      case next_fail
      with r a Some False loop_exit_held1 [OF h] item(2) [of "loop_exit_actions (read_result st1)"] show ?thesis
        by (auto simp: gethdrs_item_def Let_def)
    qed
  qed
qed

text \<open>Chains as the VCL functions build them: a self request only first, a program last.\<close>

definition chain_wf :: "chain_item list \<Rightarrow> bool" where
  "chain_wf chain \<longleftrightarrow> length chain \<le> KVM_PROGRAM_CHAIN_ENTRIES \<and> (\<forall>it \<in> set (tl chain). \<not> ci_special it)"

text \<open>No program but the last ends the chain early with a non-empty response.\<close>

definition quiet_breaks :: "chain_env \<Rightarrow> nat \<Rightarrow> chain_item list \<Rightarrow> bool" where
  "quiet_breaks E index items \<longleftrightarrow>
     (\<forall>k. Suc k < length items \<longrightarrow> ci_break_status (items ! k) \<le> fst (ce_call E (index + k)) \<longrightarrow>
        snd (ce_call E (index + k)) = 0)"

lemma chain_call_break:
  "chain_call E index tmp it sl st = (st', LoopBreak) \<Longrightarrow> ci_break_status it \<le> fst (ce_call E index)"
  by (auto simp: chain_call_def Let_def split: prod.splits if_splits)

lemma gethdrs_item_break:
  "\<lbrakk>gethdrs_item E p index tmp it st = (st', LoopBreak); \<not> ci_special it\<rbrakk>
     \<Longrightarrow> ci_break_status it \<le> fst (ce_call E index)"
  by (auto simp: gethdrs_item_def Let_def dest: chain_call_break split: prod.splits if_splits option.splits)

text \<open>An item that is not completed leaves the loop with everything held accounted for.\<close>

lemma gethdrs_item_stops:
  assumes "between st" and "index = 0 \<longrightarrow> cs_last_slot st = None"
    and i: "gethdrs_item E p index (rest \<noteq> []) it st = (st', ex)" and "ex \<noteq> LoopDone"
    and "index > 0 \<longrightarrow> (\<forall>it \<in> set (it # rest). \<not> ci_special it)" and "quiet_breaks E index (it # rest)"
  shows "if ex = LoopFail then held st' = Inr (priv_list (cs_priv st')) else settled st'"
proof (cases ex)
  case LoopBreak
  note ok = gethdrs_item_exit [OF assms(1,2) i]
  have "ci_special it \<longrightarrow> cs_last_slot st = None" using assms(2,5) by auto
  moreover have "snd (ce_call E index) = 0" if "rest \<noteq> []" "\<not> ci_special it"
    using that gethdrs_item_break [OF i [unfolded LoopBreak]] assms(6)
    unfolding quiet_breaks_def by (auto dest: spec [of _ 0])
  ultimately show ?thesis using ok LoopBreak by (cases "ci_special it") (auto simp: item_exit_ok_def)
qed (use gethdrs_item_exit [OF assms(1,2) i] assms(4) in \<open>simp_all add: item_exit_ok_def\<close>)

lemma gethdrs_loop_exit:
  assumes "between st" and "index = 0 \<longrightarrow> cs_last_slot st = None"
    and "\<forall>it \<in> set (tl items). \<not> ci_special it" and "index > 0 \<longrightarrow> (\<forall>it \<in> set items. \<not> ci_special it)"
    and "items \<noteq> []" and "\<not> ci_special (last items)" and "quiet_breaks E index items"
    and "gethdrs_loop E p index items st = (st', ex)"
  shows "if ex = LoopFail then held st' = Inr (priv_list (cs_priv st')) else settled st'"
  using assms
proof (induction items arbitrary: index st)
  case Nil
  then show ?case by simp
next
  case (Cons it rest)
  obtain st1 ex1 where i: "gethdrs_item E p index (rest \<noteq> []) it st = (st1, ex1)"
    by (cases "gethdrs_item E p index (rest \<noteq> []) it st")
  note ok = gethdrs_item_exit [OF Cons.prems(1,2) i]
  show ?case
  proof (cases "ex1 = LoopDone")
    case True
    with i Cons.prems(8) have r: "gethdrs_loop E p (Suc index) rest st1 = (st', ex)" by simp
    show ?thesis
    proof (cases "rest = []")
      case True
      with r \<open>ex1 = LoopDone\<close> ok Cons.prems(6) show ?thesis by (auto simp: item_exit_ok_def)
    next
      case False
      with ok \<open>ex1 = LoopDone\<close> have b: "between st1" by (simp add: item_exit_ok_def)
      have q: "quiet_breaks E (Suc index) rest"
        using Cons.prems(7) unfolding quiet_breaks_def by (auto dest: spec [of _ "Suc _"])
      show ?thesis
        by (rule Cons.IH [OF b _ _ _ False _ q r]) (use Cons.prems(3,6) False in \<open>auto dest: list.set_sel(2)\<close>)
    qed
  next
    case False
    with i Cons.prems(8) have r: "st' = st1" "ex = ex1" by (auto split: loop_exit.splits)
    then show ?thesis using gethdrs_item_stops [OF Cons.prems(1,2) i False] Cons.prems(4,7) by simp
  qed
qed

text \<open>The request only keeps a reservation that was made for an earlier position when the last two programs are the same.\<close>

lemma chain_acquire_priv:
  "\<lbrakk>chain_acquire E index tmp it st = (sl, st1); cs_priv st = PrivNone\<rbrakk> \<Longrightarrow>
     (tmp \<longrightarrow> cs_priv st1 = PrivNone) \<and>
     (cs_priv st1 = PrivReserved s \<longrightarrow> \<not> tmp \<and> cs_last_tenant st = Some (ci_tenant it))"
  by (auto simp: chain_acquire_def split: option.splits if_splits)

lemma loop_exit_priv [simp]: "cs_priv (loop_exit_actions st) = cs_priv st"
  by (simp add: loop_exit_actions_def Let_def)

lemma chain_call_priv: "chain_call E index tmp it sl st = (st', ex) \<Longrightarrow>
    cs_priv st' = cs_priv st \<and> (ex = LoopDone \<longrightarrow> cs_last_tenant st' = Some (ci_tenant it))"
  by (auto simp: chain_call_def Let_def split: prod.splits if_splits)

lemma gethdrs_item_program:
  "\<lbrakk>gethdrs_item E p index tmp it st = (st', ex); \<not> ci_special it; chain_acquire E index tmp it st = (sl, st1)\<rbrakk>
     \<Longrightarrow> cs_priv st' = cs_priv st1 \<and> (ex = LoopDone \<longrightarrow> cs_last_tenant st' = Some (ci_tenant it))"
  by (auto simp: gethdrs_item_def Let_def dest: chain_call_priv split: if_splits option.splits)

lemma gethdrs_item_special:
  "\<lbrakk>gethdrs_item E p index tmp it st = (st', ex); ci_special it\<rbrakk>
     \<Longrightarrow> cs_priv st' = cs_priv st \<and> cs_last_tenant st' = cs_last_tenant st"
  by (auto simp: gethdrs_item_def Let_def split: prod.splits if_splits)

lemma gethdrs_loop_reserved:
  assumes "gethdrs_loop E p index items st = (st', ex)" and "cs_priv st = PrivNone"
    and "cs_priv st' = PrivReserved s" and "\<forall>it \<in> set (tl items). \<not> ci_special it"
    and "cs_last_tenant st = None \<or> cs_last_tenant st = Some (ci_tenant prev)"
    and "\<not> ci_special (hd items) \<or> cs_last_tenant st = None"
  shows "\<exists>pre a b. prev # items = pre @ [a, b] \<and> ci_tenant a = ci_tenant b"
  using assms
proof (induction items arbitrary: index st prev)
  case Nil
  then show ?case by simp
next
  case (Cons it rest)
  obtain st1 ex1 where i: "gethdrs_item E p index (rest \<noteq> []) it st = (st1, ex1)"
    by (cases "gethdrs_item E p index (rest \<noteq> []) it st")
  obtain sl st2 where a: "chain_acquire E index (rest \<noteq> []) it st = (sl, st2)"
    by (cases "chain_acquire E index (rest \<noteq> []) it st")
  note ap = chain_acquire_priv [OF a Cons.prems(2), of s]
  show ?case
  proof (cases "ex1 = LoopDone \<and> rest \<noteq> []")
    case True
    with i Cons.prems(1) have r: "gethdrs_loop E p (Suc index) rest st1 = (st', ex)" by simp
    have p1: "cs_priv st1 = PrivNone"
      using gethdrs_item_program [OF i _ a] gethdrs_item_special [OF i] ap True Cons.prems(2) by metis
    have t1: "cs_last_tenant st1 = None \<or> cs_last_tenant st1 = Some (ci_tenant it)"
      using gethdrs_item_program [OF i _ a] gethdrs_item_special [OF i] Cons.prems(6) True by fastforce
    from True Cons.prems(4) have sp: "\<forall>x \<in> set (tl rest). \<not> ci_special x" "\<not> ci_special (hd rest)"
      by (auto dest: list.set_sel(2))
    from Cons.IH [OF r p1 Cons.prems(3) sp(1) t1] sp(2)
    obtain pre x y where "it # rest = pre @ [x, y]" "ci_tenant x = ci_tenant y" by blast
    then show ?thesis by (metis append_Cons)
  next
    case False
    with i Cons.prems(1) have "st' = st1" by (auto split: loop_exit.splits)
    with Cons.prems(2,3) gethdrs_item_program [OF i _ a] gethdrs_item_special [OF i] ap
    have "rest = []" "cs_last_tenant st = Some (ci_tenant it)" by (metis priv.distinct(3))+
    with Cons.prems(5) show ?thesis by (intro exI [of _ "[]"]) auto
  qed
qed

subsection \<open>The end of the request\<close>

text \<open>What stays reserved for good: the slot of a request that was let go without a context.\<close>

definition leaked :: "cstate \<Rightarrow> nat list" where
  "leaked st = (case cs_priv st of
     PrivReserved s \<Rightarrow> if cs_last_slot st \<noteq> None \<and> cs_content_length st < BACKEND_EARLY_RELEASE_SIZE then [s] else []
   | _ \<Rightarrow> [])"

lemma early_release_settled:
  assumes "settled st" and "ce_ws_copy E"
  shows "held (gethdrs_early_release E st) = Inr (priv_list (cs_priv (gethdrs_early_release E st)) @ leaked st)"
    and "\<forall>s. cs_owner (gethdrs_early_release E st) = OwnVm s \<longrightarrow> cs_content_length (gethdrs_early_release E st) = 0 \<or>
      s \<in> set (priv_list (cs_priv (gethdrs_early_release E st)))"
proof -
  have rd: "cs_content_length st \<noteq> 0 \<Longrightarrow> held (read_result st) = Inr (priv_list (cs_priv st))"
    using assms(1) by (intro read_result_held) (auto simp: settled_def)
  show "held (gethdrs_early_release E st) = Inr (priv_list (cs_priv (gethdrs_early_release E st)) @ leaked st)"
    using assms rd
    by (cases "cs_priv st")
      (auto simp: gethdrs_early_release_def kvm_early_slot_release_def settled_def leaked_def Let_def replay_append
        kvm_free_reserved_machine_def)
  show "\<forall>s. cs_owner (gethdrs_early_release E st) = OwnVm s \<longrightarrow> cs_content_length (gethdrs_early_release E st) = 0 \<or>
      s \<in> set (priv_list (cs_priv (gethdrs_early_release E st)))"
    using assms
    by (cases "cs_priv st")
      (auto simp: gethdrs_early_release_def kvm_early_slot_release_def settled_def Let_def
        kvm_free_reserved_machine_def split: if_splits)
qed

lemma task_end_held:
  "held st = Inr (priv_list (cs_priv st) @ l) \<Longrightarrow> held (task_end st) = Inr l"
  by (cases "cs_priv st") (auto simp: task_end_def kvm_free_reserved_machine_def replay_append)

lemma held_status [simp]: "held (st\<lparr>cs_status := v\<rparr>) = held st"
  by simp

text \<open>A reservation can only stay behind when the last two programs of the chain are the same.\<close>

lemma leaked_same_program:
  assumes "chain_wf chain" and "chain \<noteq> []" and l: "gethdrs_loop E is_post 0 chain cstate_new = (st, ex)" and "leaked st \<noteq> []"
  shows "\<exists>pre a b. chain = pre @ [a, b] \<and> ci_tenant a = ci_tenant b"
proof -
  from assms(4) obtain s where p: "cs_priv st = PrivReserved s" by (auto simp: leaked_def split: priv.splits)
  let ?it = "hd chain"
  have new: "cs_priv cstate_new = PrivNone" "cs_last_tenant cstate_new = None" by (simp_all add: cstate_new_def)
  have "\<exists>pre a b. (?it\<lparr>ci_tenant := Suc (ci_tenant ?it)\<rparr>) # chain = pre @ [a, b] \<and> ci_tenant a = ci_tenant b"
    by (rule gethdrs_loop_reserved [OF l new(1) p]) (use assms(1,2) new in \<open>simp_all add: chain_wf_def\<close>)
  then obtain pre x y where xy: "(?it\<lparr>ci_tenant := Suc (ci_tenant ?it)\<rparr>) # chain = pre @ [x, y]" "ci_tenant x = ci_tenant y"
    by blast
  then show ?thesis by (cases pre) auto
qed

lemma backend_request_held:
  assumes "chain_wf chain" and "chain \<noteq> []" and "\<not> ci_special (last chain)"
    and "quiet_breaks E 0 chain" and "ce_ws_copy E"
  shows "\<exists>lk. replay (backend_request E is_post chain) [] = Inr lk \<and>
    (lk \<noteq> [] \<longrightarrow> (\<exists>pre a b. chain = pre @ [a, b] \<and> ci_tenant a = ci_tenant b))"
proof (cases "(is_post \<or> length chain > 1) \<and> \<not> ce_ws_post E \<or> \<not> ce_ws_result E")
  case True
  then show ?thesis
    by (intro exI [of _ "[]"])
      (auto simp: backend_request_def kvmbe_gethdrs_def task_end_def cstate_new_def)
next
  case False
  obtain st ex where l: "gethdrs_loop E is_post 0 chain cstate_new = (st, ex)"
    by (cases "gethdrs_loop E is_post 0 chain cstate_new")
  have new: "between cstate_new" "cs_last_slot cstate_new = None" "cs_priv cstate_new = PrivNone" "cs_last_tenant cstate_new = None"
    by (simp_all add: between_new) (simp_all add: cstate_new_def)
  have ok: "if ex = LoopFail then held st = Inr (priv_list (cs_priv st)) else settled st"
    by (rule gethdrs_loop_exit [OF new(1) _ _ _ assms(2,3,4) l]) (use assms(1) new in \<open>simp_all add: chain_wf_def\<close>)
  show ?thesis
  proof (cases "ex = LoopFail")
    case True
    with False l have b: "backend_request E is_post chain = cs_trace (task_end st)"
      by (auto simp: backend_request_def kvmbe_gethdrs_def)
    from True ok task_end_held [of st "[]"] show ?thesis unfolding b by auto
  next
    case nf: False
    define st1 where "st1 = free_chunk (gethdrs_early_release E st)"
    define st2 where "st2 = (if cs_status st1 < 200 then st1\<lparr>cs_status := 500\<rparr> else st1)"
    from nf ok have s: "settled st" by simp
    have h2: "held st2 = Inr (priv_list (cs_priv st2) @ leaked st)"
      using early_release_settled(1) [OF s assms(5)] by (simp add: st1_def st2_def)
    have o2: "\<forall>s. cs_owner st2 = OwnVm s \<longrightarrow> cs_content_length st2 = 0 \<or> s \<in> set (priv_list (cs_priv st2))"
      using early_release_settled(2) [OF s assms(5)] by (simp add: st1_def st2_def)
    from False nf l have b: "backend_request E is_post chain =
        cs_trace (task_end (if ce_ws_htc E \<and> cs_content_length st2 > 0 then read_result st2 else st2))"
      by (cases ex) (auto simp: backend_request_def kvmbe_gethdrs_def Let_def st1_def st2_def)
    have "held (if ce_ws_htc E \<and> cs_content_length st2 > 0 then read_result st2 else st2) =
        Inr (priv_list (cs_priv (if ce_ws_htc E \<and> cs_content_length st2 > 0 then read_result st2 else st2)) @ leaked st)"
      using h2 o2 read_result_held [OF h2] by auto
    from task_end_held [OF this] have r: "replay (backend_request E is_post chain) [] = Inr (leaked st)"
      unfolding b .
    from leaked_same_program [OF assms(1,2) l] r show ?thesis by auto
  qed
qed

section \<open>Strings and synthetic responses\<close>

text \<open>
  The loop of \<open>to_string\<close> (\<^verbatim>\<open>to_string.c\<close>): every reservation is temporary, and \<open>last_slot\<close> keeps its
  value after the slot has been freed.
\<close>

fun to_string_loop :: "chain_env \<Rightarrow> nat \<Rightarrow> chain_item list \<Rightarrow> cstate \<Rightarrow> cstate \<times> loop_exit" where
  "to_string_loop E index [] st = (st, LoopDone)"
| "to_string_loop E index (it # rest) st =
     (if \<not> ce_reserve E index then (kvm_free_reserved_machine True (cs_last_slot st) st, LoopFail)
      else
        let st = log_ev (CReserve index) st; slot = index in
        if index > 0 \<and> \<not> ce_transfer E index then
          (kvm_free_reserved_machine True (cs_last_slot st)
             (kvm_free_reserved_machine True (Some slot) (read_result st)), LoopFail)
        else
          let st = (if index > 0 then kvm_free_reserved_machine True (cs_last_slot st) (read_result st) else st);
              (status, clen) = ce_call E index;
              st = (log_ev (CCall slot) st)\<lparr>cs_owner := OwnVm slot, cs_status := status, cs_content_length := clen\<rparr>
          in if status \<ge> ci_break_status it then
               (kvm_free_reserved_machine True (cs_last_slot st) (kvm_free_reserved_machine True (Some slot) st), LoopBreak)
             else to_string_loop E (index + 1) rest (st\<lparr>cs_last_slot := Some slot\<rparr>))"

text \<open>\<open>to_string\<close>: the content callback copies the result, then the last slot is freed.\<close>

definition to_string :: "chain_env \<Rightarrow> chain_item list \<Rightarrow> cev list" where
  "to_string E chain =
     (if \<not> ce_ws_result E \<or> length chain > 1 \<and> \<not> ce_ws_post E then []
      else case to_string_loop E 0 chain cstate_new of
        (st, LoopDone) \<Rightarrow> cs_trace (kvm_free_reserved_machine True (cs_last_slot st) (read_result st))
      | (st, _) \<Rightarrow> cs_trace st)"

text \<open>The state in which an item of the chain is called: the VM before it has been freed.\<close>

definition string_moved :: "nat \<Rightarrow> cstate \<Rightarrow> cstate" where
  "string_moved index st =
     (let st = log_ev (CReserve index) st in if index > 0 then kvm_free_reserved_machine True (cs_last_slot st) (read_result st) else st)"

lemma string_reserved_held: "between st \<Longrightarrow> held (read_result (log_ev (CReserve index) st)) = Inr (index # opt_list (cs_last_slot st))"
  by (intro read_result_held) (auto simp: between_def replay_append)

lemma string_moved_held:
  assumes "between st" and "index = 0 \<longrightarrow> cs_last_slot st = None"
  shows "held (string_moved index st) = Inr [index]" and "cs_last_slot (string_moved index st) = cs_last_slot st"
    and "cs_priv (string_moved index st) = PrivNone"
  using string_reserved_held [OF assms(1), of index] assms
  by (cases "cs_last_slot st"; auto simp: string_moved_def between_def kvm_free_reserved_machine_def replay_append Let_def)+

lemma to_string_loop_held:
  assumes "between st" and "index = 0 \<longrightarrow> cs_last_slot st = None"
    and "to_string_loop E index items st = (st', ex)"
    and "\<forall>k < length items. index + k > 0 \<longrightarrow> fst (ce_call E (index + k)) < ci_break_status (items ! k)"
  shows "if ex = LoopDone then between st' else held st' = Inr []"
  using assms
proof (induction items arbitrary: index st)
  case Nil
  then show ?case by simp
next
  case (Cons it rest)
  have b: "held st = Inr (opt_list (cs_last_slot st))" using Cons.prems(1) by (simp add: between_def)
  note res = string_reserved_held [OF Cons.prems(1), of index] and moved = string_moved_held [OF Cons.prems(1,2)]
  obtain status clen where c: "ce_call E index = (status, clen)" by (cases "ce_call E index")
  define st4 where "st4 = (log_ev (CCall index) (string_moved index st))\<lparr>cs_owner := OwnVm index, cs_status := status, cs_content_length := clen\<rparr>"
  have h4: "held st4 = Inr [index]" "cs_priv st4 = PrivNone" "cs_last_slot st4 = cs_last_slot st"
    using moved by (simp_all add: st4_def replay_append)
  consider (unreserved) "\<not> ce_reserve E index" | (untransferred) "ce_reserve E index" "index > 0" "\<not> ce_transfer E index"
    | (called) "ce_reserve E index" "\<not> (index > 0 \<and> \<not> ce_transfer E index)" by blast
  then show ?case
  proof cases
    case unreserved
    with Cons.prems(3) b show ?thesis by (cases "cs_last_slot st") (auto simp: kvm_free_reserved_machine_def replay_append)
  next
    case untransferred
    with Cons.prems(3) res show ?thesis
      by (cases "cs_last_slot st") (auto simp: kvm_free_reserved_machine_def replay_append Let_def)
  next
    case called
    then have "to_string_loop E index (it # rest) st = (if status \<ge> ci_break_status it
         then (kvm_free_reserved_machine True (cs_last_slot st4) (kvm_free_reserved_machine True (Some index) st4), LoopBreak)
         else to_string_loop E (Suc index) rest (st4\<lparr>cs_last_slot := Some index\<rparr>))"
      using c by (cases "index = 0") (simp_all add: st4_def string_moved_def Let_def)
    note r = this [unfolded Cons.prems(3), symmetric]
    show ?thesis
    proof (cases "status \<ge> ci_break_status it")
      case True
      with Cons.prems(4) c have "index = 0" by (auto dest!: spec [of _ 0])
      with True r h4 Cons.prems(2) show ?thesis by (auto simp: kvm_free_reserved_machine_def replay_append)
    next
      case False
      have bt: "between (st4\<lparr>cs_last_slot := Some index\<rparr>)" using h4 by (simp add: between_def st4_def)
      show ?thesis by (rule Cons.IH [OF bt, of "Suc index"]) (use False r Cons.prems(4) in \<open>auto dest: spec [of _ "Suc _"]\<close>)
    qed
  qed
qed

section \<open>Copying the response\<close>

datatype vfp_status = VFP_OK | VFP_END | VFP_ERROR

text \<open>
  The loop of \<open>kvmfp_pull\<close>: the buffers with what is left in them, the index of the current one, the
  room left in the destination, and what has been written in this call. The value None is an access
  past the last buffer.
\<close>

function pull_loop ::
    "u8 list list \<Rightarrow> nat \<Rightarrow> nat \<Rightarrow> u8 list \<Rightarrow> (u8 list list \<times> nat \<times> u8 list \<times> vfp_status) option" where
  "pull_loop bufs i room written =
     (if i < length bufs then
        let len = (if length (bufs ! i) > room then room else length (bufs ! i));
            written' = written @ take len (bufs ! i);
            bufs' = bufs[i := drop len (bufs ! i)];
            i' = (if bufs' ! i = [] then i + 1 else i)
        in if bufs' ! i = [] \<and> i' = length bufs then Some (bufs', i', written', VFP_END)
           else if room - len = 0 then Some (bufs', i', written', VFP_OK)
           else pull_loop bufs' i' (room - len) written'
      else None)"
  by pat_completeness auto
termination
  by (relation "measure (\<lambda>(bufs, i, room, written). length bufs - i)") (auto simp: Let_def split: if_splits)

definition kvmfp_pull ::
    "nat \<Rightarrow> u8 list list \<Rightarrow> nat \<Rightarrow> nat \<Rightarrow> (u8 list list \<times> nat \<times> u8 list \<times> vfp_status) option" where
  "kvmfp_pull content_length bufs i room =
     (if content_length = 0 then Some (bufs, i, [], VFP_END) else pull_loop bufs i room [])"

text \<open>Varnish pulls until the end, with whatever room it has each time.\<close>

fun fetch_body :: "nat \<Rightarrow> u8 list list \<Rightarrow> nat \<Rightarrow> nat list \<Rightarrow> (u8 list \<times> vfp_status) option" where
  "fetch_body content_length bufs i [] = Some ([], VFP_OK)"
| "fetch_body content_length bufs i (room # rooms) =
     (case kvmfp_pull content_length bufs i room of
        None \<Rightarrow> None
      | Some (bufs', i', out, st) \<Rightarrow>
          if st = VFP_OK then
            map_option (\<lambda>(out', st'). (out @ out', st')) (fetch_body content_length bufs' i' rooms)
          else Some (out, st))"

declare pull_loop.simps [simp del]

definition rest_of :: "u8 list list \<Rightarrow> nat \<Rightarrow> u8 list" where
  "rest_of bufs i = concat (drop i bufs)"

lemma rest_of_nth: "i < length bufs \<Longrightarrow> rest_of bufs i = bufs ! i @ rest_of bufs (Suc i)"
  by (simp add: rest_of_def Cons_nth_drop_Suc [symmetric])

lemma rest_of_update [simp]: "rest_of (bufs[i := x]) (Suc i) = rest_of bufs (Suc i)"
  by (simp add: rest_of_def)

lemma rest_of_end [simp]: "rest_of bufs (length bufs) = []"
  by (simp add: rest_of_def)

lemma pull_loop_cases:
  assumes "i < length bufs"
  shows "pull_loop bufs i room written =
     (if length (bufs ! i) > room then
        Some (bufs[i := drop room (bufs ! i)], i, written @ take room (bufs ! i), VFP_OK)
      else if Suc i = length bufs then Some (bufs[i := []], Suc i, written @ bufs ! i, VFP_END)
      else if room = length (bufs ! i) then Some (bufs[i := []], Suc i, written @ bufs ! i, VFP_OK)
      else pull_loop (bufs[i := []]) (Suc i) (room - length (bufs ! i)) (written @ bufs ! i))"
  using assms by (subst pull_loop.simps) (auto simp: Let_def)

lemma pull_loop_spec:
  assumes "i < length bufs"
  shows "\<exists>bufs' i' out st. pull_loop bufs i room written = Some (bufs', i', out, st) \<and>
    length bufs' = length bufs \<and> out @ rest_of bufs' i' = written @ rest_of bufs i \<and>
    (st = VFP_OK \<and> i' < length bufs \<and> length out = length written + room \<or> st = VFP_END \<and> rest_of bufs' i' = [])"
  using assms
proof (induction "length bufs - i" arbitrary: bufs i room written)
  case 0
  then show ?case by simp
next
  case (Suc n)
  have split: "rest_of bufs i = bufs ! i @ rest_of bufs (Suc i)" by (rule rest_of_nth [OF Suc.prems])
  consider (part) "length (bufs ! i) > room" | (last) "length (bufs ! i) \<le> room" "Suc i = length bufs"
    | (full) "Suc i < length bufs" "room = length (bufs ! i)"
    | (more) "Suc i < length bufs" "length (bufs ! i) < room"
    using Suc.prems by linarith
  then show ?case
  proof cases
    case part
    then show ?thesis
      using Suc.prems rest_of_nth [of i "bufs[i := drop room (bufs ! i)]"]
      by (simp add: pull_loop_cases [OF Suc.prems] split)
  next
    case last
    then show ?thesis by (simp add: pull_loop_cases [OF Suc.prems] split) (simp add: rest_of_def)
  next
    case full
    then show ?thesis by (simp add: pull_loop_cases [OF Suc.prems] split)
  next
    case more
    from Suc.hyps(1) [of "bufs[i := []]" "Suc i" "room - length (bufs ! i)" "written @ bufs ! i"] more Suc.hyps(2)
    show ?thesis by (simp add: pull_loop_cases [OF Suc.prems] split)
  qed
qed

text \<open>The fetch processor of a response, with its content length, implements the contract of one.\<close>

definition response_pull :: "nat \<Rightarrow> nat \<times> u8 list list \<times> nat \<Rightarrow> ((nat \<times> u8 list list \<times> nat) \<times> u8 list \<times> bool) option" where
  "response_pull room s =
     (case s of (clen, bufs, i) \<Rightarrow>
        map_option (\<lambda>(bufs', i', out, st). ((clen, bufs', i'), out, st = VFP_END)) (kvmfp_pull clen bufs i room))"

interpretation response: fetch_processor response_pull "\<lambda>(clen, bufs, i). rest_of bufs i" "\<lambda>(clen, bufs, i). 0 < clen \<and> i < length bufs"
proof
  fix s :: "nat \<times> u8 list list \<times> nat" and room
  assume "case s of (clen, bufs, i) \<Rightarrow> 0 < clen \<and> i < length bufs"
  then obtain clen bufs i where s: "s = (clen, bufs, i)" "0 < clen" "i < length bufs" by (cases s) auto
  from pull_loop_spec [OF s(3), of room "[]"] obtain bufs' i' out st where
      p: "pull_loop bufs i room [] = Some (bufs', i', out, st)" "length bufs' = length bufs" "out @ rest_of bufs' i' = rest_of bufs i"
      and e: "st = VFP_OK \<and> i' < length bufs \<and> length out = room \<or> st = VFP_END \<and> rest_of bufs' i' = []" by auto
  have "response_pull room s = Some ((clen, bufs', i'), out, st = VFP_END)" using s p by (simp add: response_pull_def kvmfp_pull_def)
  moreover have "if st = VFP_END then rest_of bufs' i' = [] else i' < length bufs' \<and> length out = room" using e p(2) by auto
  ultimately show "\<exists>s' out ended. response_pull room s = Some (s', out, ended) \<and>
      out @ (case s' of (clen, bufs, i) \<Rightarrow> rest_of bufs i) = (case s of (clen, bufs, i) \<Rightarrow> rest_of bufs i) \<and>
      (if ended then (case s' of (clen, bufs, i) \<Rightarrow> rest_of bufs i) = []
       else (case s' of (clen, bufs, i) \<Rightarrow> 0 < clen \<and> i < length bufs) \<and> length out = room)"
    using s p(3) by (intro exI [of _ "(clen, bufs', i')"] exI [of _ out] exI [of _ "st = VFP_END"]) simp
qed

definition end_status :: "bool \<Rightarrow> vfp_status" where
  "end_status ended = (if ended then VFP_END else VFP_OK)"

lemma end_status_simps [simp]: "end_status True = VFP_END" "end_status False = VFP_OK"
  by (simp_all add: end_status_def)

lemma fetch_body_drain:
  "\<lbrakk>0 < clen; i < length bufs; drain response_pull (clen, bufs, i) rooms = Some (out, ended)\<rbrakk> \<Longrightarrow>
     fetch_body clen bufs i rooms = Some (out, end_status ended)"
proof (induction rooms arbitrary: bufs i out ended)
  case (Cons room rooms)
  from pull_loop_spec [OF Cons.prems(2), of room "[]"] obtain bufs' i' out1 st where
      p: "kvmfp_pull clen bufs i room = Some (bufs', i', out1, st)" "length bufs' = length bufs"
      and e: "st = VFP_OK \<and> i' < length bufs \<or> st = VFP_END" using Cons.prems(1) by (auto simp: kvmfp_pull_def)
  then have r: "response_pull room (clen, bufs, i) = Some ((clen, bufs', i'), out1, st = VFP_END)" by (simp add: response_pull_def)
  from e show ?case
  proof
    assume ok: "st = VFP_OK \<and> i' < length bufs"
    then obtain out2 where "drain response_pull (clen, bufs', i') rooms = Some (out2, ended)" "out = out1 @ out2"
      using Cons.prems(3) r by auto
    then show ?thesis using Cons.IH [OF Cons.prems(1), of i' bufs'] ok p by simp
  next
    assume "st = VFP_END"
    then show ?thesis using Cons.prems(3) r p by simp
  qed
qed simp

lemma fetch_body_spec:
  assumes "i < length bufs" and "clen > 0"
  shows "\<exists>out st. fetch_body clen bufs i rooms = Some (out, st) \<and>
    (st = VFP_END \<and> out = rest_of bufs i \<or>
     st = VFP_OK \<and> length out = sum_list rooms \<and> out = take (sum_list rooms) (rest_of bufs i))"
proof -
  have "case (clen, bufs, i) of (clen, bufs, i) \<Rightarrow> 0 < clen \<and> i < length bufs" using assms by simp
  then show ?thesis
  proof (cases rule: response.drain_spec [where rooms = rooms])
    case all
    then show ?thesis using fetch_body_drain [OF assms(2,1)] by simp
  next
    case part
    then show ?thesis using fetch_body_drain [OF assms(2,1), of rooms "take (sum_list rooms) (rest_of bufs i)" False] by simp
  qed
qed

section \<open>Properties\<close>

text \<open>
  C17. The fetch processor copies a response of any number of buffers into the cache exactly once and
  in order: however Varnish divides the transfer into pulls, no access goes past the last buffer, the
  bytes delivered are a prefix of the concatenated buffers that fills the room of every pull, and the
  end is reported exactly with the last byte.
\<close>

theorem kvmfp_pull_delivers:
  assumes "content_length = length (concat bufs)" and "content_length > 0"
  shows "\<exists>out st. fetch_body content_length bufs 0 rooms = Some (out, st) \<and>
    (st = VFP_END \<and> out = concat bufs \<or>
     st = VFP_OK \<and> length out = sum_list rooms \<and> out = take (sum_list rooms) (concat bufs))"
proof -
  from assms have "0 < length bufs" by (cases bufs) auto
  from fetch_body_spec [OF this assms(2)] show ?thesis by (simp add: rest_of_def)
qed

theorem kvmfp_pull_delivers_witness:
  "fetch_body 5 [[1, 2, 3], [], [4, 5]] 0 [2, 2, 4] = Some ([1, 2, 3, 4, 5], VFP_END) \<and>
   (\<exists>out st. fetch_body 5 [[1, 2, 3], [], [4, 5]] 0 [2, 2] = Some (out, st) \<and>
    (st = VFP_END \<and> out = concat [[1, 2, 3], [], [4, 5]] \<or>
     st = VFP_OK \<and> length out = sum_list [2, 2] \<and> out = take (sum_list [2, 2]) (concat [[1, 2, 3], [], [4, 5]])))"
  using kvmfp_pull_delivers [of 5 "[[1, 2, 3], [], [4, 5]]" "[2, 2]"]
  by (simp add: kvmfp_pull_def pull_loop_cases)


definition item_demo :: "nat \<Rightarrow> chain_item" where
  "item_demo tenant = \<lparr>ci_tenant = tenant, ci_special = False, ci_method = ''GET'', ci_url = ''/'', ci_argument = [],
     ci_content_type = [], ci_break_status = 400, ci_soft_reset = 0\<rparr>"

definition env_demo :: "int \<Rightarrow> nat \<Rightarrow> bool \<Rightarrow> chain_env" where
  "env_demo status clen copy = \<lparr>ce_reserve = (\<lambda>i. True), ce_body = True, ce_transfer = (\<lambda>i. True),
     ce_self = (\<lambda>i. (0, 200, 5)), ce_call = (\<lambda>i. (status, clen)), ce_ws_post = True, ce_ws_result = True,
     ce_ws_copy = copy, ce_ws_htc = True\<rparr>"

lemmas chain_eval =
  item_demo_def env_demo_def backend_request_def kvmbe_gethdrs_def gethdrs_item_def chain_acquire_def chain_call_def
  cstate_new_def log_ev_def gethdrs_early_release_def BACKEND_EARLY_RELEASE_SIZE_def read_result_def
  kvm_early_slot_release_def kvm_free_reserved_machine_def free_chunk_def task_end_def Let_def


text \<open>
  When the last two programs of a chain are the same and the response is short, the reservation
  is never given back: the early release calls the free function without a context, and that
  function ignores such a call.
\<close>

theorem same_program_leaks_reservation:
  "\<forall>clen < BACKEND_EARLY_RELEASE_SIZE.
     replay (backend_request (env_demo 200 clen True) False [item_demo t, item_demo t]) [] = Inr [0]"
  by (auto simp: chain_eval cong: let_weak_cong)

theorem same_program_leaks_reservation_witness:
  "replay (backend_request (env_demo 200 100 True) False [item_demo 3, item_demo 3]) [] = Inr [0]"
  using same_program_leaks_reservation [of 3] by (simp add: BACKEND_EARLY_RELEASE_SIZE_def)

text \<open>
  A program in the middle of a chain that ends it with a short error page has its VM given back
  before the page is copied, and one at the end whose page does not fit the workspace has it given
  back before the page is sent: both read from a VM that may already serve another request.
\<close>

theorem early_release_reads_after_free:
  "\<forall>clen. 0 < clen \<and> clen < BACKEND_EARLY_RELEASE_SIZE \<longrightarrow>
     replay (backend_request (env_demo 500 clen True) False [item_demo a, item_demo b]) [] = Inl (UseNotHeld 0) \<and>
     replay (backend_request (env_demo 200 clen False) False [item_demo a]) [] = Inl (UseNotHeld 0)"
  by (auto simp: chain_eval cong: let_weak_cong)

theorem early_release_reads_after_free_witness:
  "replay (backend_request (env_demo 500 10 True) False [item_demo 1, item_demo 2]) [] = Inl (UseNotHeld 0)"
  using early_release_reads_after_free [of 1 2] by (simp add: BACKEND_EARLY_RELEASE_SIZE_def)



text \<open>
  When the second program of such a chain ends it, the reservation of the first is freed a second
  time, so that its VM is handed to two requests at once.
\<close>

theorem to_string_frees_twice:
  "replay (to_string ((env_demo 200 5 True)\<lparr>ce_call := (\<lambda>i. (if i = 0 then 200 else 500, n))\<rparr>) [item_demo a, item_demo b]) [] =
     Inl (FreeNotHeld 0)"
  by (simp add: to_string_def chain_eval cong: let_weak_cong)

end
