(* ===== verification/Backend.thy ===== *)
theory Backend
  imports Storage Http_Fields Backend_Chain
begin

text \<open>
  A call into a reserved VM (\<^verbatim>\<open>lib/libkvm/backend.cpp\<close>): the inputs that are laid out on the guest's
  stack, the choice of the entry point, the verification and extraction of the response, the error
  callback, the transfer of a request body, and the warmup before forking. What the guest does is
  the argument \<open>x_run\<close> of the execution record.
\<close>

section \<open>State\<close>

text \<open>
  \<open>struct backend_result\<close>: before a fetch \<open>br_bufcount\<close> is the room for buffers, after it their number.
  A response without buffers but with a length is streamed, by the callback and argument.
\<close>

record bresult =
  br_type :: string
  br_status :: int
  br_content_length :: u64
  br_bufcount :: nat
  br_buffers :: "string list"
  br_stream :: "(u64 \<times> u64) option"

definition VMBE_NUM_BUFFERS :: nat where
  "VMBE_NUM_BUFFERS = 512"

definition error_result :: bresult where
  "error_result = \<lparr>br_type = [], br_status = 500, br_content_length = 0, br_bufcount = 0, br_buffers = [], br_stream = None\<rparr>"

text \<open>\<open>struct backend_inputs\<close>, without its reserved members, and the bytes it has in guest memory.\<close>

record binputs =
  in_method :: u64
  in_url :: u64
  in_arg :: u64
  in_ctype :: u64
  in_method_len :: u16
  in_url_len :: u16
  in_arg_len :: u16
  in_ctype_len :: u16
  in_data :: u64
  in_data_len :: u64
  in_g_headers :: u64
  in_num_headers :: u16
  in_info_flags :: u16
  in_prng :: "u64 \<times> u64"

definition binputs_zero :: binputs where
  "binputs_zero = \<lparr>in_method = 0, in_url = 0, in_arg = 0, in_ctype = 0, in_method_len = 0, in_url_len = 0,
     in_arg_len = 0, in_ctype_len = 0, in_data = 0, in_data_len = 0, in_g_headers = 0, in_num_headers = 0,
     in_info_flags = 0, in_prng = (0, 0)\<rparr>"

definition enc_inputs :: "binputs \<Rightarrow> string" where
  "enc_inputs i =
     enc_array 8 [in_method i, in_url i, in_arg i, in_ctype i] @
     enc_array 2 [in_method_len i, in_url_len i, in_arg_len i, in_ctype_len i] @
     enc_array 8 [in_data i, in_data_len i, in_g_headers i] @
     enc_array 2 [in_num_headers i, in_info_flags i] @ le_bytes 4 (0 :: u32) @
     enc_array 8 [fst (in_prng i), snd (in_prng i), 0, 0]"

text \<open>\<open>struct backend_header\<close>.\<close>

record bheader =
  bh_ptr :: u64
  bh_colon :: u32
  bh_len :: u32

definition enc_header :: "bheader \<Rightarrow> string" where
  "enc_header h = le_bytes 8 (bh_ptr h) @ le_bytes 4 (bh_colon h) @ le_bytes 4 (bh_len h)"

text \<open>\<open>struct backend_post\<close>: where the request body is in the guest, how much is there and how much may be.\<close>

record bpost =
  po_address :: u64
  po_capacity :: u64
  po_length :: u64

text \<open>
  What a call works on; \<open>bs_program_status\<close> are the status codes recorded in the counters, and the last
  two fields are the local variables \<open>stack\<close> and \<open>inputs\<close>.
\<close>

record 'm bstate =
  bs_mi :: "'m machine"
  bs_http :: http_ctx
  bs_result :: bresult
  bs_cache :: "(string \<times> string \<times> string) option"
  bs_program_status :: "int list"
  bs_stack :: u64
  bs_inputs :: binputs

text \<open>
  The surroundings of a call: configuration, entry points, the monitor and Varnish, whether the
  workspace has room for the content type, the header table and the header fields, the return value
  of a guest function, the text of an exception, pushing a terminated string on a stack, and the operation that returns unused pages of a
  request body.
\<close>

record 'm benv =
  be_conf :: tenant_conf
  be_entries :: entries
  be_exec :: "'m exec_ops"
  be_guest :: "'m guest_ops"
  be_vm :: "'m vm_ops"
  be_api :: varnish_api
  be_ws_type :: bool
  be_ws_headers :: bool
  be_ws_field :: bool
  be_retval :: "'m \<Rightarrow> u64"
  be_what :: "exn \<Rightarrow> string"
  be_push_cstr :: "string \<Rightarrow> u64 \<Rightarrow> 'm \<Rightarrow> (u64 \<times> 'm) res"
  be_relax :: "u64 \<Rightarrow> u64 \<Rightarrow> u64 \<Rightarrow> 'm \<Rightarrow> 'm"

definition ERROR_HANDLING_TIMEOUT :: float32 where "ERROR_HANDLING_TIMEOUT = 0x3F800000"
definition STREAM_HANDLING_TIMEOUT :: float32 where "STREAM_HANDLING_TIMEOUT = 0x40000000"
definition BACKEND_INPUTS_SIZE :: u64 where "BACKEND_INPUTS_SIZE = 65536"

definition upd_bmi :: "('m machine \<Rightarrow> 'm machine) \<Rightarrow> 'm bstate stmt" where
  "upd_bmi f s = (s\<lparr>bs_mi := f (bs_mi s)\<rparr>, None)"

definition upd_result :: "(bresult \<Rightarrow> bresult) \<Rightarrow> 'm bstate stmt" where
  "upd_result f s = (s\<lparr>bs_result := f (bs_result s)\<rparr>, None)"

text \<open>\<open>machine.ctx()\<close>, which throws when there is no context.\<close>

definition need_ctx :: "'m bstate stmt" where
  "need_ctx s = (case machine_ctx (bs_mi s) of Inl e \<Rightarrow> (s, Some e) | Inr _ \<Rightarrow> (s, None))"

text \<open>Running the guest, as a statement.\<close>

definition run_vm :: "'m benv \<Rightarrow> vmcall \<Rightarrow> 'm bstate stmt" where
  "run_vm B c s = (case x_run (be_exec B) c (bs_mi s) of (mi, e) \<Rightarrow> (s\<lparr>bs_mi := mi\<rparr>, e))"

section \<open>Fetching the response\<close>

text \<open>The parameter is a signed 16 bit number.\<close>

definition sanitize_status_code :: "u16 \<Rightarrow> int res" where
  "sanitize_status_code code =
     (if 200 \<le> sint code \<and> sint code < 600 then Inr (sint code)
      else Inl (MachineException ''Invalid HTTP status code returned by program'' (scast code)))"

definition count_status :: "nat \<Rightarrow> machine_stats \<Rightarrow> machine_stats" where
  "count_status status st =
     (if 200 \<le> status \<and> status < 300 then st\<lparr>st_status_2xx := st_status_2xx st + 1\<rparr>
      else if status < 200 then st\<lparr>st_status_unknown := st_status_unknown st + 1\<rparr>
      else if status < 400 then st\<lparr>st_status_3xx := st_status_3xx st + 1\<rparr>
      else if status < 500 then st\<lparr>st_status_4xx := st_status_4xx st + 1\<rparr>
      else if status < 600 then st\<lparr>st_status_5xx := st_status_5xx st + 1\<rparr>
      else st\<lparr>st_status_unknown := st_status_unknown st + 1\<rparr>)"

text \<open>The content type: its length is checked, then it is copied to the workspace.\<close>

definition fetch_type :: "'m benv \<Rightarrow> regs \<Rightarrow> 'm machine \<Rightarrow> string res" where
  "fetch_type B r mi =
     (if to_u16 (r_rdx r) \<ge> 0x1000 then Inl (RuntimeError ''Content-type length overflow'')
      else bind_res (machine_ctx mi) (\<lambda>_.
        if \<not> be_ws_type B then Inl (RuntimeError ''Out of workspace for backend VM content-type'')
        else go_read (be_guest B) (r_rsi r) (to_u16 (r_rdx r)) (mi_vm mi)))"

definition fetch_regular :: "'m benv \<Rightarrow> regs \<Rightarrow> string \<Rightarrow> 'm bstate stmt" where
  "fetch_regular B r ctype =
     stmt_seq (upd_result (\<lambda>x. x\<lparr>br_type := ctype\<rparr>))
       (stmt_with (sanitize_status_code (ucast (r_rdi r))) (\<lambda>code.
         stmt_seq (upd_result (\<lambda>x. x\<lparr>br_status := code, br_content_length := r_r8 r\<rparr>))
           (\<lambda>s. stmt_with (go_gather (be_guest B) (br_bufcount (bs_result s)) (r_rcx r) (r_r8 r) (mi_vm (bs_mi s)))
              (\<lambda>bufs. upd_result (\<lambda>x. x\<lparr>br_bufcount := length bufs, br_buffers := bufs, br_stream := None\<rparr>)) s)))"

definition fetch_streaming :: "regs \<Rightarrow> string \<Rightarrow> 'm bstate stmt" where
  "fetch_streaming r ctype =
     (if r_rcx r = 0 then stmt_throw (RuntimeError ''Cannot stream zero-length response'')
      else if r_r8 r = 0 then stmt_throw (RuntimeError ''Cannot stream using invalid callback (address is 0x0)'')
      else
        stmt_seq (upd_result (\<lambda>x. x\<lparr>br_type := ctype\<rparr>))
          (stmt_with (sanitize_status_code (ucast (r_rdi r))) (\<lambda>code.
            upd_result (\<lambda>x. x\<lparr>br_status := code, br_content_length := r_rcx r, br_bufcount := 0, br_buffers := [],
              br_stream := Some (r_r8 r, r_r9 r)\<rparr>))))"

text \<open>
  The header fields of \<open>BackendResponseExtra\<close>, each a pointer and a length whose low 32 bits are used.
  The assertion inside \<open>kvm_http_set\<close> never fails (\<open>kvm_http_set_returns\<close> below), so that the branch None
  is not reached.
\<close>

fun set_headers :: "'m benv \<Rightarrow> int \<Rightarrow> u64 list \<Rightarrow> 'm bstate stmt" where
  "set_headers B w [] s = (s, None)"
| "set_headers B w (a # as) s =
     (case go_read (be_guest B) a 16 (mi_vm (bs_mi s)) of
        Inl e \<Rightarrow> (s, Some e)
      | Inr bytes \<Rightarrow>
          (case kvm_http_set (be_api B) (be_guest B) (be_ws_field B) w (le_word (take 8 bytes)) (ucast (le_word (drop 8 bytes) :: u64))
                  (bs_mi s) (bs_http s) of
             None \<Rightarrow> (s, Some (RuntimeError ''assertion failed''))
           | Some (Inl e) \<Rightarrow> (s, Some e)
           | Some (Inr (i, c)) \<Rightarrow> set_headers B w as (s\<lparr>bs_http := c\<rparr>)))"

text \<open>\<open>BackendResponseExtra\<close> has 56 bytes: pointer, count, flag, and three 32 bit floating point numbers.\<close>

definition fetch_extra :: "'m benv \<Rightarrow> u64 \<Rightarrow> 'm bstate stmt" where
  "fetch_extra B extra_ptr s =
     (if extra_ptr = 0 then (s, None)
      else if extra_ptr < 0x1000 then (s, Some (RuntimeError ''Invalid BackendResponseExtra pointer''))
      else case go_read (be_guest B) extra_ptr 56 (mi_vm (bs_mi s)) of
        Inl e \<Rightarrow> (s, Some e)
      | Inr bytes \<Rightarrow>
          let headers_ptr = le_word (take 8 bytes) :: u64;
              num_headers = unat (le_word (take 2 (drop 8 bytes)) :: u16)
          in if num_headers > 64 then (s, Some (RuntimeError ''Too many headers in BackendResponseExtra''))
             else if headers_ptr < 0x1000 then (s, Some (RuntimeError ''Invalid BackendResponseExtra headers pointer''))
             else case machine_ctx (bs_mi s) of
               Inl e \<Rightarrow> (s, Some e)
             | Inr _ \<Rightarrow>
                 if \<not> be_ws_headers B then (s, Some (RuntimeError ''Out of workspace for backend VM response headers''))
                 else
                   let w = (if hc_bereq (bs_http s) \<noteq> None \<or> hc_resp (bs_http s) \<noteq> None then 1 else 0) in
                   stmt_seq (set_headers B w (map (\<lambda>i. headers_ptr + of_nat i * 16) [0..<num_headers]))
                     (\<lambda>s. (if take 1 (drop 10 bytes) \<noteq> [CHR 0x00]
                           then s\<lparr>bs_cache := Some (take 4 (drop 12 bytes), take 4 (drop 16 bytes), take 4 (drop 20 bytes))\<rparr>
                           else s, None)) s)"

definition fetch_result :: "'m benv \<Rightarrow> 'm bstate stmt" where
  "fetch_result B s =
     (let mi = bs_mi s; regular = response_called 1 mi; streaming = response_called 10 mi in
      if \<not> regular \<and> \<not> streaming
      then (s, Some (RuntimeError ''HTTP response not set. Program crashed? Check logs!''))
      else
        let r = x_regs (be_exec B) (mi_vm mi) in
        stmt_seq (upd_bmi (upd_stats (count_status (to_u16 (r_rdi r)))))
          (stmt_with (fetch_type B r mi) (\<lambda>ctype.
            stmt_seq (if regular then fetch_regular B r ctype else fetch_streaming r ctype)
              (stmt_seq (\<lambda>s. (s\<lparr>bs_mi := upd_stats (\<lambda>t. t\<lparr>st_output_bytes := st_output_bytes t + br_content_length (bs_result s)\<rparr>) (bs_mi s),
                               bs_program_status := bs_program_status s @ [br_status (bs_result s)]\<rparr>, None))
                (if regular then fetch_extra B (r_r9 r) else stmt_skip)))) s)"

section \<open>Errors\<close>

text \<open>
  \<open>error_handling\<close>: ask for a reset, let the program make an error page if it has a callback, and
  otherwise, or when that fails too, answer 500. Without a context the first line after the flag
  throws.
\<close>

definition error_page :: "'m benv \<Rightarrow> chain_item \<Rightarrow> exn \<Rightarrow> u64 \<Rightarrow> 'm bstate stmt" where
  "error_page B invoc ex addr =
     stmt_seq need_ctx (stmt_seq (upd_bmi begin_call)
       (stmt_seq (run_vm B (VCall addr [AStr (ci_url invoc), AStr (ci_argument invoc), AStr (be_what B ex)] ERROR_HANDLING_TIMEOUT))
         (stmt_seq (run_vm B VSmpWait) (fetch_result B))))"

definition error_500 :: "'m bstate \<Rightarrow> 'm bstate" where
  "error_500 s = s\<lparr>bs_result := error_result, bs_program_status := bs_program_status s @ [500]\<rparr>"

definition error_handling :: "'m benv \<Rightarrow> chain_item \<Rightarrow> exn \<Rightarrow> 'm bstate stmt" where
  "error_handling B invoc ex s =
     (let s = s\<lparr>bs_mi := (bs_mi s)\<lparr>mi_reset_needed := True\<rparr>\<rparr> in
      case machine_ctx (bs_mi s) of
        Inl e \<Rightarrow> (s, Some e)
      | Inr _ \<Rightarrow>
          let (s, e) = (if g_remote_debug_on_exception (t_group (be_conf B)) then run_vm B (VDebug 0x43960000) s else (s, None)) in
          case (e, entry_at (be_entries B) (entry_index BACKEND_ERROR)) of
            (None, Inr addr) \<Rightarrow>
              if addr \<noteq> 0 then
                (case error_page B invoc ex addr s of
                   (s, None) \<Rightarrow> (s, None)
                 | (s, Some _) \<Rightarrow> (error_500 (fst (run_vm B VSmpWait s)), None))
              else (error_500 (fst (run_vm B VSmpWait s)), None)
          | _ \<Rightarrow> (error_500 (fst (run_vm B VSmpWait s)), None))"

section \<open>Inputs\<close>

text \<open>Push bytes on the stack of the call and keep the address.\<close>

definition push_with ::
    "(string \<Rightarrow> u64 \<Rightarrow> 'm \<Rightarrow> (u64 \<times> 'm) res) \<Rightarrow> string \<Rightarrow> (u64 \<Rightarrow> binputs \<Rightarrow> binputs) \<Rightarrow> 'm bstate stmt" where
  "push_with push bytes f s =
     (case push bytes (bs_stack s) (mi_vm (bs_mi s)) of
        Inl e \<Rightarrow> (s, Some e)
      | Inr (stack, vm) \<Rightarrow>
          (s\<lparr>bs_stack := stack, bs_mi := (bs_mi s)\<lparr>mi_vm := vm\<rparr>, bs_inputs := f stack (bs_inputs s)\<rparr>, None))"

text \<open>A string whose length is kept in 16 bits, with the byte after it.\<close>

definition push_cut :: "'m benv \<Rightarrow> string \<Rightarrow> (u16 \<Rightarrow> u64 \<Rightarrow> binputs \<Rightarrow> binputs) \<Rightarrow> 'm bstate stmt" where
  "push_cut B str f =
     (let len = of_nat (length str) :: u16 in
      push_with (x_push (be_exec B)) (take (unat len + 1) (str @ [CHR 0x00])) (f len))"

definition rand_inputs :: "'m bstate \<Rightarrow> 'm bstate" where
  "rand_inputs s =
     (let (a, g1) = prng_randU64 (mi_prng (bs_mi s)); (b, g2) = prng_randU64 g1
      in s\<lparr>bs_mi := (bs_mi s)\<lparr>mi_prng := g2\<rparr>, bs_inputs := (bs_inputs s)\<lparr>in_prng := (a, b)\<rparr>\<rparr>)"

definition fill_backend_inputs :: "'m benv \<Rightarrow> chain_item \<Rightarrow> bpost option \<Rightarrow> 'm bstate stmt" where
  "fill_backend_inputs B invoc post =
     stmt_seq (push_cut B (ci_method invoc) (\<lambda>l a i. i\<lparr>in_method_len := l, in_method := a\<rparr>))
    (stmt_seq (push_cut B (ci_url invoc) (\<lambda>l a i. i\<lparr>in_url_len := l, in_url := a\<rparr>))
    (stmt_seq (push_cut B (ci_argument invoc) (\<lambda>l a i. i\<lparr>in_arg_len := l, in_arg := a\<rparr>))
    (stmt_seq
      (case post of
         Some p \<Rightarrow>
           stmt_seq (push_cut B (ci_content_type invoc) (\<lambda>l a i. i\<lparr>in_ctype_len := l, in_ctype := a\<rparr>))
             (\<lambda>s. (s\<lparr>bs_inputs := (bs_inputs s)\<lparr>in_data := po_address p, in_data_len := po_length p\<rparr>,
                    bs_mi := upd_stats (\<lambda>t. t\<lparr>st_input_bytes := st_input_bytes t + po_length p\<rparr>) (bs_mi s)\<rparr>, None))
       | None \<Rightarrow>
           push_with (be_push_cstr B) [] (\<lambda>a i. i\<lparr>in_ctype := a, in_ctype_len := 0, in_data := 0, in_data_len := 0\<rparr>))
      (stmt_upd rand_inputs))))"

text \<open>\<open>std::string_view::find(':')\<close> cut to 32 bits: the largest number when there is none.\<close>

definition find_colon :: "string \<Rightarrow> u32" where
  "find_colon f = (case first_index (\<lambda>c. c = CHR '':'') f of Some i \<Rightarrow> of_nat i | None \<Rightarrow> - 1)"

fun push_headers ::
    "(string \<Rightarrow> u64 \<Rightarrow> 'm \<Rightarrow> (u64 \<times> 'm) res) \<Rightarrow> string list \<Rightarrow> bheader list \<Rightarrow> 'm bstate \<Rightarrow> 'm bstate \<times> bheader list res" where
  "push_headers push [] hs s = (s, Inr hs)"
| "push_headers push (f # fs) hs s =
     (case push_with push f (\<lambda>a i. i) s of
        (s, Some e) \<Rightarrow> (s, Inl e)
      | (s, None) \<Rightarrow>
          push_headers push fs (hs @ [\<lparr>bh_ptr = bs_stack s, bh_colon = find_colon f, bh_len = of_nat (length f)\<rparr>]) s)"

definition push_header_array :: "'m benv \<Rightarrow> bheader list \<Rightarrow> 'm bstate stmt" where
  "push_header_array B hs =
     push_with (x_push (be_exec B)) (concat (map enc_header hs))
       (\<lambda>a i. i\<lparr>in_g_headers := a, in_num_headers := of_nat (length hs)\<rparr>)"

definition fill_backend_headers :: "'m benv \<Rightarrow> 'm bstate stmt" where
  "fill_backend_headers B s =
     (case http_get_request_headers (be_api B) (bs_http s) of
        Inl e \<Rightarrow> (s, Some e)
      | Inr headers \<Rightarrow>
          if length headers < 1 then (s\<lparr>bs_inputs := (bs_inputs s)\<lparr>in_g_headers := 0, in_num_headers := 0\<rparr>\<rparr>, None)
          else if length headers > 64 then (s, Some (RuntimeError ''Too many headers in backend inputs''))
          else case push_headers (be_push_cstr B) headers [] s of
            (s, Inl e) \<Rightarrow> (s, Some e)
          | (s, Inr hs) \<Rightarrow> push_header_array B hs s)"

text \<open>\<open>get_inputs_allocation\<close>: the area for the inputs is allocated once, and its end is kept.\<close>

definition inputs_area :: "'m benv \<Rightarrow> 'm machine \<Rightarrow> 'm machine" where
  "inputs_area B mi =
     (if mi_inputs_allocation mi = 0
      then let (a, vm) = v_mmap_allocate (be_vm B) BACKEND_INPUTS_SIZE (mi_vm mi)
           in mi\<lparr>mi_vm := vm, mi_inputs_allocation := a + BACKEND_INPUTS_SIZE\<rparr>
      else mi)"

text \<open>\<open>copy_to_guest\<close> of the inputs, to the address in the first argument register.\<close>

definition copy_inputs :: "'m benv \<Rightarrow> 'm bstate stmt" where
  "copy_inputs B s =
     (case go_write (be_guest B) (r_rdi (x_regs (be_exec B) (mi_vm (bs_mi s)))) (enc_inputs (bs_inputs s)) (mi_vm (bs_mi s)) of
        Inl e \<Rightarrow> (s, Some e) | Inr vm \<Rightarrow> (s\<lparr>bs_mi := (bs_mi s)\<lparr>mi_vm := vm\<rparr>\<rparr>, None))"

text \<open>\<open>regs.rip += 2\<close>: skip the instruction that made the system call.\<close>

definition skip_out :: "'m benv \<Rightarrow> 'm machine \<Rightarrow> 'm machine" where
  "skip_out B mi =
     (let r = x_regs (be_exec B) (mi_vm mi)
      in mi\<lparr>mi_vm := x_set_regs (be_exec B) (r\<lparr>r_rip := r_rip r + 2\<rparr>) (mi_vm mi)\<rparr>)"

section \<open>The call\<close>

definition USERMODE_TIMEOUT :: float32 where "USERMODE_TIMEOUT = 0x3F800000"

text \<open>The branch for a program that waits for requests: it is resumed with the inputs.\<close>

definition call_resume :: "'m benv \<Rightarrow> chain_item \<Rightarrow> bpost option \<Rightarrow> float32 \<Rightarrow> 'm bstate stmt" where
  "call_resume B invoc post timeout =
     (let ephemeral = g_ephemeral (t_group (be_conf B)) in
      stmt_seq (\<lambda>s. if \<not> ephemeral \<and> \<not> mi_waiting (bs_mi s)
                    then stmt_seq (run_vm B (VUser USERMODE_TIMEOUT))
                           (stmt_throw_if (\<lambda>s. \<not> mi_waiting (bs_mi s))
                              (RuntimeError ''VM did not wait for requests after backend request'')) s
                    else (s, None))
     (stmt_seq (\<lambda>s. let mi = inputs_area B (bs_mi s)
                     in (s\<lparr>bs_mi := mi, bs_inputs := binputs_zero, bs_stack := mi_inputs_allocation mi\<rparr>, None))
     (stmt_seq (fill_backend_inputs B invoc post)
     (stmt_seq (\<lambda>s. if mi_ctx (bs_mi s) \<noteq> None then fill_backend_headers B s else (s, None))
     (stmt_seq (copy_inputs B)
     (stmt_seq need_ctx
     (stmt_seq (run_vm B (VResume timeout))
     (stmt_seq (fetch_result B)
        (stmt_when (\<not> ephemeral) (upd_bmi (\<lambda>mi. (skip_out B mi)\<lparr>mi_waiting := False\<rparr>)))))))))))"

definition call_method :: "'m benv \<Rightarrow> chain_item \<Rightarrow> bpost option \<Rightarrow> float32 \<Rightarrow> u64 \<Rightarrow> 'm bstate stmt" where
  "call_method B invoc post timeout addr =
     stmt_seq (stmt_upd (\<lambda>s. s\<lparr>bs_inputs := binputs_zero, bs_stack := x_stack (be_exec B) (mi_vm (bs_mi s))\<rparr>))
    (stmt_seq (fill_backend_inputs B invoc post)
    (stmt_seq (\<lambda>s. if mi_ctx (bs_mi s) \<noteq> None then fill_backend_headers B s else (s, None))
    (stmt_seq (\<lambda>s. push_with (x_push (be_exec B)) (enc_inputs (bs_inputs s)) (\<lambda>a i. i) s)
    (stmt_seq need_ctx
       (\<lambda>s. run_vm B (VCallStack addr (bs_stack s) [AInt (bs_stack s)] timeout) s)))))"

definition call_get :: "'m benv \<Rightarrow> chain_item \<Rightarrow> float32 \<Rightarrow> u64 \<Rightarrow> 'm bstate stmt" where
  "call_get B invoc timeout addr =
     stmt_seq need_ctx (run_vm B (VCall addr [AStr (ci_url invoc), AStr (ci_argument invoc)] timeout))"

definition call_post :: "'m benv \<Rightarrow> chain_item \<Rightarrow> bpost \<Rightarrow> float32 \<Rightarrow> u64 \<Rightarrow> 'm bstate stmt" where
  "call_post B invoc p timeout addr =
     stmt_seq need_ctx
    (stmt_seq (upd_bmi (upd_stats (\<lambda>t. t\<lparr>st_input_bytes := st_input_bytes t + po_length p\<rparr>)))
       (run_vm B (VCall addr [AStr (ci_url invoc), AStr (ci_argument invoc), AStr (ci_content_type invoc),
                              AInt (po_address p), AInt (po_length p)] timeout)))"

text \<open>The choice of the entry point, with the wait for other processors and the fetch after a call.\<close>

definition call_entry :: "'m benv \<Rightarrow> chain_item \<Rightarrow> bpost option \<Rightarrow> float32 \<Rightarrow> 'm bstate stmt" where
  "call_entry B invoc post timeout =
     (let fetch = stmt_seq (run_vm B VSmpWait) (fetch_result B) in
      stmt_with (entry_at (be_entries B) (entry_index BACKEND_METHOD)) (\<lambda>on_method.
        if on_method \<noteq> 0 then stmt_seq (call_method B invoc post timeout on_method) fetch
        else case post of
          None \<Rightarrow>
            stmt_with (entry_at (be_entries B) (entry_index BACKEND_GET)) (\<lambda>on_get.
              if on_get \<noteq> 0 then stmt_seq (call_get B invoc timeout on_get) fetch
              else call_resume B invoc post timeout)
        | Some p \<Rightarrow>
            stmt_with (entry_at (be_entries B) (entry_index BACKEND_POST)) (\<lambda>on_post.
              if on_post \<noteq> 0 then stmt_seq (call_post B invoc p timeout on_post) fetch
              else call_resume B invoc post timeout)))"

text \<open>The task on the VM's thread: it counts the call, gives back unused pages and enters the guest.\<close>

definition call_body :: "'m benv \<Rightarrow> chain_item \<Rightarrow> bpost option \<Rightarrow> 'm bstate stmt" where
  "call_body B invoc post =
     stmt_seq (upd_bmi (\<lambda>mi. upd_stats (\<lambda>t. t\<lparr>st_invocations := st_invocations t + 1\<rparr>) (begin_call mi)))
    (stmt_seq (upd_bmi (\<lambda>mi. case post of
         None \<Rightarrow> mi | Some p \<Rightarrow> mi\<lparr>mi_vm := be_relax B (po_address p) (po_capacity p) (po_length p) (mi_vm mi)\<rparr>))
       (\<lambda>s. call_entry B invoc post (conf_max_req_time (be_conf B) (mi_is_debug (bs_mi s))) s))"

text \<open>Which counter an exception goes to.\<close>

definition count_exception :: "exn \<Rightarrow> machine_stats \<Rightarrow> machine_stats" where
  "count_exception e st =
     (case e of
        TimeoutException \<Rightarrow> st\<lparr>st_timeouts := st_timeouts st + 1\<rparr>
      | MemoryException _ _ oom \<Rightarrow>
          if oom then st\<lparr>st_exception_oom := st_exception_oom st + 1\<rparr> else st\<lparr>st_exception_mem := st_exception_mem st + 1\<rparr>
      | _ \<Rightarrow> st\<lparr>st_exceptions := st_exceptions st + 1\<rparr>)"

definition kvm_backend_call :: "'m benv \<Rightarrow> nat \<Rightarrow> chain_item \<Rightarrow> bpost option \<Rightarrow> 'm bstate stmt" where
  "kvm_backend_call B ctx invoc post s =
     (case call_body B invoc post (s\<lparr>bs_mi := (bs_mi s)\<lparr>mi_ctx := Some ctx\<rparr>\<rparr>) of
        (s, None) \<Rightarrow> (s, None)
      | (s, Some e) \<Rightarrow> error_handling B invoc e (s\<lparr>bs_mi := upd_stats (count_exception e) (bs_mi s)\<rparr>))"

section \<open>Request bodies\<close>

text \<open>
  \<open>kvm_backend_streaming_post\<close>: the next piece of a request body goes to the streaming callback, or to
  the end of the buffer in the guest, which the first piece allocates. None is the failed assertion
  that the buffer has no address yet.
\<close>

definition stream_post :: "'m benv \<Rightarrow> chain_item \<Rightarrow> u64 \<Rightarrow> string \<Rightarrow> bpost \<Rightarrow> 'm machine \<Rightarrow> 'm machine \<times> exn option" where
  "stream_post B invoc addr data p mi =
     (case x_push (be_exec B) data (x_stack (be_exec B) (mi_vm mi)) (mi_vm mi) of
        Inl e \<Rightarrow> (mi, Some e)
      | Inr (rsp, vm) \<Rightarrow>
          x_run (be_exec B)
            (VCallStack addr rsp [AStr (ci_url invoc), AStr (ci_argument invoc), AStr (ci_content_type invoc),
               AInt rsp, AInt (of_nat (length data)), AInt (po_length p)]
               (conf_max_req_time (be_conf B) (mi_is_debug mi)))
            (mi\<lparr>mi_vm := vm\<rparr>))"

definition buffer_post ::
    "'m benv \<Rightarrow> string \<Rightarrow> bpost \<Rightarrow> 'm machine \<Rightarrow> (bpost \<times> 'm machine \<times> exn option) option" where
  "buffer_post B data p mi =
     (if po_length p = 0 \<and> po_address p \<noteq> 0 then None
      else
        let (p, mi) = (if po_length p = 0
                       then let (a, mi) = allocate_post_data (be_vm B) (po_capacity p) mi in (p\<lparr>po_address := a\<rparr>, mi)
                       else (p, mi))
        in case go_write (be_guest B) (po_address p + po_length p) data (mi_vm mi) of
             Inl e \<Rightarrow> Some (p, mi, Some e)
           | Inr vm \<Rightarrow> Some (p\<lparr>po_length := po_length p + of_nat (length data)\<rparr>, mi\<lparr>mi_vm := vm\<rparr>, None))"

definition kvm_backend_streaming_post ::
    "'m benv \<Rightarrow> chain_item \<Rightarrow> string \<Rightarrow> bpost \<Rightarrow> 'm machine \<Rightarrow> (bpost \<times> 'm machine \<times> int) option" where
  "kvm_backend_streaming_post B invoc data p mi =
     (let len = of_nat (length data) :: u64;
          fail = (\<lambda>p mi e. Some (p, upd_stats (count_exception e) mi, -1)) in
      if po_length p + len > po_capacity p then fail p mi (MachineException ''POST request too large'' (po_capacity p))
      else case entry_at (be_entries B) (entry_index BACKEND_STREAM) of
        Inl e \<Rightarrow> fail p mi e
      | Inr addr \<Rightarrow>
          if addr \<noteq> 0 then
            (case stream_post B invoc addr data p mi of
               (mi, Some e) \<Rightarrow> fail p mi e
             | (mi, None) \<Rightarrow>
                 Some (p\<lparr>po_length := po_length p + len\<rparr>, mi, if be_retval B (mi_vm mi) = len then 0 else -1))
          else
            (case buffer_post B data p mi of
               None \<Rightarrow> None
             | Some (p, mi, Some e) \<Rightarrow> fail p mi e
             | Some (p, mi, None) \<Rightarrow> Some (p, mi, 0)))"

text \<open>
  \<open>kvm_get_aggregate_body\<close> skips empty pieces; Varnish calls it for each piece of the body until it
  returns something else than zero.
\<close>

definition kvm_get_aggregate_body ::
    "'m benv \<Rightarrow> chain_item \<Rightarrow> string \<Rightarrow> bpost \<Rightarrow> 'm machine \<Rightarrow> (bpost \<times> 'm machine \<times> int) option" where
  "kvm_get_aggregate_body B invoc data p mi =
     (if data \<noteq> [] then kvm_backend_streaming_post B invoc data p mi else Some (p, mi, 0))"

fun iterate_body ::
    "'m benv \<Rightarrow> chain_item \<Rightarrow> string list \<Rightarrow> bpost \<Rightarrow> 'm machine \<Rightarrow> (bpost \<times> 'm machine \<times> int) option" where
  "iterate_body B invoc [] p mi = Some (p, mi, 0)"
| "iterate_body B invoc (d # ds) p mi =
     (case kvm_get_aggregate_body B invoc d p mi of
        None \<Rightarrow> None
      | Some (p, mi, r) \<Rightarrow> if r \<noteq> 0 then Some (p, mi, r) else iterate_body B invoc ds p mi)"

text \<open>\<open>kvm_get_body\<close>, with the pieces Varnish has, or none when there is no body to iterate over.\<close>

definition kvm_get_body ::
    "'m benv \<Rightarrow> chain_item \<Rightarrow> string list option \<Rightarrow> bpost \<Rightarrow> 'm machine \<Rightarrow> (bpost \<times> 'm machine \<times> int) option" where
  "kvm_get_body B invoc body p mi =
     (let p = p\<lparr>po_length := 0\<rparr> in
      case body of Some ds \<Rightarrow> iterate_body B invoc ds p mi | None \<Rightarrow> Some (p, mi, -1))"

text \<open>
  \<open>kvm_handle_post_to_another\<close>: the buffers of one program become the request body of the next, and
  its content type the next one's argument. \<open>ws\<close> is whether the workspace has room for it.
\<close>

fun post_buffers ::
    "'m benv \<Rightarrow> chain_item \<Rightarrow> string list \<Rightarrow> bpost \<Rightarrow> 'm machine \<Rightarrow> (bpost \<times> 'm machine \<times> int) option" where
  "post_buffers B invoc [] p mi = Some (p, mi, 0)"
| "post_buffers B invoc (d # ds) p mi =
     (case kvm_backend_streaming_post B invoc d p mi of
        None \<Rightarrow> None
      | Some (p, mi, r) \<Rightarrow> if r < 0 then Some (p, mi, -1) else post_buffers B invoc ds p mi)"

definition kvm_handle_post_to_another ::
    "'m benv \<Rightarrow> bool \<Rightarrow> chain_item \<Rightarrow> bresult \<Rightarrow> bpost \<Rightarrow> 'm machine \<Rightarrow>
     (chain_item \<times> bresult \<times> bpost \<times> 'm machine \<times> int) option" where
  "kvm_handle_post_to_another B ws invoc r p mi =
     (case post_buffers B invoc (br_buffers r) p mi of
        None \<Rightarrow> None
      | Some (p, mi, e) \<Rightarrow>
          if e < 0 then Some (invoc, r, p, mi, -1)
          else Some (invoc\<lparr>ci_content_type := (if br_type r = [] \<or> \<not> ws then [] else br_type r), ci_method := ''POST''\<rparr>,
                     r\<lparr>br_bufcount := VMBE_NUM_BUFFERS\<rparr>, p, mi, 0))"

section \<open>Delivering a response\<close>

text \<open>
  \<open>kvmbe_write_response\<close>: status, content length, and whether the streaming fetch processor is used.
  None is a lack of workspace.
\<close>

definition kvmbe_write_response :: "bool \<Rightarrow> bresult \<Rightarrow> (bresult \<times> u64 \<times> bool) option" where
  "kvmbe_write_response ws r =
     (let r = (if br_status r < 200 then r\<lparr>br_status := 500\<rparr> else r) in
      if \<not> ws then None
      else Some (r, br_content_length r, br_content_length r > 0 \<and> br_bufcount r = 0))"

text \<open>
  \<open>kvm_backend_streaming_delivery\<close>: the guest's callback makes the next piece of the response. The
  first component of the value is the returned length, or minus one; None is the failed assertion
  that there is a callback.
\<close>

definition kvm_backend_streaming_delivery ::
    "'m benv \<Rightarrow> bresult \<Rightarrow> nat \<Rightarrow> nat \<Rightarrow> 'm machine \<Rightarrow> ('m machine \<times> int \<times> string) option" where
  "kvm_backend_streaming_delivery B r max_len written mi =
     (case br_stream r of
        None \<Rightarrow> None
      | Some (callback, arg) \<Rightarrow>
          if callback = 0 then None
          else
            let fail = (\<lambda>mi e. Some (upd_stats (count_exception e) mi, -1, [])) in
            (case x_run (be_exec B)
                (VCall callback [AInt arg, AInt (of_nat max_len), AInt (of_nat written), AInt (br_content_length r)]
                  STREAM_HANDLING_TIMEOUT)
                (mi\<lparr>mi_ctx := None\<rparr>) of
              (mi, Some e) \<Rightarrow> fail mi e
            | (mi, None) \<Rightarrow>
                let regs = x_regs (be_exec B) (mi_vm mi); len = min max_len (unat (r_rdx regs)) in
                (case go_read (be_guest B) (r_rdi regs) len (mi_vm mi) of
                   Inl e \<Rightarrow> fail mi e
                 | Inr data \<Rightarrow> Some (mi, int len, data))))"

lemma streaming_delivery_len:
  "kvm_backend_streaming_delivery B r max_len written mi = Some (mi', len, data) \<Longrightarrow> len \<le> int max_len"
  by (auto simp: kvm_backend_streaming_delivery_def Let_def split: option.splits prod.splits if_splits sum.splits)

text \<open>
  \<open>kvmfp_streaming_pull\<close>: the total so far is \<open>priv2\<close>, and \<open>out\<close> what this call has written. The loop
  ends because every piece is positive and no larger than the room.
\<close>

function streaming_pull_loop ::
    "'m benv \<Rightarrow> bresult \<Rightarrow> nat \<Rightarrow> nat \<Rightarrow> string \<Rightarrow> 'm machine \<Rightarrow> ('m machine \<times> nat \<times> string \<times> vfp_status) option" where
  "streaming_pull_loop B r room priv2 out mi =
     (case kvm_backend_streaming_delivery B r room priv2 mi of
        None \<Rightarrow> None
      | Some (mi, len, data) \<Rightarrow>
          if len \<le> 0 then Some (mi, priv2, out, VFP_ERROR)
          else
            let priv2 = priv2 + nat len; out = out @ data; room = room - nat len in
            if priv2 = unat (br_content_length r) then Some (mi, priv2, out, VFP_END)
            else if room = 0 then Some (mi, priv2, out, VFP_OK)
            else streaming_pull_loop B r room priv2 out mi)"
  by pat_completeness auto
termination
proof (relation "measure (\<lambda>(B, r, room, _). room)", goal_cases)
  case (2 B r room priv2 out mi a b mi' len data)
  then show ?case using streaming_delivery_len [of B r room priv2 mi] by force
qed simp

definition kvmfp_streaming_pull ::
    "'m benv \<Rightarrow> bresult \<Rightarrow> nat \<Rightarrow> nat \<Rightarrow> 'm machine \<Rightarrow> ('m machine \<times> nat \<times> string \<times> vfp_status) option" where
  "kvmfp_streaming_pull B r room priv2 mi = streaming_pull_loop B r room priv2 [] mi"

section \<open>Warmup\<close>

fun warm_headers :: "'m benv \<Rightarrow> string list \<Rightarrow> bheader list \<Rightarrow> 'm bstate \<Rightarrow> 'm bstate \<times> bheader list res" where
  "warm_headers B [] hs s = (s, Inr hs)"
| "warm_headers B (f # fs) hs s =
     (if CHR '':'' \<notin> set f then (s, Inl (RuntimeError (''Invalid header in warmup: '' @ f)))
      else case push_with (x_push (be_exec B)) f (\<lambda>a i. i) s of
        (s, Some e) \<Rightarrow> (s, Inl e)
      | (s, None) \<Rightarrow>
          warm_headers B fs (hs @ [\<lparr>bh_ptr = bs_stack s, bh_colon = find_colon f, bh_len = of_nat (length f)\<rparr>]) s)"

text \<open>\<open>perform_warmup_request\<close>: a request without a context whose response is only checked for, not fetched.\<close>

definition warmup_request :: "'m benv \<Rightarrow> chain_item \<Rightarrow> string list \<Rightarrow> 'm bstate stmt" where
  "warmup_request B invoc headers =
     stmt_seq (upd_bmi begin_call)
    (stmt_seq (stmt_upd (\<lambda>s. let mi = inputs_area B (bs_mi s)
                  in s\<lparr>bs_mi := mi, bs_inputs := binputs_zero, bs_stack := mi_inputs_allocation mi\<rparr>))
    (stmt_seq (fill_backend_inputs B invoc None)
    (stmt_seq (\<lambda>s. case warm_headers B headers [] s of (s, Inl e) \<Rightarrow> (s, Some e) | (s, Inr hs) \<Rightarrow> push_header_array B hs s)
    (stmt_seq (stmt_upd (\<lambda>s. s\<lparr>bs_inputs := (bs_inputs s)\<lparr>in_info_flags := 1\<rparr>\<rparr>))
    (stmt_seq (copy_inputs B)
    (stmt_seq (\<lambda>s. run_vm B (VResume (conf_max_req_time (be_conf B) (mi_is_debug (bs_mi s)))) s)
    (stmt_seq (stmt_throw_if (\<lambda>s. \<not> response_called 1 (bs_mi s) \<and> \<not> response_called 10 (bs_mi s))
                 (RuntimeError ''HTTP response not set. Program crashed? Check logs!''))
    (stmt_seq (upd_bmi (\<lambda>mi. mi\<lparr>mi_waiting := False\<rparr>))
    (stmt_seq (run_vm B (VUser USERMODE_TIMEOUT))
    (stmt_seq (stmt_throw_if (\<lambda>s. \<not> mi_waiting (bs_mi s))
                 (RuntimeError ''VM did not wait for requests after backend request''))
       (upd_bmi (skip_out B))))))))))))"

definition perform_warmup_request :: "'m benv \<Rightarrow> chain_item \<Rightarrow> string list \<Rightarrow> 'm bstate \<Rightarrow> 'm bstate \<times> bool" where
  "perform_warmup_request B invoc headers s =
     (case warmup_request B invoc headers s of (s, e) \<Rightarrow> (s, e = None))"

text \<open>
  The loop: a fixed number of requests, or until a number of requests in a row has not been faster
  than the best one. \<open>sample i\<close> is what the profiler measures for request \<open>i\<close>. The loop need not end, so
  it is a partial function.
\<close>

partial_function (option) warmup_loop ::
    "('s \<Rightarrow> 's \<times> bool) \<Rightarrow> (nat \<Rightarrow> u64) \<Rightarrow> u16 \<Rightarrow> bool \<Rightarrow> nat \<Rightarrow> u64 \<Rightarrow> int \<Rightarrow> 's \<Rightarrow> 's option" where
  "warmup_loop req sample n exact i best bailout s =
     (if \<not> snd (req s) then Some (fst (req s))
      else if exact then
        (if i + 1 \<ge> unat n then Some (fst (req s))
         else warmup_loop req sample n exact (i + 1) best bailout (fst (req s)))
      else if sample i < best then warmup_loop req sample n exact (i + 1) (sample i) (int (unat n)) (fst (req s))
      else if bailout - 1 = 0 then Some (fst (req s))
      else warmup_loop req sample n exact (i + 1) best (bailout - 1) (fst (req s)))"

text \<open>
  \<open>backend_warmup_pause_resume\<close>: the loop runs with a context of its own, whose request and response
  have room for four fields, and the previous context comes back. The first component is the
  exception when there was no context before.
\<close>

definition backend_warmup_pause_resume ::
    "'m benv \<Rightarrow> nat \<Rightarrow> (nat \<Rightarrow> u64) \<Rightarrow> chain_item \<Rightarrow> warmup \<Rightarrow> 'm bstate \<Rightarrow> ('m bstate \<times> exn option) option" where
  "backend_warmup_pause_resume B fake sample invoc w s =
     (case need_ctx s of
        (s, Some e) \<Rightarrow> Some (s, Some e)
      | (s, None) \<Rightarrow>
          let previous_ctx = mi_ctx (bs_mi s); previous_http = bs_http s;
              hp = \<lparr>h_fields_max = 4, h_fields = []\<rparr>;
              s = s\<lparr>bs_mi := (bs_mi s)\<lparr>mi_ctx := Some fake\<rparr>,
                    bs_http := \<lparr>hc_bo = False, hc_bereq = None, hc_beresp = None, hc_req = Some hp, hc_resp = Some hp\<rparr>\<rparr>
          in map_option (\<lambda>s. (s\<lparr>bs_mi := (bs_mi s)\<lparr>mi_ctx := previous_ctx\<rparr>, bs_http := previous_http\<rparr>, None))
               (warmup_loop (perform_warmup_request B invoc (w_headers w)) sample (w_num_requests w) (w_exact w)
                  0 (- 1) (int (unat (w_num_requests w))) s))"

text \<open>\<open>MachineInstance::warmup\<close>.\<close>

definition machine_warmup :: "'m benv \<Rightarrow> nat \<Rightarrow> (nat \<Rightarrow> u64) \<Rightarrow> nat \<Rightarrow> 'm bstate \<Rightarrow> ('m bstate \<times> exn option) option" where
  "machine_warmup B fake sample tenant s =
     (case g_warmup (t_group (be_conf B)) of
        None \<Rightarrow> Some (s, Some (RuntimeError ''Warmup has not been enabled''))
      | Some w \<Rightarrow>
          if w_url w = [] then Some (s, Some (RuntimeError ''Warmup URL is empty''))
          else if w_method w = [] then Some (s, Some (RuntimeError ''Warmup method is empty''))
          else
            let invoc = \<lparr>ci_tenant = tenant, ci_special = False, ci_method = w_method w, ci_url = w_url w, ci_argument = [],
                         ci_content_type = [], ci_break_status = 0, ci_soft_reset = 0\<rparr>
            in map_option (\<lambda>(s, e). (s\<lparr>bs_mi := (bs_mi s)\<lparr>mi_warming_up := False\<rparr>\<rparr>, e))
                 (backend_warmup_pause_resume B fake sample invoc w (s\<lparr>bs_mi := (bs_mi s)\<lparr>mi_warming_up := True\<rparr>\<rparr>)))"

section \<open>Lemmas\<close>

lemma http_set_field_returns: "\<exists>r. http_set_field A buffer hp = Some r"
proof -
  have "\<exists>hp'. http_unsetat (http_findhdr hp buffer) hp = Some hp'" if "http_findhdr hp buffer > 0"
    using that by (auto simp: http_findhdr_def http_unsetat_def HDR_FIRST_def split: option.splits dest!: first_index_SomeD)
  then show ?thesis by (auto simp: http_set_field_def Let_def split: option.splits sum.splits)
qed

lemma kvm_http_set_returns: "\<exists>r. kvm_http_set A G ws w g_what g_wlen mi c = Some r"
proof -
  have "http_set_field A buffer hp \<noteq> None" for buffer hp
    using http_set_field_returns [of A buffer hp] by auto
  then show ?thesis by (auto simp: kvm_http_set_def split: sum.splits)
qed

subsection \<open>Warmup ends\<close>

lemma warmup_exact_ends: "\<exists>s'. warmup_loop req sample n True i best bailout s = Some s'"
proof (induction "unat n - i" arbitrary: i s)
  case 0
  then show ?case by (subst warmup_loop.simps) simp
next
  case (Suc k)
  from Suc(2) have "k = unat n - (i + 1)" by simp
  from Suc(1) [OF this] show ?case by (subst warmup_loop.simps) simp
qed

lemma warmup_heuristic_ends:
  assumes "n > 0"
  shows "bailout > 0 \<Longrightarrow> \<exists>s'. warmup_loop req sample n False i best bailout s = Some s'"
proof (induction "(unat best, nat bailout)" arbitrary: i best bailout s rule: wf_induct_rule [OF wf_lex_prod [OF wf_less wf_less]])
  case less: (1 best bailout i s)
  from assms have pos: "int (unat n) > 0" by (simp only: word_less_nat_alt of_nat_0_less_iff unat_0)
  have better: "\<exists>s'. warmup_loop req sample n False (i + 1) (sample i) (int (unat n)) (fst (req s)) = Some s'"
    if "sample i < best"
    using that pos by (intro less(1)) (simp_all only: word_less_nat_alt in_lex_prod less_eq mem_Collect_eq split simp_thms)
  have worse: "\<exists>s'. warmup_loop req sample n False (i + 1) best (bailout - 1) (fst (req s)) = Some s'"
    if "bailout - 1 \<noteq> 0"
    using that less(2) by (intro less(1)) auto
  show ?case
    by (subst warmup_loop.simps) (use better worse in simp)
qed

lemma warmup_zero_never_ends:
  assumes "warmup_loop req sample n exact i best bailout s = Some s'"
  shows "n = 0 \<longrightarrow> \<not> exact \<longrightarrow> bailout \<le> 0 \<longrightarrow> (\<exists>s. \<not> snd (req s))"
  by (rule warmup_loop.raw_induct
      [where P = "\<lambda>req sample n exact i best bailout s y. n = 0 \<longrightarrow> \<not> exact \<longrightarrow> bailout \<le> 0 \<longrightarrow> (\<exists>s. \<not> snd (req s))",
        OF _ assms])
    (auto split: if_splits)

subsection \<open>What a call keeps\<close>

text \<open>
  What is relied on of the monitor: running a guest leaves the context alone and never takes back a
  request for a reset, and the gathered buffers are within the room given, not empty, and make up the
  range.
\<close>

definition run_law :: "'m exec_ops \<Rightarrow> bool" where
  "run_law X \<longleftrightarrow> (\<forall>c mi. mi_ctx (fst (x_run X c mi)) = mi_ctx mi \<and>
     (mi_reset_needed mi \<longrightarrow> mi_reset_needed (fst (x_run X c mi))))"

definition gather_law :: "'m guest_ops \<Rightarrow> bool" where
  "gather_law G \<longleftrightarrow> (\<forall>k a n vm bufs. go_gather G k a n vm = Inr bufs \<longrightarrow>
     length bufs \<le> k \<and> [] \<notin> set bufs \<and> sum_list (map length bufs) = unat n)"

definition result_wf :: "bresult \<Rightarrow> bool" where
  "result_wf r \<longleftrightarrow> 200 \<le> br_status r \<and> br_status r < 600 \<and> br_bufcount r = length (br_buffers r) \<and>
     br_bufcount r \<le> VMBE_NUM_BUFFERS \<and>
     (case br_stream r of
        None \<Rightarrow> sum_list (map length (br_buffers r)) = unat (br_content_length r)
      | Some (callback, arg) \<Rightarrow> callback \<noteq> 0 \<and> br_content_length r \<noteq> 0 \<and> br_buffers r = [])"

definition call_inv :: "nat \<Rightarrow> bool \<Rightarrow> 'm bstate \<Rightarrow> bool" where
  "call_inv ctx rn s \<longleftrightarrow> mi_ctx (bs_mi s) = Some ctx \<and> (rn \<longrightarrow> mi_reset_needed (bs_mi s)) \<and>
     br_bufcount (bs_result s) \<le> VMBE_NUM_BUFFERS"

lemma sanitize_status_code_range:
  "sanitize_status_code c = Inr v \<Longrightarrow> 200 \<le> v \<and> v < 600"
  by (auto simp: sanitize_status_code_def split: if_splits)

lemma call_inv_upd_bmi:
  "(\<And>mi. mi_ctx (f mi) = mi_ctx mi \<and> mi_reset_needed (f mi) = mi_reset_needed mi) \<Longrightarrow> stmt_inv (call_inv ctx rn) (upd_bmi f)"
  by (rule stmt_invI) (simp add: upd_bmi_def call_inv_def)

lemma call_inv_run_vm [sinv_intros]:
  assumes "run_law (be_exec B)" shows "stmt_inv (call_inv ctx rn) (run_vm B c)"
proof (rule stmt_invI)
  fix s :: "'a bstate"
  obtain mi e where "x_run (be_exec B) c (bs_mi s) = (mi, e)" by fastforce
  moreover from assms this have "mi_ctx mi = mi_ctx (bs_mi s)" "mi_reset_needed (bs_mi s) \<Longrightarrow> mi_reset_needed mi"
    unfolding run_law_def by (metis fst_conv)+
  moreover assume "call_inv ctx rn s"
  ultimately show "call_inv ctx rn (fst (run_vm B c s))" by (auto simp: run_vm_def call_inv_def)
qed

lemma call_inv_need_ctx [sinv_intros]: "stmt_inv P need_ctx"
  by (rule stmt_invI) (simp add: need_ctx_def split: sum.splits)

lemma call_inv_push_with [sinv_intros]: "stmt_inv (call_inv ctx rn) (push_with push bytes f)"
  by (rule stmt_invI) (auto simp: push_with_def call_inv_def split: sum.splits)

lemma call_inv_fill_inputs [sinv_intros]: "stmt_inv (call_inv ctx rn) (fill_backend_inputs B invoc post)"
  unfolding fill_backend_inputs_def push_cut_def Let_def
  by (cases post; simp only: option.case; intro sinv_intros;
      (rule stmt_invI)?; auto simp: call_inv_def rand_inputs_def Let_def split: prod.splits)

lemma call_inv_push_headers:
  "push_headers push fs hs s = (s', r) \<Longrightarrow> call_inv ctx rn s \<Longrightarrow> call_inv ctx rn s'"
proof (induction push fs hs s rule: push_headers.induct)
  case (2 push f fs hs s)
  obtain s1 e where p: "push_with push f (\<lambda>a i. i) s = (s1, e)" by fastforce
  with stmt_invD [OF call_inv_push_with p] 2 show ?case by (cases e) auto
qed simp

lemma call_inv_fill_headers [sinv_intros]: "stmt_inv (call_inv ctx rn) (fill_backend_headers B)"
proof (rule stmt_invI)
  fix s :: "'a bstate" assume inv: "call_inv ctx rn s"
  then show "call_inv ctx rn (fst (fill_backend_headers B s))"
    by (auto simp: fill_backend_headers_def push_header_array_def call_inv_def [of _ _ "s\<lparr>bs_inputs := _\<rparr>"] call_inv_def [of _ _ s]
        split: sum.splits prod.splits
        intro: call_inv_push_with [unfolded stmt_inv_def, rule_format] dest!: call_inv_push_headers [of _ _ _ _ _ _ ctx rn])
qed

lemma set_headers_kept:
  "set_headers B w as s = (s', e) \<Longrightarrow> bs_mi s' = bs_mi s \<and> bs_result s' = bs_result s"
proof (induction B w as s rule: set_headers.induct)
  case (2 B w a as s)
  then show ?case by (auto split: sum.splits option.splits prod.splits)
qed simp

lemma fetch_extra_kept:
  assumes "fetch_extra B p s = (s', e)" shows "bs_mi s' = bs_mi s \<and> bs_result s' = bs_result s"
  using assms
  by (auto simp: fetch_extra_def stmt_seq_def Let_def split: if_splits sum.splits prod.splits option.splits
      dest!: set_headers_kept)

lemma call_inv_result:
  "(\<And>r. br_bufcount r \<le> VMBE_NUM_BUFFERS \<Longrightarrow> br_bufcount (f r) \<le> VMBE_NUM_BUFFERS) \<Longrightarrow> stmt_inv (call_inv ctx rn) (upd_result f)"
  by (rule stmt_invI) (simp add: upd_result_def call_inv_def)

lemma fetch_regular_cases:
  assumes "fetch_regular B r ctype s = (s', e)"
  shows "bs_mi s' = bs_mi s" and
    "(\<exists>x. e = Some x) \<and> br_bufcount (bs_result s') = br_bufcount (bs_result s) \<or>
     (\<exists>bufs. e = None \<and> go_gather (be_guest B) (br_bufcount (bs_result s)) (r_rcx r) (r_r8 r) (mi_vm (bs_mi s)) = Inr bufs \<and>
        bs_result s' = \<lparr>br_type = ctype, br_status = sint (ucast (r_rdi r) :: u16), br_content_length = r_r8 r,
          br_bufcount = length bufs, br_buffers = bufs, br_stream = None\<rparr> \<and>
        200 \<le> sint (ucast (r_rdi r) :: u16) \<and> sint (ucast (r_rdi r) :: u16) < 600)"
  using assms
  by (auto simp: fetch_regular_def stmt_defs upd_result_def sanitize_status_code_def split: if_splits sum.splits)

lemma fetch_streaming_cases:
  assumes "fetch_streaming r ctype s = (s', e)"
  shows "bs_mi s' = bs_mi s" and
    "(\<exists>x. e = Some x) \<and> br_bufcount (bs_result s') = br_bufcount (bs_result s) \<or>
     e = None \<and> result_wf (bs_result s') \<and> br_bufcount (bs_result s') = 0"
  using assms
  by (auto simp: fetch_streaming_def stmt_defs upd_result_def sanitize_status_code_def result_wf_def split: if_splits sum.splits)

text \<open>A fetch keeps the machine but for its counters, keeps the room, and its result is well formed.\<close>

definition fetched :: "'m bstate \<Rightarrow> 'm bstate \<Rightarrow> exn option \<Rightarrow> bool" where
  "fetched s s' e \<longleftrightarrow> mi_ctx (bs_mi s') = mi_ctx (bs_mi s) \<and> mi_reset_needed (bs_mi s') = mi_reset_needed (bs_mi s) \<and>
     br_bufcount (bs_result s') \<le> VMBE_NUM_BUFFERS \<and> (e = None \<longrightarrow> result_wf (bs_result s'))"

lemma fetch_part:
  assumes "gather_law (be_guest B)" and "br_bufcount (bs_result s) \<le> VMBE_NUM_BUFFERS"
    and "(if regular then fetch_regular B r ctype else fetch_streaming r ctype) s = (s', e)"
  shows "fetched s s' e"
proof (cases regular)
  case True
  with assms(3) have f: "fetch_regular B r ctype s = (s', e)" by simp
  note c = fetch_regular_cases [OF f]
  from c(2) show ?thesis
  proof (elim disjE exE conjE)
    fix bufs
    assume g: "go_gather (be_guest B) (br_bufcount (bs_result s)) (r_rcx r) (r_r8 r) (mi_vm (bs_mi s)) = Inr bufs"
    have l: "length bufs \<le> br_bufcount (bs_result s)" and "sum_list (map length bufs) = unat (r_r8 r)"
      using assms(1) g unfolding gather_law_def by blast+
    moreover assume "bs_result s' = \<lparr>br_type = ctype, br_status = sint (ucast (r_rdi r) :: u16), br_content_length = r_r8 r,
        br_bufcount = length bufs, br_buffers = bufs, br_stream = None\<rparr>"
      and "200 \<le> sint (ucast (r_rdi r) :: u16)" and "sint (ucast (r_rdi r) :: u16) < 600"
    ultimately show ?thesis using assms(2) c(1) by (simp add: fetched_def result_wf_def)
  qed (use assms(2) c(1) in \<open>simp_all add: fetched_def\<close>)
next
  case False
  with assms(3) have f: "fetch_streaming r ctype s = (s', e)" by simp
  from fetch_streaming_cases [OF f] assms(2) show ?thesis by (auto simp: fetched_def)
qed

lemma fetch_result_fetched:
  assumes "gather_law (be_guest B)" and "br_bufcount (bs_result s) \<le> VMBE_NUM_BUFFERS" and "fetch_result B s = (s', e)"
  shows "fetched s s' e"
proof (cases "response_called 1 (bs_mi s) \<or> response_called 10 (bs_mi s)")
  case False
  with assms(2,3) show ?thesis by (auto simp: fetch_result_def Let_def fetched_def)
next
  case called: True
  let ?r = "x_regs (be_exec B) (mi_vm (bs_mi s))"
  let ?s1 = "s\<lparr>bs_mi := upd_stats (count_status (to_u16 (r_rdi ?r))) (bs_mi s)\<rparr>"
  show ?thesis
  proof (cases "fetch_type B ?r (bs_mi s)")
    case (Inl x)
    with called assms(2,3) show ?thesis
      by (auto simp: fetch_result_def Let_def fetched_def stmt_defs upd_bmi_def)
  next
    case (Inr ctype)
    let ?reg = "response_called 1 (bs_mi s)"
    obtain s2 e2 where p: "(if ?reg then fetch_regular B ?r ctype else fetch_streaming ?r ctype) ?s1 = (s2, e2)"
      by fastforce
    have f: "fetched ?s1 s2 e2" by (rule fetch_part [OF assms(1) _ p]) (use assms(2) in simp)
    show ?thesis
    proof (cases e2)
      case (Some x)
      with f p called assms(3) Inr show ?thesis
        by (auto simp: fetch_result_def Let_def fetched_def stmt_defs upd_bmi_def)
    next
      case None
      let ?s3 = "s2\<lparr>bs_mi := upd_stats (\<lambda>t. t\<lparr>st_output_bytes := st_output_bytes t + br_content_length (bs_result s2)\<rparr>) (bs_mi s2),
        bs_program_status := bs_program_status s2 @ [br_status (bs_result s2)]\<rparr>"
      have "(if ?reg then fetch_extra B (r_r9 ?r) else stmt_skip) ?s3 = (s', e)"
        using p None called assms(3) Inr by (auto simp: fetch_result_def Let_def stmt_defs upd_bmi_def split: if_splits)
      then have "bs_mi s' = bs_mi ?s3" "bs_result s' = bs_result s2"
        by (auto simp: stmt_skip_def split: if_splits dest: fetch_extra_kept)
      with f None show ?thesis by (auto simp: fetched_def)
    qed
  qed
qed

lemma call_inv_fetch_result [sinv_intros]:
  assumes "gather_law (be_guest B)" shows "stmt_inv (call_inv ctx rn) (fetch_result B)"
proof (rule stmt_invI)
  fix s :: "'a bstate" assume inv: "call_inv ctx rn s"
  obtain s' e where f: "fetch_result B s = (s', e)" by fastforce
  from fetch_result_fetched [OF assms _ f] inv f show "call_inv ctx rn (fst (fetch_result B s))"
    by (auto simp: call_inv_def fetched_def)
qed

text \<open>A fetch that came as far as recording the status, or that completed, has gathered the buffers.\<close>

lemma fetch_regular_status:
  "fetch_regular B r ctype s = (s', e) \<Longrightarrow> bs_program_status s' = bs_program_status s"
  by (auto simp: fetch_regular_def stmt_defs upd_result_def sanitize_status_code_def split: if_splits sum.splits)

lemma fetch_result_gathers:
  assumes "response_called 1 (bs_mi s)" and "fetch_result B s = (s1, e)"
    and "e = None \<or> bs_program_status s1 \<noteq> bs_program_status s"
  defines "r \<equiv> x_regs (be_exec B) (mi_vm (bs_mi s))"
  obtains bufs where "go_gather (be_guest B) (br_bufcount (bs_result s)) (r_rcx r) (r_r8 r) (mi_vm (bs_mi s)) = Inr bufs"
    and "br_bufcount (bs_result s1) = length bufs"
proof -
  let ?s1 = "s\<lparr>bs_mi := upd_stats (count_status (to_u16 (r_rdi r))) (bs_mi s)\<rparr>"
  obtain ctype where Inr: "fetch_type B r (bs_mi s) = Inr ctype"
    using assms by (cases "fetch_type B r (bs_mi s)") (auto simp: fetch_result_def Let_def stmt_defs upd_bmi_def)
  obtain s2 e2 where p: "fetch_regular B r ctype ?s1 = (s2, e2)" by fastforce
  have "e2 = None"
    using assms Inr p fetch_regular_status [OF p]
    by (cases e2) (auto simp: fetch_result_def Let_def stmt_defs upd_bmi_def)
  with fetch_regular_cases(2) [OF p] obtain bufs
    where g: "go_gather (be_guest B) (br_bufcount (bs_result s)) (r_rcx r) (r_r8 r) (mi_vm (bs_mi s)) = Inr bufs"
      and b: "br_bufcount (bs_result s2) = length bufs" by auto
  let ?s3 = "s2\<lparr>bs_mi := upd_stats (\<lambda>t. t\<lparr>st_output_bytes := st_output_bytes t + br_content_length (bs_result s2)\<rparr>) (bs_mi s2),
    bs_program_status := bs_program_status s2 @ [br_status (bs_result s2)]\<rparr>"
  have "fetch_extra B (r_r9 r) ?s3 = (s1, e)"
    using assms(1,2) Inr p \<open>e2 = None\<close> by (simp add: fetch_result_def Let_def stmt_defs upd_bmi_def r_def)
  then have "bs_result s1 = bs_result s2" by (auto dest: fetch_extra_kept)
  with g b show ?thesis by (intro that) simp_all
qed

subsection \<open>What a call ensures\<close>

definition ensures :: "('s \<Rightarrow> bool) \<Rightarrow> ('s \<Rightarrow> bool) \<Rightarrow> 's stmt \<Rightarrow> bool" where
  "ensures I P a \<longleftrightarrow> (\<forall>s s'. I s \<longrightarrow> a s = (s', None) \<longrightarrow> P s')"

lemma ensures_seq: "\<lbrakk>stmt_inv I a; ensures I P b\<rbrakk> \<Longrightarrow> ensures I P (stmt_seq a b)"
  unfolding ensures_def stmt_seq_def by (auto split: prod.splits option.splits dest: stmt_invD)

lemma ensures_with: "(\<And>x. ensures I P (k x)) \<Longrightarrow> ensures I P (stmt_with r k)"
  by (cases r) (auto simp: ensures_def stmt_defs)

lemma ensures_after:
  "\<lbrakk>ensures I P a; \<And>s s' e. P s \<Longrightarrow> b s = (s', e) \<Longrightarrow> P s'\<rbrakk> \<Longrightarrow> ensures I P (stmt_seq a b)"
  unfolding ensures_def stmt_seq_def by (auto split: prod.splits option.splits)

definition answered :: "'m bstate \<Rightarrow> bool" where
  "answered s \<longleftrightarrow> result_wf (bs_result s)"

lemma call_inv_copy_inputs [sinv_intros]: "stmt_inv (call_inv ctx rn) (copy_inputs B)"
  by (rule stmt_invI) (simp add: copy_inputs_def call_inv_def split: sum.splits)

lemma call_inv_headers_if [sinv_intros]:
  "stmt_inv (call_inv ctx rn) (\<lambda>s. if mi_ctx (bs_mi s) \<noteq> None then fill_backend_headers B s else (s, None))"
  using call_inv_fill_headers [of ctx rn B] by (simp add: stmt_inv_def)

lemma inputs_area_kept [simp]:
  "mi_ctx (inputs_area B mi) = mi_ctx mi" "mi_reset_needed (inputs_area B mi) = mi_reset_needed mi"
  by (simp_all add: inputs_area_def Let_def split: prod.splits)

lemma skip_out_kept [simp]:
  "mi_ctx (skip_out B mi) = mi_ctx mi" "mi_reset_needed (skip_out B mi) = mi_reset_needed mi"
  by (simp_all add: skip_out_def Let_def)

lemma begin_call_kept [simp]:
  "mi_ctx (begin_call mi) = mi_ctx mi" "mi_reset_needed (begin_call mi) = mi_reset_needed mi"
  by (simp_all add: begin_call_def)

lemma ensures_fetch:
  assumes "gather_law (be_guest B)" shows "ensures (call_inv ctx rn) answered (fetch_result B)"
  using assms by (auto simp: ensures_def answered_def call_inv_def fetched_def dest: fetch_result_fetched)

lemma call_inv_wait [sinv_intros]:
  assumes "run_law (be_exec B)"
  shows "stmt_inv (call_inv ctx rn) (\<lambda>s. if c \<and> \<not> mi_waiting (bs_mi s) then stmt_seq (run_vm B v) (stmt_throw_if f e) s else (s, None))"
proof -
  have "stmt_inv (call_inv ctx rn) (stmt_seq (run_vm B v) (stmt_throw_if f e))"
    using assms by (intro sinv_intros)
  then show ?thesis by (simp add: stmt_inv_def)
qed

lemma call_inv_area [sinv_intros]:
  "stmt_inv (call_inv ctx rn) (\<lambda>s. let mi = inputs_area B (bs_mi s)
     in (s\<lparr>bs_mi := mi, bs_inputs := binputs_zero, bs_stack := mi_inputs_allocation mi\<rparr>, None))"
  by (rule stmt_invI) (simp add: call_inv_def Let_def)

lemmas call_inv_rules = sinv_intros call_inv_upd_bmi stmt_inv_upd

lemma call_inv_call_method:
  "run_law (be_exec B) \<Longrightarrow> stmt_inv (call_inv ctx rn) (call_method B invoc post timeout addr)"
  unfolding call_method_def
  by (intro call_inv_rules stmt_inv_split [where k = "\<lambda>s. push_with _ (enc_inputs (bs_inputs s)) _"]
      stmt_inv_split [where k = "\<lambda>s. run_vm B (VCallStack addr (bs_stack s) [AInt (bs_stack s)] timeout)"])
    (simp_all add: call_inv_def)

lemma call_inv_call_get: "run_law (be_exec B) \<Longrightarrow> stmt_inv (call_inv ctx rn) (call_get B invoc timeout addr)"
  unfolding call_get_def by (intro call_inv_rules)

lemma call_inv_call_post: "run_law (be_exec B) \<Longrightarrow> stmt_inv (call_inv ctx rn) (call_post B invoc p timeout addr)"
  unfolding call_post_def by (intro call_inv_rules) simp_all

lemma call_resume_inv:
  assumes "run_law (be_exec B)" and "gather_law (be_guest B)"
  shows "stmt_inv (call_inv ctx rn) (call_resume B invoc post timeout)"
    and "ensures (call_inv ctx rn) answered (call_resume B invoc post timeout)"
proof -
  show "stmt_inv (call_inv ctx rn) (call_resume B invoc post timeout)"
    unfolding call_resume_def Let_def [of "g_ephemeral _"] by (intro call_inv_rules assms) simp_all
  show "ensures (call_inv ctx rn) answered (call_resume B invoc post timeout)"
    unfolding call_resume_def Let_def [of "g_ephemeral _"]
    by (intro ensures_seq call_inv_rules assms ensures_after [OF ensures_fetch])
      (auto simp: stmt_when_def stmt_skip_def upd_bmi_def answered_def split: if_splits)
qed

lemma call_inv_relax:
  "stmt_inv (call_inv ctx rn) (upd_bmi (\<lambda>mi. case post of
     None \<Rightarrow> mi | Some p \<Rightarrow> mi\<lparr>mi_vm := be_relax B (po_address p) (po_capacity p) (po_length p) (mi_vm mi)\<rparr>))"
  by (rule call_inv_upd_bmi) (simp split: option.splits)

lemma ensures_if:
  "\<lbrakk>c \<Longrightarrow> ensures I P a; \<not> c \<Longrightarrow> ensures I P b\<rbrakk> \<Longrightarrow> ensures I P (if c then a else b)"
  by simp

lemma call_entry_inv:
  assumes "run_law (be_exec B)" and "gather_law (be_guest B)"
  shows "stmt_inv (call_inv ctx rn) (call_entry B invoc post timeout)"
    and "ensures (call_inv ctx rn) answered (call_entry B invoc post timeout)"
proof -
  note calls = call_inv_call_method call_inv_call_get call_inv_call_post call_inv_run_vm call_resume_inv [OF assms] assms
  show "stmt_inv (call_inv ctx rn) (call_entry B invoc post timeout)"
    unfolding call_entry_def Let_def
    by (cases post; simp only: option.case; intro sinv_intros calls)
  show "ensures (call_inv ctx rn) answered (call_entry B invoc post timeout)"
    unfolding call_entry_def Let_def
    by (cases post; simp only: option.case; intro ensures_with ensures_if ensures_seq ensures_fetch calls)
qed

lemma call_body_inv:
  assumes "run_law (be_exec B)" and "gather_law (be_guest B)"
  shows "stmt_inv (call_inv ctx rn) (call_body B invoc post)"
    and "ensures (call_inv ctx rn) answered (call_body B invoc post)"
proof -
  have start: "stmt_inv (call_inv ctx rn) (upd_bmi (\<lambda>mi. upd_stats (\<lambda>t. t\<lparr>st_invocations := st_invocations t + 1\<rparr>) (begin_call mi)))"
    by (rule call_inv_upd_bmi) simp
  show "stmt_inv (call_inv ctx rn) (call_body B invoc post)"
    unfolding call_body_def by (rule stmt_inv_seq [OF start stmt_inv_seq [OF call_inv_relax stmt_inv_split]]) (rule call_entry_inv [OF assms])
  have "ensures (call_inv ctx rn) answered (\<lambda>s. call_entry B invoc post (conf_max_req_time (be_conf B) (mi_is_debug (bs_mi s))) s)"
    using call_entry_inv(2) [OF assms] by (auto simp: ensures_def)
  then show "ensures (call_inv ctx rn) answered (call_body B invoc post)"
    unfolding call_body_def by (rule ensures_seq [OF start ensures_seq [OF call_inv_relax]])
qed

lemma error_page_inv:
  assumes "run_law (be_exec B)" and "gather_law (be_guest B)"
  shows "stmt_inv (call_inv ctx rn) (error_page B invoc ex addr)"
    and "ensures (call_inv ctx rn) answered (error_page B invoc ex addr)"
proof -
  note rules = call_inv_rules assms
  show "stmt_inv (call_inv ctx rn) (error_page B invoc ex addr)"
    unfolding error_page_def by (intro rules) simp
  show "ensures (call_inv ctx rn) answered (error_page B invoc ex addr)"
    unfolding error_page_def by (intro ensures_seq ensures_fetch rules) simp
qed

lemma error_500_inv: "call_inv ctx rn s \<Longrightarrow> call_inv ctx rn (error_500 s)"
  and error_500_answered: "answered (error_500 s)"
  by (auto simp: call_inv_def error_500_def answered_def error_result_def result_wf_def)

lemma error_handling_answers:
  assumes "run_law (be_exec B)" and "gather_law (be_guest B)" and "call_inv ctx rn s"
    and "error_handling B invoc ex s = (s', e)"
  shows "e = None \<and> answered s' \<and> call_inv ctx True s'"
proof -
  let ?s0 = "s\<lparr>bs_mi := (bs_mi s)\<lparr>mi_reset_needed := True\<rparr>\<rparr>"
  have inv0: "call_inv ctx True ?s0" using assms(3) by (simp add: call_inv_def)
  have ctx: "machine_ctx (bs_mi ?s0) = Inr ctx" using assms(3) by (simp add: call_inv_def machine_ctx_def)
  obtain s1 e1 where d: "(if g_remote_debug_on_exception (t_group (be_conf B)) then run_vm B (VDebug 0x43960000) ?s0 else (?s0, None)) = (s1, e1)"
    by fastforce
  have inv1: "call_inv ctx True s1"
    using d inv0 stmt_invD [OF call_inv_run_vm [OF assms(1)]] by (auto split: if_splits)
  have wait: "call_inv ctx True (error_500 (fst (run_vm B VSmpWait u)))" if "call_inv ctx True u" for u
    using that call_inv_run_vm [OF assms(1)] by (auto simp: stmt_inv_def intro: error_500_inv)
  have page: "answered u \<and> call_inv ctx True u" if "error_page B invoc ex a s1 = (u, None)" for a u
    using error_page_inv(2) [OF assms(1,2)] that inv1 stmt_invD [OF error_page_inv(1) [OF assms(1,2)] that inv1]
    unfolding ensures_def by blast
  have fail: "call_inv ctx True u" if "error_page B invoc ex a s1 = (u, x)" for a u x
    by (rule stmt_invD [OF error_page_inv(1) [OF assms(1,2)] that inv1])
  show ?thesis
    using assms(4) unfolding error_handling_def Let_def ctx sum.case d prod.case
    using inv1 wait page fail error_500_answered
    by (auto split: option.splits sum.splits if_splits prod.splits)
qed

lemma write_response_wf:
  assumes "result_wf r"
  shows "kvmbe_write_response True r = Some (r, br_content_length r, br_stream r \<noteq> None)"
proof -
  have "(br_content_length r > 0 \<and> br_bufcount r = 0) = (br_stream r \<noteq> None)"
    using assms by (auto simp: result_wf_def word_neq_0_conv unat_eq_0 split: option.splits)
  with assms show ?thesis by (simp add: kvmbe_write_response_def result_wf_def)
qed

subsection \<open>The request body is assembled\<close>

definition write_law :: "'m guest_ops \<Rightarrow> ('m \<Rightarrow> u64 \<Rightarrow> char) \<Rightarrow> bool" where
  "write_law G mem \<longleftrightarrow> (\<forall>a s vm vm'. go_write G a s vm = Inr vm' \<longrightarrow> mem vm' = mem_write a s (mem vm))"

definition read_law :: "'m guest_ops \<Rightarrow> bool" where
  "read_law G \<longleftrightarrow> (\<forall>a n vm s. go_read G a n vm = Inr s \<longrightarrow> length s = n)"

lemma mem_read_append:
  assumes "n + length d < 2 ^ 64"
  shows "mem_read (mem_write (a + of_nat n) d m) a (n + length d) = mem_read m a n @ d"
proof (rule nth_equalityI)
  fix i assume "i < length (mem_read (mem_write (a + of_nat n) d m) a (n + length d))"
  then have i: "i < n + length d" by simp
  have diff: "a + of_nat i - (a + of_nat n) = (of_nat i - of_nat n :: u64)" by simp
  show "mem_read (mem_write (a + of_nat n) d m) a (n + length d) ! i = (mem_read m a n @ d) ! i"
  proof (cases "n \<le> i")
    case True
    then have "(of_nat i - of_nat n :: u64) = of_nat (i - n)" by (simp add: of_nat_diff)
    moreover have "unat (of_nat (i - n) :: u64) = i - n"
      using i assms by (simp add: unsigned_of_nat take_bit_nat_eq_self)
    ultimately have "unat (a + of_nat i - (a + of_nat n)) = i - n" by (simp only: diff)
    moreover from True i have "i - n < length d" by simp
    ultimately show ?thesis using True i by (simp add: mem_read_def mem_write_def nth_append)
  next
    case False
    have "unat (of_nat i :: u64) = i" "unat (of_nat n :: u64) = n"
      using i assms False by (simp_all add: unsigned_of_nat take_bit_nat_eq_self)
    then have "unat (a + of_nat i - (a + of_nat n)) = i + 2 ^ 64 - n"
      using False by (simp only: diff unat_sub_if') simp
    moreover have "\<not> i + 2 ^ 64 - n < length d" using assms by simp
    ultimately show ?thesis using False i by (simp add: mem_read_def mem_write_def nth_append)
  qed
qed simp

text \<open>What has been received so far is in the buffer.\<close>

definition body_inv :: "('m \<Rightarrow> u64 \<Rightarrow> char) \<Rightarrow> string \<Rightarrow> u64 \<Rightarrow> bpost \<Rightarrow> 'm machine \<Rightarrow> bool" where
  "body_inv mem acc cap p mi \<longleftrightarrow> po_capacity p = cap \<and> po_length p = of_nat (length acc) \<and> length acc \<le> unat cap \<and>
     (acc = [] \<longrightarrow> po_address p = 0) \<and> mem_read (mem (mi_vm mi)) (po_address p) (length acc) = acc"

text \<open>Writing a piece that fits behind what has been received.\<close>

lemma buffer_post_inv:
  assumes law: "write_law (be_guest B) mem" and small: "length acc + length d \<le> unat cap" "unat cap < 2 ^ 63"
    and inv: "body_inv mem acc cap p mi" and d: "d \<noteq> []"
  obtains (failed) q mi' e where "buffer_post B d p mi = Some (q, mi', Some e)" "po_length q = po_length p"
  | (written) q mi' where "buffer_post B d p mi = Some (q, mi', None)" "body_inv mem (acc @ d) cap q mi'"
proof -
  have pl: "po_length p = of_nat (length acc)" and pc: "po_capacity p = cap" using inv by (simp_all add: body_inv_def)
  have "unat (of_nat (length acc) :: u64) = length acc" using small by (simp add: unsigned_of_nat take_bit_nat_eq_self)
  then have zero: "po_length p = 0 \<longleftrightarrow> acc = []" by (simp add: pl unat_eq_0 [symmetric])
  obtain a mi1 where alloc: "allocate_post_data (be_vm B) cap mi = (a, mi1)" by fastforce
  define q where "q = (if acc = [] then p\<lparr>po_address := a\<rparr> else p)"
  define mi2 where "mi2 = (if acc = [] then mi1 else mi)"
  have q: "po_length q = po_length p" "po_capacity q = cap" by (simp_all add: q_def pc)
  have read: "mem_read (mem (mi_vm mi2)) (po_address q) (length acc) = acc"
    using inv by (auto simp: body_inv_def q_def mi2_def mem_read_def)
  have post: "buffer_post B d p mi =
      (case go_write (be_guest B) (po_address q + po_length q) d (mi_vm mi2) of
         Inl e \<Rightarrow> Some (q, mi2, Some e)
       | Inr vm \<Rightarrow> Some (q\<lparr>po_length := po_length q + of_nat (length d)\<rparr>, mi2\<lparr>mi_vm := vm\<rparr>, None))"
    using inv alloc zero by (auto simp: buffer_post_def body_inv_def q_def mi2_def pc split: prod.splits sum.splits)
  show ?thesis
  proof (cases "go_write (be_guest B) (po_address q + po_length q) d (mi_vm mi2)")
    case (Inl e)
    then show ?thesis using post q by (intro failed [of q mi2 e]) simp_all
  next
    case (Inr vm)
    then have "mem vm = mem_write (po_address q + of_nat (length acc)) d (mem (mi_vm mi2))"
      using law q pl by (simp add: write_law_def)
    then have "mem_read (mem vm) (po_address q) (length acc + length d) = acc @ d"
      using mem_read_append [of "length acc" d "po_address q" "mem (mi_vm mi2)"] read small by simp
    then have "body_inv mem (acc @ d) cap (q\<lparr>po_length := po_length q + of_nat (length d)\<rparr>) (mi2\<lparr>mi_vm := vm\<rparr>)"
      using small d q pl by (simp add: body_inv_def)
    then show ?thesis using post Inr by (intro written) simp_all
  qed
qed

lemma streaming_post_inv:
  assumes law: "write_law (be_guest B) mem" and stream: "entry_at (be_entries B) (entry_index BACKEND_STREAM) = Inr 0"
    and small: "length d < 2 ^ 63" "unat cap < 2 ^ 63" and inv: "body_inv mem acc cap p mi" and d: "d \<noteq> []"
  shows "case kvm_backend_streaming_post B invoc d p mi of
      None \<Rightarrow> False
    | Some (p', mi', r) \<Rightarrow> (r = 0 \<and> body_inv mem (acc @ d) cap p' mi' \<or> r = -1) \<and> po_length p' \<le> cap"
proof -
  have la: "length acc \<le> unat cap" and pl: "po_length p = of_nat (length acc)" and pc: "po_capacity p = cap"
    using inv by (simp_all add: body_inv_def)
  have ul: "unat (of_nat (length acc) :: u64) = length acc" "unat (of_nat (length d) :: u64) = length d"
    using small la by (simp_all add: unsigned_of_nat take_bit_nat_eq_self)
  have sum: "unat (po_length p + of_nat (length d)) = length acc + length d"
    using small la ul by (simp add: pl unat_word_ariths)
  have le: "po_length p \<le> cap" using ul la by (simp add: pl word_le_nat_alt)
  show ?thesis
  proof (cases "po_length p + of_nat (length d) > cap")
    case True
    with le show ?thesis by (simp add: kvm_backend_streaming_post_def pc)
  next
    case False
    then have fits: "length acc + length d \<le> unat cap" using sum by (simp add: word_le_nat_alt not_less)
    from law fits small(2) inv d show ?thesis
    proof (cases rule: buffer_post_inv)
      case (failed q mi' e)
      with False stream le show ?thesis by (simp add: kvm_backend_streaming_post_def pc)
    next
      case (written q mi')
      moreover from written(2) have "po_length q \<le> cap"
        using fits sum by (simp add: body_inv_def pl word_le_nat_alt)
      ultimately show ?thesis using False stream le by (simp add: kvm_backend_streaming_post_def Let_def pc not_less)
    qed
  qed
qed

lemma iterate_body_inv:
  assumes law: "write_law (be_guest B) mem" and stream: "entry_at (be_entries B) (entry_index BACKEND_STREAM) = Inr 0"
    and cap: "unat cap < 2 ^ 63"
  shows "\<lbrakk>list_all (\<lambda>d. length d < 2 ^ 63) ds; body_inv mem acc cap p mi\<rbrakk> \<Longrightarrow>
    case iterate_body B invoc ds p mi of
      None \<Rightarrow> False
    | Some (p', mi', r) \<Rightarrow> (r = 0 \<and> body_inv mem (acc @ concat ds) cap p' mi' \<or> r = -1) \<and> po_length p' \<le> cap"
proof (induction ds arbitrary: acc p mi)
  case Nil
  have "po_length p \<le> cap"
    using Nil cap by (auto simp: body_inv_def word_le_nat_alt unsigned_of_nat intro: order.trans [OF take_bit_nat_less_eq_self])
  with Nil show ?case by simp
next
  case (Cons d ds)
  show ?case
  proof (cases "d = []")
    case True
    from Cons.IH [OF _ Cons.prems(2)] Cons.prems(1) show ?thesis
      unfolding True concat.simps append_Nil by (simp add: kvm_get_aggregate_body_def)
  next
    case False
    have step: "case kvm_backend_streaming_post B invoc d p mi of
      None \<Rightarrow> False
    | Some (p', mi', r) \<Rightarrow> (r = 0 \<and> body_inv mem (acc @ d) cap p' mi' \<or> r = -1) \<and> po_length p' \<le> cap"
      by (rule streaming_post_inv [OF law stream _ cap Cons.prems(2) False]) (use Cons.prems in simp)
    then obtain p' mi' r where post: "kvm_backend_streaming_post B invoc d p mi = Some (p', mi', r)"
      by (auto split: option.splits)
    with step have cases: "r = 0 \<and> body_inv mem (acc @ d) cap p' mi' \<or> r = -1" "po_length p' \<le> cap" by auto
    show ?thesis
    proof (cases "r = 0")
      case True
      with cases have "body_inv mem (acc @ d) cap p' mi'" by simp
      from Cons.IH [OF _ this] Cons.prems post True False show ?thesis
        unfolding concat.simps append_assoc by (simp add: kvm_get_aggregate_body_def)
    next
      case nz: False
      with cases post False show ?thesis by (simp add: kvm_get_aggregate_body_def)
    qed
  qed
qed

subsection \<open>Streamed delivery\<close>

lemma streaming_delivery_read:
  assumes "read_law (be_guest B)" and "kvm_backend_streaming_delivery B r max_len written mi = Some (mi', len, data)" and "len > 0"
  shows "nat len \<le> max_len" and "length data = nat len"
  using assms
  by (auto simp: kvm_backend_streaming_delivery_def Let_def read_law_def split: option.splits prod.splits if_splits sum.splits)

lemma streaming_pull_loop_total:
  "\<lbrakk>streaming_pull_loop B r room priv2 out mi = Some (mi', sent, out', st); read_law (be_guest B)\<rbrakk> \<Longrightarrow>
    \<exists>new. out' = out @ new \<and> sent = priv2 + length new \<and> length new \<le> room \<and>
      (st = VFP_OK \<longrightarrow> length new = room) \<and> (st = VFP_END \<longrightarrow> sent = unat (br_content_length r)) \<and>
      (unat (br_content_length r) < priv2 \<longrightarrow> st \<noteq> VFP_END)"
proof (induction B r room priv2 out mi arbitrary: mi' sent out' st rule: streaming_pull_loop.induct)
  case (1 B r room priv2 out mi)
  from 1(2) obtain mi1 len data where d: "kvm_backend_streaming_delivery B r room priv2 mi = Some (mi1, len, data)"
    by (auto simp: streaming_pull_loop.simps split: option.splits)
  show ?case
  proof (cases "len \<le> 0")
    case True
    with 1(2) d show ?thesis by (simp add: streaming_pull_loop.simps)
  next
    case False
    note read = streaming_delivery_read [OF 1(3) d]
    show ?thesis
    proof (cases "priv2 + nat len = unat (br_content_length r) \<or> room - nat len = 0")
      case True
      with 1(2) d False read show ?thesis
        by (auto simp: streaming_pull_loop.simps Let_def split: if_splits)
    next
      case more: False
      with 1(2) d False have "streaming_pull_loop B r (room - nat len) (priv2 + nat len) (out @ data) mi1 = Some (mi', sent, out', st)"
        by (simp add: streaming_pull_loop.simps [of B r room] Let_def)
      from 1(1) [OF d refl refl False refl refl refl _ _ this 1(3)] more obtain new where
        "out' = (out @ data) @ new" "sent = priv2 + nat len + length new" "length new \<le> room - nat len"
        "st = VFP_OK \<longrightarrow> length new = room - nat len" "st = VFP_END \<longrightarrow> sent = unat (br_content_length r)"
        "unat (br_content_length r) < priv2 + nat len \<longrightarrow> st \<noteq> VFP_END" by auto
      with False read show ?thesis by (intro exI [of _ "data @ new"]) auto
    qed
  qed
qed

subsection \<open>Concrete machines\<close>

text \<open>
  A machine made of memory and registers, with given behaviour and entry points, and a guest that
  answers every entry with five bytes and status 200.
\<close>

definition vm_mem_ops :: "vm_mem vm_ops" where
  "vm_mem_ops = \<lparr>v_reset_to = (\<lambda>vm src opt. (src, Inr True)), v_fork = (\<lambda>vm t. vm), v_mmap_unmap = (\<lambda>a n vm. vm),
     v_mmap_allocate = (\<lambda>n vm. (0x8000, vm))\<rparr>"

definition benv_demo :: "(vmcall \<Rightarrow> vm_mem machine \<Rightarrow> vm_mem machine \<times> exn option) \<Rightarrow> entries \<Rightarrow> vm_mem benv" where
  "benv_demo run es = \<lparr>be_conf = demo_conf, be_entries = es, be_exec = exec_mem run, be_guest = guest_mem, be_vm = vm_mem_ops,
     be_api = api_demo, be_ws_type = True, be_ws_headers = True, be_ws_field = True, be_retval = (\<lambda>vm. r_rdi (snd vm)),
     be_what = (\<lambda>e. ''exception''), be_push_cstr = (\<lambda>s st vm. x_push (exec_mem run) (s @ [CHR 0x00]) st vm),
     be_relax = (\<lambda>a c n vm. vm)\<rparr>"

definition run_answer :: "vmcall \<Rightarrow> vm_mem machine \<Rightarrow> vm_mem machine \<times> exn option" where
  "run_answer c mi =
     (case c of VSmpWait \<Rightarrow> (mi, None)
      | _ \<Rightarrow> (mi\<lparr>mi_response_called := 1,
             mi_vm := (fst (mi_vm mi), regs_zero\<lparr>r_rdi := 200, r_rsi := 0x1000, r_rcx := 0x2000, r_r8 := 5\<rparr>)\<rparr>, None))"

definition bstate_demo :: "vm_mem bstate" where
  "bstate_demo = \<lparr>bs_mi = machine_of (\<lambda>a. CHR ''a'', regs_zero),
     bs_http = \<lparr>hc_bo = True, hc_bereq = None, hc_beresp = None, hc_req = None, hc_resp = None\<rparr>,
     bs_result = error_result\<lparr>br_bufcount := VMBE_NUM_BUFFERS\<rparr>, bs_cache = None, bs_program_status = [],
     bs_stack = 0, bs_inputs = binputs_zero\<rparr>"

definition get_entries :: entries where
  "get_entries = entries_new[1 := 0x400000]"

lemma mem_read_Nil: "[] = mem_read m a n \<longleftrightarrow> n = 0"
  by (auto simp: mem_read_def)

lemma guest_mem_laws:
  "gather_law guest_mem" "read_law guest_mem" "write_law guest_mem fst"
  by (auto simp: gather_law_def read_law_def write_law_def guest_mem_def mem_guest_def mem_read_Nil unat_eq_0 split: if_splits)

lemma run_answer_law: "run_law (exec_mem run_answer)"
  by (simp add: run_law_def exec_mem_def run_answer_def split: vmcall.splits)

text \<open>The demonstration program answers with five bytes.\<close>

lemma demo_entries: "entry_at get_entries (entry_index BACKEND_METHOD) = Inr 0" "entry_at get_entries (entry_index BACKEND_GET) = Inr 0x400000"
  by (simp_all add: entry_at_def get_entries_def entries_new_def TOTAL_ENTRIES_def)

abbreviation demo_regs :: regs where
  "demo_regs \<equiv> regs_zero\<lparr>r_rdi := 200, r_rsi := 0x1000, r_rcx := 0x2000, r_r8 := 5\<rparr>"

lemma demo_run:
  "run_vm (benv_demo run_answer es) VSmpWait s = (s, None)"
  "run_vm (benv_demo run_answer es) (VCall a as t) s =
     (s\<lparr>bs_mi := (bs_mi s)\<lparr>mi_response_called := 1, mi_vm := (fst (mi_vm (bs_mi s)), demo_regs)\<rparr>\<rparr>, None)"
  by (simp_all add: run_vm_def benv_demo_def exec_mem_def run_answer_def)

lemma demo_fetch:
  assumes "mi_response_called (bs_mi s) = 1" "mi_ctx (bs_mi s) = Some c" "mi_vm (bs_mi s) = (\<lambda>a. CHR ''a'', demo_regs)"
    "br_bufcount (bs_result s) = VMBE_NUM_BUFFERS"
  shows "\<exists>s'. fetch_result (benv_demo run_answer es) s = (s', None) \<and>
     br_stream (bs_result s') = None \<and> br_content_length (bs_result s') = 5 \<and> concat (br_buffers (bs_result s')) = ''aaaaa''"
proof -
  let ?B = "benv_demo run_answer es"
  have b: "x_regs (be_exec ?B) (m, r) = r" "be_guest ?B = guest_mem" for m r by (simp_all add: benv_demo_def exec_mem_def)
  have r: "r_rdi demo_regs = 200" "r_rcx demo_regs = 0x2000" "r_r8 demo_regs = 5" "r_r9 demo_regs = 0" by (simp_all add: regs_zero_def)
  have t: "fetch_type ?B demo_regs (bs_mi s) = Inr []"
    using assms by (simp add: fetch_type_def benv_demo_def machine_ctx_def guest_mem_def mem_guest_def mem_read_def to_u16_def regs_zero_def bind_res_def)
  obtain bufs where g: "go_gather guest_mem VMBE_NUM_BUFFERS 0x2000 5 (\<lambda>a. CHR ''a'', demo_regs) = Inr bufs" "concat bufs = ''aaaaa''"
    by (simp add: guest_mem_def mem_guest_def mem_read_def VMBE_NUM_BUFFERS_def upt_rec)
  have z: "sanitize_status_code 200 = Inr 200" by (simp add: sanitize_status_code_def)
  have e: "fetch_extra ?B 0 s = (s, None)" for s by (simp add: fetch_extra_def)
  show ?thesis
    using assms(1,4) g(2) unfolding fetch_result_def Let_def assms(3) b r t fetch_regular_def
    by (simp add: response_called_def stmt_seq_def stmt_with_def upd_bmi_def upd_result_def upd_stats_def assms(3) g(1) z e)
qed
lemma demo_answer:
  "\<exists>s'. kvm_backend_call (benv_demo run_answer get_entries) 1 (item_demo 3) None bstate_demo = (s', None) \<and>
     br_stream (bs_result s') = None \<and> br_content_length (bs_result s') = 5 \<and> concat (br_buffers (bs_result s')) = ''aaaaa''"
proof -
  let ?B = "benv_demo run_answer get_entries"
  have en: "be_entries ?B = get_entries" by (simp add: benv_demo_def)
  have e: "call_entry ?B (item_demo 3) None t s = stmt_seq (call_get ?B (item_demo 3) t 0x400000) (stmt_seq (run_vm ?B VSmpWait) (fetch_result ?B)) s" for t s
    unfolding call_entry_def Let_def en demo_entries stmt_with_def by simp
  let ?mi = "upd_stats (\<lambda>t. t\<lparr>st_invocations := st_invocations t + 1\<rparr>) (begin_call ((bs_mi bstate_demo)\<lparr>mi_ctx := Some 1\<rparr>))"
  have "call_body ?B (item_demo 3) None (bstate_demo\<lparr>bs_mi := (bs_mi bstate_demo)\<lparr>mi_ctx := Some 1\<rparr>\<rparr>) =
     fetch_result ?B (bstate_demo\<lparr>bs_mi := ?mi\<lparr>mi_response_called := 1, mi_vm := (\<lambda>a. CHR ''a'', demo_regs)\<rparr>\<rparr>)"
   by (simp add: call_body_def stmt_seq_def upd_bmi_def e call_get_def demo_run need_ctx_def machine_ctx_def upd_stats_def begin_call_def bstate_demo_def machine_of_def)
  then show ?thesis using demo_fetch [of "bstate_demo\<lparr>bs_mi := ?mi\<lparr>mi_response_called := 1, mi_vm := (\<lambda>a. CHR ''a'', demo_regs)\<rparr>\<rparr>" 1 get_entries]
    by (auto simp: kvm_backend_call_def bstate_demo_def upd_stats_def begin_call_def)
qed

text \<open>Every call is answered, by the body or else by the error handling.\<close>

lemma backend_call_answered:
  assumes "run_law (be_exec B)" and "gather_law (be_guest B)" and "br_bufcount (bs_result s) \<le> VMBE_NUM_BUFFERS"
    and "kvm_backend_call B ctx invoc post s = (s', e)"
  shows "e = None \<and> answered s' \<and>
    call_inv ctx (snd (call_body B invoc post (s\<lparr>bs_mi := (bs_mi s)\<lparr>mi_ctx := Some ctx\<rparr>\<rparr>)) \<noteq> None) s'"
proof -
  let ?s0 = "s\<lparr>bs_mi := (bs_mi s)\<lparr>mi_ctx := Some ctx\<rparr>\<rparr>"
  have inv0: "call_inv ctx False ?s0" using assms(3) by (simp add: call_inv_def)
  obtain s1 e1 where b: "call_body B invoc post ?s0 = (s1, e1)" by fastforce
  have inv1: "call_inv ctx False s1"
    by (rule stmt_invD [OF call_body_inv(1) [OF assms(1,2)] b inv0])
  have "e = None \<and> answered s' \<and> call_inv ctx (e1 \<noteq> None) s'"
  proof (cases e1)
    case None
    with b assms(4) have "s' = s1" "e = None" by (simp_all add: kvm_backend_call_def)
    with call_body_inv(2) [OF assms(1,2), of ctx False invoc post] b inv0 inv1 None show ?thesis
      by (auto simp: ensures_def)
  next
    case (Some x)
    have "call_inv ctx False (s1\<lparr>bs_mi := upd_stats (count_exception x) (bs_mi s1)\<rparr>)"
      using inv1 by (simp add: call_inv_def)
    from error_handling_answers [OF assms(1,2) this] b assms(4) Some show ?thesis
      by (auto simp: kvm_backend_call_def)
  qed
  with b show ?thesis by simp
qed

section \<open>Properties\<close>

text \<open>
  C6. However the guest behaves, and whether it times out, faults or never responds, a backend call
  throws nothing and leaves a result that can be delivered: a status from 200 to 599, at most the 512
  buffers there is room for, whose sizes add up to the content length, or else a callback and a
  positive length to stream. After any failure the VM is marked for a reset. The response that is
  then written keeps the status, and uses the streaming fetch processor exactly for streamed results.
\<close>

theorem backend_call_answers:
  assumes "run_law (be_exec B)" and "gather_law (be_guest B)" and "br_bufcount (bs_result s) \<le> VMBE_NUM_BUFFERS"
    and "kvm_backend_call B ctx invoc post s = (s', e)"
  shows "e = None \<and> result_wf (bs_result s') \<and> mi_ctx (bs_mi s') = Some ctx \<and>
    (snd (call_body B invoc post (s\<lparr>bs_mi := (bs_mi s)\<lparr>mi_ctx := Some ctx\<rparr>\<rparr>)) \<noteq> None \<longrightarrow> mi_reset_needed (bs_mi s')) \<and>
    kvmbe_write_response True (bs_result s') =
      Some (bs_result s', br_content_length (bs_result s'), br_stream (bs_result s') \<noteq> None)"
  using backend_call_answered [OF assms] by (auto simp: answered_def call_inv_def write_response_wf)

theorem backend_call_answers_witness:
  "\<exists>s'. kvm_backend_call (benv_demo run_answer get_entries) 1 (item_demo 3) None bstate_demo = (s', None) \<and>
     result_wf (bs_result s') \<and> mi_ctx (bs_mi s') = Some 1"
proof -
  let ?c = "kvm_backend_call (benv_demo run_answer get_entries) 1 (item_demo 3) None bstate_demo"
  obtain s' e where c: "?c = (s', e)" by fastforce
  from backend_call_answers [OF _ _ _ c] show ?thesis
    using c run_answer_law guest_mem_laws by (simp add: benv_demo_def bstate_demo_def)
qed



text \<open>
  C20. A call of the streaming fetch processor terminates, adds no more than the room it was given,
  and advances the total by what it wrote; it reports the end exactly at the content length. The test
  for the end is an equality: once the guest has produced more than the content length, no later
  call reports the end, and Varnish is given more bytes than were announced.
\<close>

theorem streaming_pull_total:
  assumes "read_law (be_guest B)" and "kvmfp_streaming_pull B r room priv2 mi = Some (mi', sent, out, st)"
  shows "sent = priv2 + length out \<and> length out \<le> room \<and> (st = VFP_OK \<longrightarrow> length out = room) \<and>
    (st = VFP_END \<longrightarrow> sent = unat (br_content_length r)) \<and> (unat (br_content_length r) < priv2 \<longrightarrow> st \<noteq> VFP_END)"
  using streaming_pull_loop_total [OF assms(2) [unfolded kvmfp_streaming_pull_def] assms(1)] by auto

definition run_stream :: "vmcall \<Rightarrow> vm_mem machine \<Rightarrow> vm_mem machine \<times> exn option" where
  "run_stream c mi = (mi\<lparr>mi_vm := (fst (mi_vm mi), regs_zero\<lparr>r_rdi := 0x1000, r_rdx := 9\<rparr>)\<rparr>, None)"

theorem streaming_pull_total_witness:
  "\<exists>mi' out st. kvmfp_streaming_pull (benv_demo run_stream get_entries) (error_result\<lparr>br_content_length := 5, br_stream := Some (1, 0)\<rparr>)
       4 8 (machine_of (\<lambda>a. CHR ''a'', regs_zero)) = Some (mi', 12, out, st) \<and> length out = 4 \<and> st \<noteq> VFP_END"
proof -
  let ?r = "error_result\<lparr>br_content_length := 5, br_stream := Some (1, 0)\<rparr>"
  let ?p = "kvmfp_streaming_pull (benv_demo run_stream get_entries) ?r 4 8 (machine_of (\<lambda>a. CHR ''a'', regs_zero))"
  have "\<exists>mi' out. ?p = Some (mi', 12, out, VFP_OK)"
    by (simp add: kvmfp_streaming_pull_def streaming_pull_loop.simps kvm_backend_streaming_delivery_def benv_demo_def
        exec_mem_def run_stream_def guest_mem_def mem_guest_def error_result_def Let_def machine_of_def)
  then obtain mi' out where p: "?p = Some (mi', 12, out, VFP_OK)" by blast
  from streaming_pull_total [OF _ p] guest_mem_laws(2) have "length out = 4" by (simp add: benv_demo_def)
  with p show ?thesis by (metis vfp_status.distinct(1))
qed



text \<open>
  The configuration may ask for zero requests. Unless they are exact, the number of tries left
  then starts at zero, is decremented before it is compared with zero, and a warmup whose requests
  all succeed never ends.
\<close>

theorem warmup_zero_diverges:
  assumes "\<forall>s. snd (req s)"
  shows "warmup_loop req sample 0 False 0 (- 1) (int (unat (0 :: u16))) s = None"
  using warmup_zero_never_ends [of req sample 0 False 0 "- 1" 0 s] assms
  by (cases "warmup_loop req sample 0 False 0 (- 1) (int (unat (0 :: u16))) s") auto

theorem warmup_zero_diverges_witness:
  "warmup_loop (\<lambda>s. (s + 1 :: nat, True)) (\<lambda>i. 100) 0 False 0 (- 1) (int (unat (0 :: u16))) 0 = None"
  using warmup_zero_diverges [of "\<lambda>s. (s + 1 :: nat, True)"] by simp

text \<open>
  The room for buffers is part of the result that a fetch overwrites. When a program answers
  with an empty body and the fetch then fails on the extra part of the response, no room is left, so
  that the error page the program is asked for next cannot be fetched unless it is empty as well.
\<close>

theorem error_page_lost:
  assumes "gather_law (be_guest B)" and "response_called 1 (bs_mi s)" and "r_r8 (x_regs (be_exec B) (mi_vm (bs_mi s))) = 0"
    and "fetch_result B s = (s1, Some e)" and "bs_program_status s1 \<noteq> bs_program_status s"
    and "bs_result s2 = bs_result s1" and "response_called 1 (bs_mi s2)" and "r_r8 (x_regs (be_exec B) (mi_vm (bs_mi s2))) \<noteq> 0"
  shows "snd (fetch_result B s2) \<noteq> None"
proof -
  have "br_bufcount (bs_result s1) = 0"
  proof (rule fetch_result_gathers [OF assms(2,4) disjI2 [OF assms(5)]])
    fix bufs assume "go_gather (be_guest B) (br_bufcount (bs_result s)) (r_rcx (x_regs (be_exec B) (mi_vm (bs_mi s))))
        (r_r8 (x_regs (be_exec B) (mi_vm (bs_mi s)))) (mi_vm (bs_mi s)) = Inr bufs"
    then have "[] \<notin> set bufs" "sum_list (map length bufs) = 0"
      using assms(1,3) unfolding gather_law_def by (metis unat_0)+
    then have "bufs = []" by (cases bufs) auto
    moreover assume "br_bufcount (bs_result s1) = length bufs"
    ultimately show ?thesis by simp
  qed
  with assms(6) have room: "br_bufcount (bs_result s2) = 0" by simp
  show ?thesis
  proof
    assume "snd (fetch_result B s2) = None"
    then obtain s3 where f: "fetch_result B s2 = (s3, None)" by (cases "fetch_result B s2") auto
    show False
    proof (rule fetch_result_gathers [OF assms(7) f disjI1 [OF refl]])
      fix bufs assume "go_gather (be_guest B) (br_bufcount (bs_result s2)) (r_rcx (x_regs (be_exec B) (mi_vm (bs_mi s2))))
        (r_r8 (x_regs (be_exec B) (mi_vm (bs_mi s2)))) (mi_vm (bs_mi s2)) = Inr bufs"
      then have "length bufs \<le> 0" "sum_list (map length bufs) = unat (r_r8 (x_regs (be_exec B) (mi_vm (bs_mi s2))))"
        using assms(1) room unfolding gather_law_def by (metis, metis)
      with assms(8) show False by (simp add: unat_eq_0)
    qed
  qed
qed

definition bstate_regs :: "regs \<Rightarrow> vm_mem bstate" where
  "bstate_regs r = bstate_demo\<lparr>bs_mi := (machine_of (\<lambda>a. CHR ''a'', r))\<lparr>mi_response_called := 1, mi_ctx := Some 1\<rparr>\<rparr>"

theorem error_page_lost_witness:
  "\<exists>s1 e. fetch_result (benv_demo run_answer get_entries) (bstate_regs (regs_zero\<lparr>r_rdi := 200, r_r9 := 1\<rparr>)) = (s1, Some e) \<and>
     snd (fetch_result (benv_demo run_answer get_entries)
       ((bstate_regs (regs_zero\<lparr>r_rdi := 500, r_rcx := 0x2000, r_r8 := 5\<rparr>))\<lparr>bs_result := bs_result s1\<rparr>)) \<noteq> None"
proof -
  let ?B = "benv_demo run_answer get_entries"
  let ?s = "bstate_regs (regs_zero\<lparr>r_rdi := 200, r_r9 := 1\<rparr>)"
  let ?s2 = "bstate_regs (regs_zero\<lparr>r_rdi := 500, r_rcx := 0x2000, r_r8 := 5\<rparr>)"
  have "\<exists>s1 e. fetch_result ?B ?s = (s1, Some e) \<and> bs_program_status s1 = [200]"
    by (simp add: fetch_result_def benv_demo_def bstate_regs_def bstate_demo_def machine_of_def exec_mem_def guest_mem_def mem_guest_def
        regs_zero_def response_called_def stmt_defs upd_bmi_def upd_result_def fetch_type_def fetch_regular_def fetch_extra_def
        sanitize_status_code_def to_u16_def bind_res_def machine_ctx_def Let_def)
  then obtain s1 e where f: "fetch_result ?B ?s = (s1, Some e)" and st: "bs_program_status s1 = [200]" by blast
  have "snd (fetch_result ?B (?s2\<lparr>bs_result := bs_result s1\<rparr>)) \<noteq> None"
    by (rule error_page_lost [OF _ _ _ f])
      (use guest_mem_laws st in \<open>simp_all add: benv_demo_def bstate_regs_def bstate_demo_def machine_of_def exec_mem_def
         response_called_def regs_zero_def\<close>)
  with f show ?thesis by blast
qed

end
