(* ===== verification/Machine_Boot.thy ===== *)
theory Machine_Boot
  imports Backend
begin

text \<open>
  Construction and start-up of a main VM (\<^verbatim>\<open>lib/libkvm/machine_instance.cpp\<close>): the choice of the binary,
  the options, the arguments and environment of the program, the run through \<open>main\<close>, the warmup, and
  the cold start snapshot. The monitor's operations are fields of the environment.
\<close>

section \<open>Construction\<close>

text \<open>\<open>tinykvm::MachineOptions\<close> as the constructor fills it.\<close>

record machine_options =
  mo_max_mem :: u64
  mo_max_cow_mem :: u64
  mo_stack_size :: u64
  mo_vmem_base_address :: u64
  mo_remappings :: "remapping list"
  mo_verbose_loader :: bool
  mo_hugepages :: bool
  mo_transparent_hugepages :: bool
  mo_master_direct_memory_writes :: bool
  mo_split_hugepages :: bool
  mo_relocate_fixed_mmap :: bool
  mo_executable_heap :: bool
  mo_mmap_backed_files :: bool
  mo_snapshot_file :: string
  mo_hugepages_arena_size :: u64

definition MAIN_STACK_SIZE :: u64 where
  "MAIN_STACK_SIZE = 4194304"

type_synonym 'm boot = "'m bstate \<times> entries"

text \<open>
  The surroundings: configuration, the environment of backend calls for the warmup, the dynamic
  linker, the library's test for dynamic binaries (interpreter, dynamic), the random device, the
  snapshot operations, copy on write, the initial stack, and running the guest. Running may register
  entry points, so it acts on the machine and on the entries.
\<close>

record 'm boot_env =
  bt_conf :: tenant_conf
  bt_be :: "'m benv"
  bt_linker :: string
  bt_dynamic :: "string \<Rightarrow> bool \<times> bool"
  bt_urandom :: "(u64 \<times> u64) res"
  bt_create :: "string \<Rightarrow> machine_options \<Rightarrow> 'm res"
  bt_has_snapshot :: "'m \<Rightarrow> bool"
  bt_user_area :: "'m \<Rightarrow> string option"
  bt_set_user_area :: "string \<Rightarrow> 'm \<Rightarrow> 'm"
  bt_save_snapshot :: "'m \<Rightarrow> 'm res"
  bt_prepare_cow :: "u64 \<Rightarrow> u64 \<Rightarrow> 'm \<Rightarrow> 'm res"
  bt_setup_linux :: "string list \<Rightarrow> string list \<Rightarrow> 'm \<Rightarrow> 'm res"
  bt_run :: "vmcall \<Rightarrow> 'm boot \<Rightarrow> 'm boot \<times> exn option"
  bt_sample :: "nat \<Rightarrow> u64"
  bt_fake_ctx :: nat
  bt_tenant :: nat

definition is_interpreted_binary :: "'m boot_env \<Rightarrow> string \<Rightarrow> bool res" where
  "is_interpreted_binary E binary =
     (if length binary < 128 then Inl (RuntimeError ''Invalid ELF program (binary too small)'')
      else Inr (fst (bt_dynamic E binary)))"

text \<open>The entry address is the eight bytes at offset 24 of the header.\<close>

definition detect_gigapage_from :: "string \<Rightarrow> u64 res" where
  "detect_gigapage_from binary =
     (if length binary < 128 then Inl (RuntimeError ''Invalid ELF program (binary too small)'')
      else let gigapage = drop_bit 30 (le_word (take 8 (drop 24 binary)) :: u64) in
        if gigapage \<ge> 64 then Inl (RuntimeError ''Invalid ELF start address (adress was > 64GB)'')
        else Inr (push_bit 30 gigapage))"

definition select_main_binary :: "'m boot_env \<Rightarrow> string \<Rightarrow> string res" where
  "select_main_binary E binary =
     bind_res (is_interpreted_binary E binary) (\<lambda>interp.
       if interp then (if bt_linker E = [] then Inl (RuntimeError ''Dynamic linker not loaded'') else Inr (bt_linker E))
       else Inr binary)"

definition main_options :: "'m boot_env \<Rightarrow> bool \<Rightarrow> u64 \<Rightarrow> bool \<Rightarrow> machine_options" where
  "main_options E storage base interp =
     (let g = t_group (bt_conf E) in
      \<lparr>mo_max_mem = g_max_address_space g, mo_max_cow_mem = 0, mo_stack_size = MAIN_STACK_SIZE, mo_vmem_base_address = base,
       mo_remappings = g_vmem_remappings g, mo_verbose_loader = g_verbose g, mo_hugepages = g_hugepages g,
       mo_transparent_hugepages = g_transparent_hugepages g, mo_master_direct_memory_writes = True, mo_split_hugepages = False,
       mo_relocate_fixed_mmap = g_relocate_fixed_mmap g, mo_executable_heap = (g_vmem_heap_executable g \<or> interp),
       mo_mmap_backed_files = (g_mmap_backed_files g \<and> (storage \<or> g_cold_start_snapshot_file g = [])),
       mo_snapshot_file = g_cold_start_snapshot_file g, mo_hugepages_arena_size = g_hugepage_arena_size g\<rparr>)"

definition machine_new :: "'m boot_env \<Rightarrow> string \<Rightarrow> nat option \<Rightarrow> bool \<Rightarrow> bool \<Rightarrow> 'm machine res" where
  "machine_new E binary ctx storage debug =
     bind_res (select_main_binary E binary) (\<lambda>main.
     bind_res (detect_gigapage_from binary) (\<lambda>base.
     bind_res (is_interpreted_binary E binary) (\<lambda>interp.
     bind_res (bt_create E main (main_options E storage base interp)) (\<lambda>vm.
     bind_res (bt_urandom E) (\<lambda>seed.
       Inr \<lparr>mi_ctx = ctx, mi_vm = vm, mi_is_debug = debug, mi_is_storage = storage,
            mi_is_ephemeral = g_ephemeral (t_group (bt_conf E)), mi_waiting = False, mi_warming_up = False,
            mi_response_called = 0, mi_reset_needed = False, mi_soft_reset = False, mi_last_newline = True,
            mi_binary_type = BinStatic, mi_sighandler = 0, mi_post_data = 0, mi_post_size = 0, mi_inputs_allocation = 0,
            mi_stats = machine_stats_new, mi_regex = cache_new (unat (g_max_regex (t_group (bt_conf E)))) ''Regex handles'',
            mi_prng = \<lparr>x_generator = seed, x_random_integer = 0, x_counter = 0\<rparr>\<rparr>)))))"

section \<open>Initialization\<close>

definition guest_state_file :: string where
  "guest_state_file = ''state''"

definition main_args :: "'m boot_env \<Rightarrow> bool \<Rightarrow> string list" where
  "main_args E interp =
     (if interp then [''/lib64/ld-linux-x86-64.so.2'', t_filename (bt_conf E)] else [t_name (bt_conf E)]) @
     (case g_main_arguments (t_group (bt_conf E)) of None \<Rightarrow> [] | Some args \<Rightarrow> args)"

definition main_envp :: "'m boot_env \<Rightarrow> 'm machine \<Rightarrow> string list" where
  "main_envp E mi =
     g_environ (t_group (bt_conf E)) @
     [''KVM_NAME='' @ t_name (bt_conf E), ''KVM_GROUP='' @ g_name (t_group (bt_conf E)),
      ''KVM_TYPE='' @ (if mi_is_storage mi then ''storage'' else ''request''), ''KVM_STATE='' @ guest_state_file,
      ''KVM_DEBUG='' @ (if mi_is_debug mi then ''1'' else ''0'')]"

text \<open>An operation of the monitor on the virtual machine, as a statement.\<close>

definition boot_vm :: "('m \<Rightarrow> 'm res) \<Rightarrow> 'm boot stmt" where
  "boot_vm f b =
     (case f (mi_vm (bs_mi (fst b))) of
        Inl e \<Rightarrow> (b, Some e)
      | Inr vm \<Rightarrow> (((fst b)\<lparr>bs_mi := (bs_mi (fst b))\<lparr>mi_vm := vm\<rparr>\<rparr>, snd b), None))"

definition boot_mi :: "('m machine \<Rightarrow> 'm machine) \<Rightarrow> 'm boot stmt" where
  "boot_mi f b = (((fst b)\<lparr>bs_mi := f (bs_mi (fst b))\<rparr>, snd b), None)"

definition binary_type_of :: "bool \<times> bool \<Rightarrow> binary_type" where
  "binary_type_of d = (if fst d then BinDynamic else if snd d then BinStaticPie else BinStatic)"

text \<open>From the preparation of the memory to the end of \<open>main\<close>.\<close>

definition initialize_run :: "'m boot_env \<Rightarrow> string \<Rightarrow> 'm boot stmt" where
  "initialize_run E binary =
     stmt_seq (boot_vm (bt_prepare_cow E (g_max_main_memory (t_group (bt_conf E))) (shared_memory_boundary (bt_conf E))))
    (stmt_seq (boot_mi (\<lambda>mi. mi\<lparr>mi_binary_type := binary_type_of (bt_dynamic E binary)\<rparr>))
    (stmt_seq (\<lambda>b. boot_vm (bt_setup_linux E (main_args E (fst (bt_dynamic E binary))) (main_envp E (bs_mi (fst b)))) b)
    (stmt_seq (\<lambda>b. if mi_is_debug (bs_mi (fst b)) then bt_run E (VDebug DEBUG_TIMEOUT) b else (b, None))
    (stmt_seq (bt_run E (VRun (g_max_boot_time (t_group (bt_conf E)))))
    (stmt_seq (stmt_throw_if (\<lambda>b. \<not> mi_waiting (bs_mi (fst b))) (RuntimeError ''Program did not wait for requests''))
       (boot_mi (skip_out (bt_be E))))))))"

text \<open>What only request VMs do after the warmup: become forkable, and save the snapshot.\<close>

definition save_snapshot :: "'m boot_env \<Rightarrow> 'm boot stmt" where
  "save_snapshot E b =
     (case bt_save_snapshot E (mi_vm (bs_mi (fst b))) of
        Inl e \<Rightarrow> (b, Some e)
      | Inr vm \<Rightarrow>
          (case save_state (snd b) (bt_user_area E vm) of
             Inl e \<Rightarrow> (((fst b)\<lparr>bs_mi := (bs_mi (fst b))\<lparr>mi_vm := vm\<rparr>\<rparr>, snd b), Some e)
           | Inr area \<Rightarrow> (((fst b)\<lparr>bs_mi := (bs_mi (fst b))\<lparr>mi_vm := bt_set_user_area E area vm\<rparr>\<rparr>, snd b), None)))"

definition initialize_finish :: "'m boot_env \<Rightarrow> 'm boot stmt" where
  "initialize_finish E =
     stmt_seq (boot_vm (bt_prepare_cow E 0 (shared_memory_boundary (bt_conf E))))
       (stmt_when (g_cold_start_snapshot_file (t_group (bt_conf E)) \<noteq> []) (save_snapshot E))"

text \<open>The snapshot path: the entries come from the snapshot, and the program counts as waiting.\<close>

definition load_snapshot :: "'m boot_env \<Rightarrow> 'm boot \<Rightarrow> 'm boot" where
  "load_snapshot E b =
     ((fst b)\<lparr>bs_mi := (bs_mi (fst b))\<lparr>mi_waiting := True\<rparr>\<rparr>,
      snd (load_state (bt_user_area E (mi_vm (bs_mi (fst b)))) (snd b)))"

definition boot_warmup :: "'m boot_env \<Rightarrow> 'm boot \<Rightarrow> ('m boot \<times> exn option) option" where
  "boot_warmup E b =
     map_option (\<lambda>(s, e). ((s, snd b), e)) (machine_warmup (bt_be E) (bt_fake_ctx E) (bt_sample E) (bt_tenant E) (fst b))"

text \<open>
  The whole of \<open>initialize\<close>. None is a warmup that does not end. On an exception a debugger may be
  opened before it is thrown again.
\<close>

definition initialize_body :: "'m boot_env \<Rightarrow> string \<Rightarrow> 'm boot \<Rightarrow> ('m boot \<times> exn option) option" where
  "initialize_body E binary b =
     (if shared_memory_size (bt_conf E) > 0 \<and> g_vmem_remappings (t_group (bt_conf E)) \<noteq> []
      then Some (b, Some (RuntimeError ''Shared memory is currently incompatible with vmem remappings''))
      else if \<not> mi_is_storage (bs_mi (fst b)) \<and> bt_has_snapshot E (mi_vm (bs_mi (fst b))) then Some (load_snapshot E b, None)
      else case initialize_run E binary b of
        (b, Some e) \<Rightarrow> Some (b, Some e)
      | (b, None) \<Rightarrow>
          if mi_is_storage (bs_mi (fst b)) then Some (b, None)
          else if g_warmup (t_group (bt_conf E)) = None then Some (initialize_finish E b)
          else case boot_warmup E b of
            None \<Rightarrow> None
          | Some (b, Some e) \<Rightarrow> Some (b, Some e)
          | Some (b, None) \<Rightarrow> Some (initialize_finish E b))"

definition machine_initialize :: "'m boot_env \<Rightarrow> string \<Rightarrow> 'm boot \<Rightarrow> ('m boot \<times> exn option) option" where
  "machine_initialize E binary b =
     (case initialize_body E binary b of
        None \<Rightarrow> None
      | Some (b, None) \<Rightarrow> Some (b, None)
      | Some (b, Some e) \<Rightarrow>
          if g_remote_debug_on_exception (t_group (bt_conf E))
          then (case bt_run E (VDebug DEBUG_TIMEOUT) b of (b, None) \<Rightarrow> Some (b, Some e) | (b, Some e') \<Rightarrow> Some (b, Some e'))
          else Some (b, Some e))"

section \<open>Lemmas\<close>

lemma boot_vm_kept:
  "boot_vm f b = (b', e) \<Longrightarrow> snd b' = snd b \<and> (\<exists>vm. fst b' = (fst b)\<lparr>bs_mi := (bs_mi (fst b))\<lparr>mi_vm := vm\<rparr>\<rparr>)"
  by (auto simp: boot_vm_def intro: exI [of _ "mi_vm (bs_mi (fst b))"] split: sum.splits)

lemma save_snapshot_kept:
  "save_snapshot E b = (b', e) \<Longrightarrow> snd b' = snd b \<and> (\<exists>vm. fst b' = (fst b)\<lparr>bs_mi := (bs_mi (fst b))\<lparr>mi_vm := vm\<rparr>\<rparr>)"
  by (auto simp: save_snapshot_def intro: exI [of _ "mi_vm (bs_mi (fst b))"] split: sum.splits)

text \<open>Finishing only changes the virtual machine inside.\<close>

lemma initialize_finish_kept:
  assumes "initialize_finish E b = (b', e)"
  shows "snd b' = snd b \<and> (\<exists>vm. fst b' = (fst b)\<lparr>bs_mi := (bs_mi (fst b))\<lparr>mi_vm := vm\<rparr>\<rparr>)"
proof -
  obtain b1 e1 where p: "boot_vm (bt_prepare_cow E 0 (shared_memory_boundary (bt_conf E))) b = (b1, e1)" by fastforce
  note k1 = boot_vm_kept [OF p]
  show ?thesis
  proof (cases "e1 = None \<and> g_cold_start_snapshot_file (t_group (bt_conf E)) \<noteq> []")
    case True
    with assms p have "save_snapshot E b1 = (b', e)" by (simp add: initialize_finish_def stmt_defs)
    from save_snapshot_kept [OF this] k1 show ?thesis by force
  next
    case False
    with assms p have "b' = b1" by (auto simp: initialize_finish_def stmt_defs split: option.splits if_splits)
    with k1 show ?thesis by simp
  qed
qed

lemma initialize_run_waits:
  "initialize_run E binary b = (b', None) \<Longrightarrow> mi_waiting (bs_mi (fst b'))"
  by (auto simp: initialize_run_def stmt_seq_def stmt_throw_if_def boot_mi_def skip_out_def Let_def
      split: prod.splits option.splits if_splits)

text \<open>A snapshot that has been saved can be read back.\<close>

definition area_law :: "'m boot_env \<Rightarrow> bool" where
  "area_law E \<longleftrightarrow> (\<forall>area vm. bt_user_area E (bt_set_user_area E area vm) = Some area)"

lemma save_snapshot_area:
  assumes "area_law E" and "save_snapshot E b = (b', None)"
  shows "\<exists>rest. bt_user_area E (mi_vm (bs_mi (fst b'))) = Some (enc_array 4 (snd b) @ rest)"
  using assms by (auto simp: save_snapshot_def save_state_def area_law_def split: sum.splits option.splits)

lemma load_state_enc:
  "length es = TOTAL_ENTRIES \<Longrightarrow> load_state (Some (enc_array 4 es @ rest)) es' = (True, es)"
  using dec_enc_array [of 4 es rest] by (simp add: load_state_def)

lemma machine_new_fields:
  assumes "machine_new E binary ctx storage debug = Inr mi"
  shows "mi_is_ephemeral mi = g_ephemeral (t_group (bt_conf E))" and "mi_is_storage mi = storage"
    and "mi_binary_type mi = BinStatic" and "\<not> mi_waiting mi" and "mi_ctx mi = ctx"
  using assms by (auto simp: machine_new_def bind_res_def split: sum.splits)

lemma warmup_first_fails:
  assumes "warmup_request B invoc headers s = (s', Some e)"
  shows "warmup_loop (perform_warmup_request B invoc headers) sample n exact i best bailout s = Some s'"
  using assms by (subst warmup_loop.simps) (simp add: perform_warmup_request_def)

subsection \<open>Concrete environments\<close>

text \<open>A guest whose state is the user area of its snapshot, and one of memory whose requests time out.\<close>

definition boot_area :: "(string option) boot_env" where
  "boot_area =
     \<lparr>bt_conf = demo_conf\<lparr>t_group := (t_group demo_conf)\<lparr>g_cold_start_snapshot_file := ''snap''\<rparr>\<rparr>,
      bt_be = \<lparr>be_conf = demo_conf, be_entries = entries_new,
        be_exec = \<lparr>x_regs = (\<lambda>vm. regs_zero), x_set_regs = (\<lambda>r vm. vm), x_stopped = (\<lambda>vm. True), x_stack = (\<lambda>vm. 0),
          x_setup = (\<lambda>f st args vm. vm), x_copy = (\<lambda>dst src sa len vm. (vm, None)), x_push = (\<lambda>s st vm. Inr (st, vm)),
          x_run = (\<lambda>c mi. (mi, None))\<rparr>,
        be_guest = \<lparr>go_read = (\<lambda>a n vm. Inr []), go_write = (\<lambda>a s vm. Inr vm), go_cstring = (\<lambda>a vm. Inr []),
          go_string = (\<lambda>a n l vm. Inr []), go_gather = (\<lambda>k a n vm. Inr [])\<rparr>,
        be_vm = \<lparr>v_reset_to = (\<lambda>vm src opt. (src, Inr True)), v_fork = (\<lambda>vm t. vm), v_mmap_unmap = (\<lambda>a n vm. vm),
          v_mmap_allocate = (\<lambda>n vm. (0, vm))\<rparr>,
        be_api = api_demo, be_ws_type = True, be_ws_headers = True, be_ws_field = True, be_retval = (\<lambda>vm. 0),
        be_what = (\<lambda>e. []), be_push_cstr = (\<lambda>s st vm. Inr (st, vm)), be_relax = (\<lambda>a c n vm. vm)\<rparr>,
      bt_linker = [], bt_dynamic = (\<lambda>b. (False, False)), bt_urandom = Inr (1, 2),
      bt_create = (\<lambda>b opt. Inr (Some (enc_array 4 (replicate TOTAL_ENTRIES (7 :: u32))))), bt_has_snapshot = (\<lambda>vm. vm \<noteq> None),
      bt_user_area = (\<lambda>vm. vm), bt_set_user_area = (\<lambda>area vm. Some area), bt_save_snapshot = Inr,
      bt_prepare_cow = (\<lambda>a c vm. Inr vm), bt_setup_linux = (\<lambda>args env vm. Inr vm), bt_run = (\<lambda>c b. (b, None)),
      bt_sample = (\<lambda>i. 0), bt_fake_ctx = 9, bt_tenant = 1\<rparr>"

definition run_timeout :: "vmcall \<Rightarrow> vm_mem machine \<Rightarrow> vm_mem machine \<times> exn option" where
  "run_timeout c mi = (mi\<lparr>mi_waiting := False\<rparr>, Some TimeoutException)"

definition boot_mem :: "warmup option \<Rightarrow> vm_mem boot_env" where
  "boot_mem w =
     (let conf = demo_conf\<lparr>t_group := (t_group demo_conf)\<lparr>g_warmup := w\<rparr>\<rparr> in
      \<lparr>bt_conf = conf, bt_be = (benv_demo run_timeout entries_new)\<lparr>be_conf := conf\<rparr>,
       bt_linker = [], bt_dynamic = (\<lambda>b. (False, False)), bt_urandom = Inr (1, 2), bt_create = (\<lambda>b opt. Inr (\<lambda>a. CHR ''a'', regs_zero)),
       bt_has_snapshot = (\<lambda>vm. False), bt_user_area = (\<lambda>vm. None), bt_set_user_area = (\<lambda>area vm. vm), bt_save_snapshot = Inr,
       bt_prepare_cow = (\<lambda>a c vm. Inr vm), bt_setup_linux = (\<lambda>args env vm. Inr vm),
       bt_run = (\<lambda>c b. (((fst b)\<lparr>bs_mi := (bs_mi (fst b))\<lparr>mi_waiting := True\<rparr>\<rparr>, snd b), None)),
       bt_sample = (\<lambda>i. 0), bt_fake_ctx = 9, bt_tenant = 1\<rparr>)"

definition warmup_one :: warmup where
  "warmup_one = warmup_new\<lparr>w_num_requests := 1, w_headers := []\<rparr>"

definition boot_start :: "vm_mem boot" where
  "boot_start = (bstate_demo\<lparr>bs_mi := (machine_of (\<lambda>a. CHR ''a'', regs_zero))\<lparr>mi_is_storage := False, mi_waiting := False, mi_ctx := Some 1\<rparr>\<rparr>,
     entries_new)"

definition bstate_of :: "'m machine \<Rightarrow> 'm bstate" where
  "bstate_of mi = \<lparr>bs_mi = mi,
     bs_http = \<lparr>hc_bo = False, hc_bereq = None, hc_beresp = None, hc_req = None, hc_resp = None\<rparr>,
     bs_result = error_result, bs_cache = None, bs_program_status = [], bs_stack = 0, bs_inputs = binputs_zero\<rparr>"

lemma boot_mem_runs:
  "\<exists>b1. initialize_run (boot_mem w) binary boot_start = (b1, None) \<and> \<not> mi_is_storage (bs_mi (fst b1)) \<and>
     mi_ctx (bs_mi (fst b1)) = Some 1 \<and> r_rdi (snd (mi_vm (bs_mi (fst b1)))) = 0"
  by (simp add: initialize_run_def boot_mem_def boot_start_def boot_vm_def boot_mi_def stmt_defs Let_def skip_out_def
      benv_demo_def exec_mem_def machine_of_def demo_conf_def regs_zero_def tenant_group_new_def)

section \<open>Properties\<close>



text \<open>
  C16. A cold start snapshot restores the entry points a program registered, and the program counts
  as waiting for requests. What it does not restore is the mode: the machine is as ephemeral as the
  configuration says, even if the program had changed that before the snapshot was saved.
\<close>

theorem snapshot_restores_entries:
  assumes "area_law E" and "g_cold_start_snapshot_file (t_group (bt_conf E)) \<noteq> []"
    and "initialize_finish E (s, es) = (b1, None)" and "length es = TOTAL_ENTRIES"
    and "machine_new E binary ctx False debug = Inr mi" and "bt_has_snapshot E (mi_vm mi)"
    and "bt_user_area E (mi_vm mi) = bt_user_area E (mi_vm (bs_mi (fst b1)))"
    and "shared_memory_size (bt_conf E) = 0" and "bs_mi s2 = mi"
  shows "\<exists>s3. machine_initialize E binary (s2, entries_new) = Some ((s3, es), None) \<and> mi_waiting (bs_mi s3) \<and>
    mi_is_ephemeral (bs_mi s3) = g_ephemeral (t_group (bt_conf E))"
proof -
  obtain b0 where p: "boot_vm (bt_prepare_cow E 0 (shared_memory_boundary (bt_conf E))) (s, es) = (b0, None)"
    and save: "save_snapshot E b0 = (b1, None)"
    using assms(2,3) by (auto simp: initialize_finish_def stmt_defs split: prod.splits option.splits)
  from boot_vm_kept [OF p] have "snd b0 = es" by simp
  with save_snapshot_area [OF assms(1) save] assms(7) obtain rest
    where "bt_user_area E (mi_vm mi) = Some (enc_array 4 es @ rest)" by auto
  with assms load_state_enc [OF assms(4), of rest entries_new] machine_new_fields [OF assms(5)] show ?thesis
    by (simp add: machine_initialize_def initialize_body_def load_snapshot_def)
qed

theorem snapshot_restores_entries_witness:
  "\<exists>mi s3. machine_new boot_area (replicate 128 (CHR 0x00)) None False False = Inr mi \<and>
     machine_initialize boot_area (replicate 128 (CHR 0x00)) (bstate_of mi, entries_new) = Some ((s3, replicate TOTAL_ENTRIES 7), None) \<and>
     mi_waiting (bs_mi s3)"
proof -
  have "le_word (take 8 (drop 24 (replicate 128 (CHR 0x00)))) = (0 :: u64)"
    by (simp add: numeral_eq_Suc)
  then have "\<exists>mi. machine_new boot_area (replicate 128 (CHR 0x00)) None False False = Inr mi \<and>
      mi_vm mi = Some (enc_array 4 (replicate TOTAL_ENTRIES (7 :: u32)))"
    by (simp add: machine_new_def boot_area_def select_main_binary_def is_interpreted_binary_def detect_gigapage_from_def bind_res_def Let_def)
  then obtain mi where mi: "machine_new boot_area (replicate 128 (CHR 0x00)) None False False = Inr mi"
    and vm: "mi_vm mi = Some (enc_array 4 (replicate TOTAL_ENTRIES (7 :: u32)))" by blast
  have "\<exists>b1. initialize_finish boot_area (bstate_of (machine_of (Some [])), replicate TOTAL_ENTRIES 7) = (b1, None) \<and>
      mi_vm (bs_mi (fst b1)) = Some (enc_array 4 (replicate TOTAL_ENTRIES (7 :: u32)))"
    by (simp add: initialize_finish_def boot_area_def save_snapshot_def save_state_def boot_vm_def stmt_defs bstate_of_def machine_of_def)
  then obtain b1 where b1: "initialize_finish boot_area (bstate_of (machine_of (Some [])), replicate TOTAL_ENTRIES 7) = (b1, None)"
    and area: "mi_vm (bs_mi (fst b1)) = Some (enc_array 4 (replicate TOTAL_ENTRIES (7 :: u32)))" by blast
  have "\<exists>s3. machine_initialize boot_area (replicate 128 (CHR 0x00)) (bstate_of mi, entries_new) = Some ((s3, replicate TOTAL_ENTRIES 7), None) \<and>
      mi_waiting (bs_mi s3) \<and> mi_is_ephemeral (bs_mi s3) = g_ephemeral (t_group (bt_conf boot_area))"
    by (rule snapshot_restores_entries [OF _ _ b1 _ mi])
      (simp_all add: area_law_def boot_area_def vm area bstate_of_def shared_memory_size_def demo_conf_def tenant_group_new_def SHARED_MEMORY_SIZE_def)
  with mi show ?thesis by blast
qed

text \<open>
  A failed warmup is ignored: when the first warmup request throws, start-up goes on with the
  machine as the failed request left it, and succeeds even if the program does not wait for requests.
\<close>

theorem failed_warmup_ignored:
  fixes E :: "'m boot_env"
  assumes "initialize_run E binary b = (b1, None)" and "\<not> mi_is_storage (bs_mi (fst b1))" and "\<not> bt_has_snapshot E (mi_vm (bs_mi (fst b)))"
    and "shared_memory_size (bt_conf E) = 0" and "g_cold_start_snapshot_file (t_group (bt_conf E)) = []"
    and "g_warmup (t_group (bt_conf E)) = Some w" and "w_url w \<noteq> []" and "w_method w \<noteq> []" and "be_conf (bt_be E) = bt_conf E"
    and "mi_ctx (bs_mi (fst b1)) \<noteq> None" and "\<And>a c vm. \<exists>vm'. bt_prepare_cow E a c vm = Inr vm'"
    and "\<And>invoc s. mi_vm (bs_mi s) = mi_vm (bs_mi (fst b1)) \<Longrightarrow>
      \<exists>s' e. warmup_request (bt_be E) invoc (w_headers w) s = (s', Some e) \<and> \<not> mi_waiting (bs_mi s')"
  shows "\<exists>b'. machine_initialize E binary b = Some (b', None) \<and> \<not> mi_waiting (bs_mi (fst b'))"
proof -
  obtain s where s: "boot_warmup E b1 = Some ((s, snd b1), None)" and w: "\<not> mi_waiting (bs_mi s)"
  proof -
    define invoc where "invoc = \<lparr>ci_tenant = bt_tenant E, ci_special = False, ci_method = w_method w, ci_url = w_url w, ci_argument = [],
      ci_content_type = [], ci_break_status = 0, ci_soft_reset = 0\<rparr>"
    define s0 where "s0 = (fst b1)\<lparr>bs_mi := (bs_mi (fst b1))\<lparr>mi_warming_up := True, mi_ctx := Some (bt_fake_ctx E)\<rparr>,
      bs_http := \<lparr>hc_bo = False, hc_bereq = None, hc_beresp = None, hc_req = Some \<lparr>h_fields_max = 4, h_fields = []\<rparr>,
        hc_resp = Some \<lparr>h_fields_max = 4, h_fields = []\<rparr>\<rparr>\<rparr>"
    from assms(12) [of s0 invoc] obtain s' e where r: "warmup_request (bt_be E) invoc (w_headers w) s0 = (s', Some e)"
      and nw: "\<not> mi_waiting (bs_mi s')" by (auto simp: s0_def)
    have "machine_ctx ((bs_mi (fst b1))\<lparr>mi_warming_up := True\<rparr>) \<noteq> Inl x" for x
      using assms(10) by (auto simp: machine_ctx_def)
    then have "boot_warmup E b1 = Some ((s'\<lparr>bs_mi := (bs_mi s')\<lparr>mi_ctx := mi_ctx (bs_mi (fst b1)), mi_warming_up := False\<rparr>,
        bs_http := bs_http (fst b1)\<rparr>, snd b1), None)"
      using assms(6-9) warmup_first_fails [OF r]
      by (auto simp: boot_warmup_def machine_warmup_def backend_warmup_pause_resume_def need_ctx_def Let_def invoc_def s0_def split: sum.splits)
    then show ?thesis by (rule that) (use nw in simp)
  qed
  obtain vm where "bt_prepare_cow E 0 (shared_memory_boundary (bt_conf E)) (mi_vm (bs_mi s)) = Inr vm" using assms(11) by blast
  with s w assms(1-6) show ?thesis
    by (auto simp: machine_initialize_def initialize_body_def initialize_finish_def stmt_defs boot_vm_def)
qed

text \<open>Statements of the concrete machine that complete and leave its registers alone.\<close>

definition quiet :: "vm_mem bstate stmt \<Rightarrow> bool" where
  "quiet a \<longleftrightarrow> (\<forall>s. snd (a s) = None \<and> snd (mi_vm (bs_mi (fst (a s)))) = snd (mi_vm (bs_mi s)))"

lemma quiet_seq: "\<lbrakk>quiet a; quiet b\<rbrakk> \<Longrightarrow> quiet (stmt_seq a b)"
proof -
  assume a: "quiet a" and b: "quiet b"
  show ?thesis unfolding quiet_def
  proof
    fix s
    obtain s1 e where s1: "a s = (s1, e)" by fastforce
    with a have "e = None" "snd (mi_vm (bs_mi s1)) = snd (mi_vm (bs_mi s))" unfolding quiet_def by (metis fst_conv snd_conv)+
    with b s1 show "snd (stmt_seq a b s) = None \<and> snd (mi_vm (bs_mi (fst (stmt_seq a b s)))) = snd (mi_vm (bs_mi s))"
      by (simp add: quiet_def stmt_seq_def)
  qed
qed

lemma quiet_basic:
  "quiet (upd_bmi begin_call)" "quiet (stmt_upd rand_inputs)"
  "quiet (push_with (x_push (be_exec ((benv_demo run es)\<lparr>be_conf := c\<rparr>))) bytes f)"
  "quiet (push_with (be_push_cstr ((benv_demo run es)\<lparr>be_conf := c\<rparr>)) bytes f)"
  "quiet (stmt_upd (\<lambda>s. let mi = inputs_area ((benv_demo run es)\<lparr>be_conf := c\<rparr>) (bs_mi s)
     in s\<lparr>bs_mi := mi, bs_inputs := binputs_zero, bs_stack := mi_inputs_allocation mi\<rparr>))"
  by (auto simp: quiet_def upd_bmi_def begin_call_def stmt_upd_def rand_inputs_def push_with_def benv_demo_def exec_mem_def
      inputs_area_def vm_mem_ops_def Let_def split: prod.splits)

lemma quiet_fill: "quiet (fill_backend_inputs ((benv_demo run es)\<lparr>be_conf := c\<rparr>) invoc None)"
  unfolding fill_backend_inputs_def push_cut_def Let_def option.case by (intro quiet_seq quiet_basic)

lemma quiet_flags: "quiet (stmt_upd (\<lambda>s. s\<lparr>bs_inputs := f (bs_inputs s)\<rparr>))"
  by (simp add: quiet_def stmt_upd_def)

lemma quiet_then:
  assumes "quiet a" and "\<And>s. r_rdi (snd (mi_vm (bs_mi s))) = 0 \<Longrightarrow> \<exists>s' e. b s = (s', Some e) \<and> \<not> mi_waiting (bs_mi s')"
    and "r_rdi (snd (mi_vm (bs_mi s))) = 0"
  shows "\<exists>s' e. stmt_seq a b s = (s', Some e) \<and> \<not> mi_waiting (bs_mi s')"
proof -
  obtain s1 e where s1: "a s = (s1, e)" by fastforce
  with assms(1) have "e = None" "snd (mi_vm (bs_mi s1)) = snd (mi_vm (bs_mi s))" unfolding quiet_def by (metis fst_conv snd_conv)+
  with assms(2) [of s1] assms(3) s1 show ?thesis by (simp add: stmt_seq_def)
qed

lemma demo_resume_fails:
  assumes "r_rdi (snd (mi_vm (bs_mi s))) = 0"
  shows "\<exists>s' e. stmt_seq (copy_inputs ((benv_demo run_timeout es)\<lparr>be_conf := c\<rparr>)) (stmt_seq (\<lambda>s. run_vm ((benv_demo run_timeout es)\<lparr>be_conf := c\<rparr>) (call s) s) b) s =
     (s', Some e) \<and> \<not> mi_waiting (bs_mi s')"
proof -
  have "length (enc_inputs i) = 104" for i by (simp add: enc_inputs_def)
  then obtain s1 where "copy_inputs ((benv_demo run_timeout es)\<lparr>be_conf := c\<rparr>) s = (s1, None)"
    using assms by (simp add: copy_inputs_def benv_demo_def exec_mem_def guest_mem_def mem_guest_def)
  then show ?thesis by (simp add: stmt_seq_def run_vm_def benv_demo_def exec_mem_def run_timeout_def)
qed

lemma demo_warmup_fails:
  assumes "r_rdi (snd (mi_vm (bs_mi s))) = 0"
  shows "\<exists>s' e. warmup_request ((benv_demo run_timeout es)\<lparr>be_conf := c\<rparr>) invoc [] s = (s', Some e) \<and> \<not> mi_waiting (bs_mi s')"
proof -
  have headers: "quiet (\<lambda>s. case warm_headers ((benv_demo run_timeout es)\<lparr>be_conf := c\<rparr>) [] [] s of
      (s, Inl e) \<Rightarrow> (s, Some e) | (s, Inr hs) \<Rightarrow> push_header_array ((benv_demo run_timeout es)\<lparr>be_conf := c\<rparr>) hs s)"
    using quiet_basic(3) by (simp add: quiet_def push_header_array_def)
  show ?thesis
    unfolding warmup_request_def
    by (rule quiet_then [OF quiet_basic(1)], rule quiet_then [OF quiet_basic(5)], rule quiet_then [OF quiet_fill],
        rule quiet_then [OF headers], rule quiet_then [OF quiet_flags], rule demo_resume_fails)
      (use assms in simp_all)
qed

theorem failed_warmup_ignored_witness:
  "\<exists>b'. machine_initialize (boot_mem (Some warmup_one)) [] boot_start = Some (b', None) \<and> \<not> mi_waiting (bs_mi (fst b'))"
proof -
  obtain b1 where r: "initialize_run (boot_mem (Some warmup_one)) [] boot_start = (b1, None)"
    and b1: "\<not> mi_is_storage (bs_mi (fst b1))" "mi_ctx (bs_mi (fst b1)) = Some 1" "r_rdi (snd (mi_vm (bs_mi (fst b1)))) = 0"
    using boot_mem_runs by blast
  note conf = boot_mem_def Let_def shared_memory_size_def demo_conf_def tenant_group_new_def SHARED_MEMORY_SIZE_def warmup_one_def
    warmup_new_def
  show ?thesis
  proof (rule failed_warmup_ignored [OF r b1(1), of warmup_one])
    fix invoc and s :: "vm_mem bstate"
    assume "mi_vm (bs_mi s) = mi_vm (bs_mi (fst b1))"
    with b1(3) have "r_rdi (snd (mi_vm (bs_mi s))) = 0" by simp
    from demo_warmup_fails [OF this]
    show "\<exists>s' e. warmup_request (bt_be (boot_mem (Some warmup_one))) invoc (w_headers warmup_one) s = (s', Some e) \<and> \<not> mi_waiting (bs_mi s')"
      by (simp add: boot_mem_def Let_def warmup_one_def)
  qed (use b1 in \<open>simp_all add: conf\<close>)
qed

end
