(* ===== verification/Program_Pool.thy ===== *)
theory Program_Pool
  imports Machine Step_Systems
begin

text \<open>
  The pool of request VMs of a program (\<^verbatim>\<open>lib/libkvm/program_instance.cpp\<close>): creation of the forked
  VMs, reservation through the blocking queues, and the return of a VM after the request, either at
  once or by a task on the VM's own thread that resets it first. Each of these is an atomic step;
  a run interleaves the requests, the initialising thread and the VM threads in any order. The
  concurrent queue may hand out any of its elements.
\<close>

section \<open>State\<close>

text \<open>\<open>VMPoolItem\<close>: the machine exists once its thread has forked it; \<open>sl_prog_ref\<close> is whether the slot keeps the program alive.\<close>

record 'm slot =
  sl_mi :: "'m machine option"
  sl_prog_ref :: bool

text \<open>
  The members of \<open>ProgramInstance\<close> the pool uses. A slot number is in \<open>pl_starting\<close> while its future
  is pending, in \<open>pl_failed\<close> when the fork threw, in \<open>pl_reserved\<close> while a request holds it, and in
  \<open>pl_resetting\<close> between the return of the slot and the end of the deferred reset.
\<close>

record 'm pool =
  pl_conf :: tenant_conf
  pl_main :: "'m machine"
  pl_vms :: "'m slot list"
  pl_queues :: "nat list list"
  pl_starting :: "nat list"
  pl_failed :: "nat list"
  pl_reserved :: "nat list"
  pl_resetting :: "nat list"
  pl_timeouts :: u64

definition NUM_QUEUES :: nat where
  "NUM_QUEUES = 4"

definition pool_new :: "tenant_conf \<Rightarrow> 'm machine \<Rightarrow> 'm pool" where
  "pool_new t main = \<lparr>pl_conf = t, pl_main = main, pl_vms = [], pl_queues = replicate NUM_QUEUES [],
     pl_starting = [], pl_failed = [], pl_reserved = [], pl_resetting = [], pl_timeouts = 0\<rparr>"

section \<open>Operations\<close>

definition enqueue_slot :: "nat \<Rightarrow> nat \<Rightarrow> 'm pool \<Rightarrow> 'm pool" where
  "enqueue_slot node i p = p\<lparr>pl_queues := (pl_queues p)[node := pl_queues p ! node @ [i]]\<rparr>"

text \<open>\<open>m_vms.emplace_back(i, *main_vm, ten, this)\<close>.\<close>

definition pool_emplace :: "'m pool \<Rightarrow> 'm pool" where
  "pool_emplace p = p\<lparr>pl_vms := pl_vms p @ [\<lparr>sl_mi = None, sl_prog_ref = False\<rparr>],
     pl_starting := pl_starting p @ [length (pl_vms p)]\<rparr>"

text \<open>The future of a VM is ready: it goes into queue \<open>i % n_nodes\<close>, and \<open>n_nodes\<close> is 1.\<close>

definition pool_started :: "'m vm_ops \<Rightarrow> nat \<Rightarrow> 'm pool \<Rightarrow> 'm pool option" where
  "pool_started V i p =
     (if i \<in> set (pl_starting p)
      then Some (enqueue_slot (i mod 1) i
             (p\<lparr>pl_starting := remove1 i (pl_starting p),
                pl_vms := (pl_vms p)[i := (pl_vms p ! i)\<lparr>sl_mi := Some (machine_fork V (pl_conf p) (pl_main p))\<rparr>]\<rparr>))
      else None)"

text \<open>The future of a VM throws: the VM is never queued.\<close>

definition pool_start_failed :: "nat \<Rightarrow> 'm pool \<Rightarrow> 'm pool option" where
  "pool_start_failed i p =
     (if i \<in> set (pl_starting p)
      then Some (p\<lparr>pl_starting := remove1 i (pl_starting p), pl_failed := i # pl_failed p\<rparr>)
      else None)"

text \<open>\<open>reserve_vm\<close> on a thread running on NUMA node \<open>node\<close>, when the queue hands out slot \<open>i\<close>.\<close>

definition reserve_vm :: "nat \<Rightarrow> nat \<Rightarrow> nat \<Rightarrow> bool \<Rightarrow> 'm pool \<Rightarrow> 'm pool option" where
  "reserve_vm node i ctx soft_reset p =
     (if node < NUM_QUEUES \<and> i \<in> set (pl_queues p ! node)
      then Some (p\<lparr>pl_queues := (pl_queues p)[node := remove1 i (pl_queues p ! node)],
                   pl_reserved := i # pl_reserved p,
                   pl_vms := (pl_vms p)[i :=
                     \<lparr>sl_mi = map_option (\<lambda>mi. mi\<lparr>mi_ctx := Some ctx, mi_soft_reset := soft_reset\<rparr>) (sl_mi (pl_vms p ! i)),
                      sl_prog_ref = True\<rparr>]\<rparr>)
      else None)"

text \<open>\<open>reserve_vm\<close> when nothing arrives before the timeout.\<close>

definition reserve_timeout :: "nat \<Rightarrow> 'm pool \<Rightarrow> ('m pool \<times> exn) option" where
  "reserve_timeout node p =
     (if node < NUM_QUEUES \<and> pl_queues p ! node = []
      then Some (p\<lparr>pl_timeouts := pl_timeouts p + 1\<rparr>, RuntimeError ''Queue timeout'')
      else None)"

text \<open>
  The common tail of both branches of \<open>vm_free_function\<close>: free what the request owned, reset to the
  main VM, give up the reference and queue the slot on the node the code runs on.
\<close>

definition slot_release :: "'m vm_ops \<Rightarrow> nat \<Rightarrow> nat \<Rightarrow> 'm pool \<Rightarrow> 'm pool" where
  "slot_release V node i p =
     enqueue_slot node i
       (p\<lparr>pl_vms := (pl_vms p)[i :=
            \<lparr>sl_mi = map_option (\<lambda>mi. machine_reset_to V (pl_conf p) None (pl_main p) (fst (tail_reset mi)))
                      (sl_mi (pl_vms p ! i)),
             sl_prog_ref = False\<rparr>]\<rparr>)"

definition vm_free_function :: "'m vm_ops \<Rightarrow> nat \<Rightarrow> nat \<Rightarrow> 'm pool \<Rightarrow> 'm pool option" where
  "vm_free_function V node i p =
     (if i \<in> set (pl_reserved p) \<and> node < NUM_QUEUES then
        case sl_mi (pl_vms p ! i) of
          None \<Rightarrow> None
        | Some mi \<Rightarrow>
            if \<not> is_reset_needed mi
            then Some (slot_release V node i (p\<lparr>pl_reserved := remove1 i (pl_reserved p)\<rparr>))
            else Some (p\<lparr>pl_reserved := remove1 i (pl_reserved p), pl_resetting := i # pl_resetting p\<rparr>)
      else None)"

text \<open>The task that the second branch queued on the VM's thread.\<close>

definition deferred_reset :: "'m vm_ops \<Rightarrow> nat \<Rightarrow> nat \<Rightarrow> 'm pool \<Rightarrow> 'm pool option" where
  "deferred_reset V node i p =
     (if i \<in> set (pl_resetting p) \<and> node < NUM_QUEUES
      then Some (slot_release V node i (p\<lparr>pl_resetting := remove1 i (pl_resetting p)\<rparr>))
      else None)"

text \<open>
  What a request does with a VM it holds: anything to the machine, except that only a program
  configured with \<open>control_ephemeral\<close> can turn its VM non-ephemeral.
\<close>

definition run_allowed :: "tenant_conf \<Rightarrow> 'm machine \<Rightarrow> 'm machine \<Rightarrow> bool" where
  "run_allowed t mi mi' \<longleftrightarrow> g_control_ephemeral (t_group t) \<or> mi_is_ephemeral mi' = mi_is_ephemeral mi"

definition pool_run :: "nat \<Rightarrow> 'm machine \<Rightarrow> 'm pool \<Rightarrow> 'm pool option" where
  "pool_run i mi' p =
     (if i \<in> set (pl_reserved p) then
        case sl_mi (pl_vms p ! i) of
          None \<Rightarrow> None
        | Some mi \<Rightarrow>
            if run_allowed (pl_conf p) mi mi'
            then Some (p\<lparr>pl_vms := (pl_vms p)[i := (pl_vms p ! i)\<lparr>sl_mi := Some mi'\<rparr>]\<rparr>) else None
      else None)"

section \<open>Steps\<close>

datatype 'm paction =
    PEmplace
  | PStarted nat
  | PStartFailed nat
  | PReserve nat nat nat bool
  | PTimeout nat
  | PRun nat "'m machine"
  | PFree nat nat
  | PReset nat nat

fun pool_exec :: "'m vm_ops \<Rightarrow> 'm pool \<Rightarrow> 'm paction \<Rightarrow> 'm pool option" where
  "pool_exec V p PEmplace = Some (pool_emplace p)"
| "pool_exec V p (PStarted i) = pool_started V i p"
| "pool_exec V p (PStartFailed i) = pool_start_failed i p"
| "pool_exec V p (PReserve node i ctx soft) = reserve_vm node i ctx soft p"
| "pool_exec V p (PTimeout node) = map_option fst (reserve_timeout node p)"
| "pool_exec V p (PRun i mi) = pool_run i mi p"
| "pool_exec V p (PFree node i) = vm_free_function V node i p"
| "pool_exec V p (PReset node i) = deferred_reset V node i p"

definition pool_step :: "'m vm_ops \<Rightarrow> 'm pool \<Rightarrow> 'm paction \<Rightarrow> 'm pool \<Rightarrow> bool" where
  "pool_step V p a p' \<longleftrightarrow> pool_exec V p a = Some p'"

section \<open>Invariant\<close>

definition pool_places :: "'m pool \<Rightarrow> nat list" where
  "pool_places p = pl_starting p @ pl_failed p @ concat (pl_queues p) @ pl_reserved p @ pl_resetting p"

text \<open>A slot outside a request holds no reference; a slot of a request has a machine and a reference.\<close>

definition slot_idle :: "'m slot \<Rightarrow> bool" where
  "slot_idle s \<longleftrightarrow> sl_mi s \<noteq> None \<and> \<not> sl_prog_ref s"

definition slot_held :: "'m slot \<Rightarrow> bool" where
  "slot_held s \<longleftrightarrow> sl_mi s \<noteq> None \<and> sl_prog_ref s"

definition pool_inv :: "'m pool \<Rightarrow> bool" where
  "pool_inv p \<longleftrightarrow>
     mset (pool_places p) = mset [0..<length (pl_vms p)] \<and>
     length (pl_queues p) = NUM_QUEUES \<and>
     (\<forall>i \<in> set (concat (pl_queues p)). slot_idle (pl_vms p ! i)) \<and>
     (\<forall>i \<in> set (pl_reserved p) \<union> set (pl_resetting p). slot_held (pl_vms p ! i)) \<and>
     (\<forall>i \<in> set (pl_starting p) \<union> set (pl_failed p). \<not> sl_prog_ref (pl_vms p ! i))"

lemma pool_inv_mset: "pool_inv p \<Longrightarrow> mset (pool_places p) = mset [0..<length (pl_vms p)]"
  unfolding pool_inv_def by (erule conjunct1)

lemma pool_inv_distinct: "pool_inv p \<Longrightarrow> distinct (pool_places p)"
  using mset_eq_imp_distinct_iff [OF pool_inv_mset] by simp

lemma pool_inv_set: "pool_inv p \<Longrightarrow> set (pool_places p) = {..<length (pl_vms p)}"
  using mset_eq_setD [OF pool_inv_mset] by (simp only: set_upt atLeast0LessThan)

lemma pool_inv_bound: "\<lbrakk>pool_inv p; i \<in> set (pool_places p)\<rbrakk> \<Longrightarrow> i < length (pl_vms p)"
  using pool_inv_set by blast

lemma in_pool_places:
  "i \<in> set (pl_starting p) \<Longrightarrow> i \<in> set (pool_places p)" "i \<in> set (pl_failed p) \<Longrightarrow> i \<in> set (pool_places p)"
  "i \<in> set (concat (pl_queues p)) \<Longrightarrow> i \<in> set (pool_places p)"
  "i \<in> set (pl_reserved p) \<Longrightarrow> i \<in> set (pool_places p)" "i \<in> set (pl_resetting p) \<Longrightarrow> i \<in> set (pool_places p)"
  by (auto simp: pool_places_def)

lemma pool_inv_roles:
  assumes "pool_inv p"
  shows "distinct (pl_starting p)" "distinct (pl_failed p)" "distinct (concat (pl_queues p))"
    "distinct (pl_reserved p)" "distinct (pl_resetting p)"
    "set (pl_starting p) \<inter> (set (pl_failed p) \<union> set (concat (pl_queues p)) \<union> set (pl_reserved p) \<union> set (pl_resetting p)) = {}"
    "set (concat (pl_queues p)) \<inter> (set (pl_failed p) \<union> set (pl_reserved p) \<union> set (pl_resetting p)) = {}"
    "set (pl_reserved p) \<inter> (set (pl_failed p) \<union> set (pl_resetting p)) = {}"
    "set (pl_resetting p) \<inter> set (pl_failed p) = {}"
  using pool_inv_distinct [OF assms] unfolding pool_places_def distinct_append set_append by blast+

text \<open>How a slot that is in exactly one place is affected by an update of another slot.\<close>

lemma pool_invI:
  assumes "mset (pool_places p') = mset (pool_places p)" and "pool_inv p"
    and "length (pl_vms p') = length (pl_vms p)" and "length (pl_queues p') = length (pl_queues p)"
    and "\<And>j. j \<noteq> i \<Longrightarrow> pl_vms p' ! j = pl_vms p ! j"
    and "set (concat (pl_queues p')) \<subseteq> insert i (set (concat (pl_queues p)))"
    and "set (pl_reserved p') \<union> set (pl_resetting p') \<subseteq> insert i (set (pl_reserved p) \<union> set (pl_resetting p))"
    and "set (pl_starting p') \<union> set (pl_failed p') \<subseteq> insert i (set (pl_starting p) \<union> set (pl_failed p))"
    and "i \<in> set (concat (pl_queues p')) \<Longrightarrow> slot_idle (pl_vms p' ! i)"
    and "i \<in> set (pl_reserved p') \<union> set (pl_resetting p') \<Longrightarrow> slot_held (pl_vms p' ! i)"
    and "i \<in> set (pl_starting p') \<union> set (pl_failed p') \<Longrightarrow> \<not> sl_prog_ref (pl_vms p' ! i)"
  shows "pool_inv p'"
proof -
  have "slot_idle (pl_vms p' ! j)" if "j \<in> set (concat (pl_queues p'))" for j
    using that assms(2,5,6,9) by (cases "j = i") (auto simp: pool_inv_def)
  moreover have "slot_held (pl_vms p' ! j)" if "j \<in> set (pl_reserved p') \<union> set (pl_resetting p')" for j
    using that assms(2,5,7,10) by (cases "j = i") (auto simp: pool_inv_def)
  moreover have "\<not> sl_prog_ref (pl_vms p' ! j)" if "j \<in> set (pl_starting p') \<union> set (pl_failed p')" for j
    using that assms(2,5,8,11) by (cases "j = i") (auto simp: pool_inv_def)
  ultimately show ?thesis
    using assms(1-4) unfolding pool_inv_def by auto
qed

lemma pool_new_inv: "pool_inv (pool_new t main)"
  by (simp add: pool_inv_def pool_new_def pool_places_def NUM_QUEUES_def numeral_eq_Suc)

lemma pool_emplace_inv:
  assumes "pool_inv p"
  shows "pool_inv (pool_emplace p)"
proof -
  have lt: "i \<in> set (pool_places p) \<Longrightarrow> pl_vms (pool_emplace p) ! i = pl_vms p ! i" for i
    using pool_inv_bound [OF assms] by (simp add: pool_emplace_def nth_append)
  have m: "mset (pool_places (pool_emplace p)) = mset [0..<length (pl_vms (pool_emplace p))]"
    using pool_inv_mset [OF assms] by (simp add: pool_places_def pool_emplace_def)
  have "\<forall>i \<in> set (pl_starting p) \<union> set (pl_failed p). \<not> sl_prog_ref (pl_vms (pool_emplace p) ! i)"
    using assms lt in_pool_places unfolding pool_inv_def by (metis UnE UnI1 UnI2)
  moreover have "\<not> sl_prog_ref (pl_vms (pool_emplace p) ! length (pl_vms p))"
    by (simp add: pool_emplace_def)
  moreover have "\<forall>i \<in> set (concat (pl_queues p)). slot_idle (pl_vms (pool_emplace p) ! i)"
    using assms lt in_pool_places(3) unfolding pool_inv_def by metis
  moreover have "\<forall>i \<in> set (pl_reserved p) \<union> set (pl_resetting p). slot_held (pl_vms (pool_emplace p) ! i)"
    using assms lt in_pool_places(4,5) unfolding pool_inv_def by (metis UnE UnI1 UnI2)
  ultimately show ?thesis
    using m assms unfolding pool_inv_def by (simp add: pool_emplace_def)
qed

lemma enqueue_slot_fields [simp]:
  "pl_vms (enqueue_slot node i p) = pl_vms p" "pl_starting (enqueue_slot node i p) = pl_starting p"
  "pl_failed (enqueue_slot node i p) = pl_failed p" "pl_reserved (enqueue_slot node i p) = pl_reserved p"
  "pl_resetting (enqueue_slot node i p) = pl_resetting p" "pl_main (enqueue_slot node i p) = pl_main p"
  "pl_conf (enqueue_slot node i p) = pl_conf p"
  "length (pl_queues (enqueue_slot node i p)) = length (pl_queues p)"
  by (simp_all add: enqueue_slot_def)

lemma enqueue_slot_queues:
  assumes "node < length (pl_queues p)"
  shows "mset (concat (pl_queues (enqueue_slot node i p))) = add_mset i (mset (concat (pl_queues p)))"
    and "set (concat (pl_queues (enqueue_slot node i p))) = insert i (set (concat (pl_queues p)))"
  using mset_concat_append [OF assms, of i] set_concat_append [OF assms, of i]
  by (simp_all add: enqueue_slot_def)

lemma pool_inv_queues: "pool_inv p \<Longrightarrow> length (pl_queues p) = 4"
  by (simp add: pool_inv_def NUM_QUEUES_def)

lemma mset_remove1_add: "i \<in> set xs \<Longrightarrow> add_mset i (mset (remove1 i xs)) = mset xs"
  by simp

lemma set_remove1_sub: "set (remove1 i xs) \<subseteq> set xs"
  by (rule set_remove1_subset)

text \<open>Moving slot \<open>i\<close> into a queue, with a new slot content.\<close>

lemma enqueue_inv:
  assumes inv: "pool_inv p" and node: "node < NUM_QUEUES"
    and p1: "pl_queues p1 = pl_queues p" "length (pl_vms p1) = length (pl_vms p)"
      "\<And>j. j \<noteq> i \<Longrightarrow> pl_vms p1 ! j = pl_vms p ! j" "slot_idle (pl_vms p1 ! i)"
    and places: "add_mset i (mset (pl_starting p1 @ pl_failed p1 @ pl_reserved p1 @ pl_resetting p1)) =
        mset (pl_starting p @ pl_failed p @ pl_reserved p @ pl_resetting p)"
    and sub: "set (pl_reserved p1) \<union> set (pl_resetting p1) \<subseteq> set (pl_reserved p) \<union> set (pl_resetting p)"
      "set (pl_starting p1) \<union> set (pl_failed p1) \<subseteq> set (pl_starting p) \<union> set (pl_failed p)"
  shows "pool_inv (enqueue_slot node i p1)"
proof -
  have n: "node < length (pl_queues p1)" using inv node p1(1) by (simp add: pool_inv_def)
  have m: "mset (pool_places (enqueue_slot node i p1)) = mset (pool_places p)"
    using enqueue_slot_queues(1) [OF n, of i] places p1(1)
    by (simp add: pool_places_def ac_simps)
  have d: "distinct (pool_places (enqueue_slot node i p1))"
    using mset_eq_imp_distinct_iff [OF m] pool_inv_distinct [OF inv] by simp
  have i: "i \<in> set (concat (pl_queues (enqueue_slot node i p1)))"
    using enqueue_slot_queues(2) [OF n, of i] by simp
  with d have out: "i \<notin> set (pl_reserved p1) \<union> set (pl_resetting p1)"
    "i \<notin> set (pl_starting p1) \<union> set (pl_failed p1)"
    unfolding pool_places_def distinct_append by auto
  show ?thesis
    by (rule pool_invI [OF m inv, where i = i])
      (use p1 sub out enqueue_slot_queues(2) [OF n, of i] in auto)
qed

lemma pool_started_inv:
  assumes inv: "pool_inv p" and s: "pool_started V i p = Some p'"
  shows "pool_inv p'"
proof -
  from s have i: "i \<in> set (pl_starting p)"
    and p': "p' = enqueue_slot 0 i (p\<lparr>pl_starting := remove1 i (pl_starting p),
        pl_vms := (pl_vms p)[i := (pl_vms p ! i)\<lparr>sl_mi := Some (machine_fork V (pl_conf p) (pl_main p))\<rparr>]\<rparr>)"
    by (auto simp: pool_started_def split: if_splits)
  have lt: "i < length (pl_vms p)" using pool_inv_bound [OF inv in_pool_places(1) [OF i]] .
  have "\<not> sl_prog_ref (pl_vms p ! i)" using inv i by (auto simp: pool_inv_def)
  then show ?thesis unfolding p'
    by (intro enqueue_inv [OF inv])
      (use i lt set_remove1_sub [THEN subsetD] in \<open>auto simp: NUM_QUEUES_def slot_idle_def\<close>)
qed

lemma pool_start_failed_inv:
  assumes inv: "pool_inv p" and s: "pool_start_failed i p = Some p'"
  shows "pool_inv p'"
proof -
  from s have i: "i \<in> set (pl_starting p)"
    and p': "p' = p\<lparr>pl_starting := remove1 i (pl_starting p), pl_failed := i # pl_failed p\<rparr>"
    by (auto simp: pool_start_failed_def split: if_splits)
  have "mset (pool_places p') = mset (pool_places p)"
    using i by (simp add: p' pool_places_def)
  then show ?thesis
    by (rule pool_invI [OF _ inv, where i = i])
      (use i inv pool_inv_roles [OF inv] set_remove1_sub [of i] in \<open>auto simp: p' pool_inv_def\<close>)
qed

lemma reserve_vmD:
  assumes "reserve_vm node i ctx soft p = Some p'"
  shows "node < NUM_QUEUES" "i \<in> set (pl_queues p ! node)"
    "p' = p\<lparr>pl_queues := (pl_queues p)[node := remove1 i (pl_queues p ! node)],
       pl_reserved := i # pl_reserved p,
       pl_vms := (pl_vms p)[i :=
         \<lparr>sl_mi = map_option (\<lambda>mi. mi\<lparr>mi_ctx := Some ctx, mi_soft_reset := soft\<rparr>) (sl_mi (pl_vms p ! i)),
          sl_prog_ref = True\<rparr>]\<rparr>"
  using assms by (auto simp: reserve_vm_def split: if_splits)

lemma reserve_vm_queued:
  assumes "pool_inv p" and "reserve_vm node i ctx soft p = Some p'"
  shows "i \<in> set (concat (pl_queues p))"
proof -
  have "node < length (pl_queues p)" using reserve_vmD(1) [OF assms(2)] assms(1) by (simp add: pool_inv_def)
  with reserve_vmD(2) [OF assms(2)] show ?thesis by (metis UN_I nth_mem set_concat)
qed

lemma reserve_vm_inv:
  assumes inv: "pool_inv p" and r: "reserve_vm node i ctx soft p = Some p'"
  shows "pool_inv p'"
proof -
  note p' = reserve_vmD(3) [OF r]
  have n: "node < length (pl_queues p)" using inv reserve_vmD(1) [OF r] by (simp add: pool_inv_def)
  have q: "i \<in> set (concat (pl_queues p))" by (rule reserve_vm_queued [OF inv r])
  have lt: "i < length (pl_vms p)" using pool_inv_bound [OF inv in_pool_places(3) [OF q]] .
  have mi: "sl_mi (pl_vms p ! i) \<noteq> None" using inv q by (auto simp: pool_inv_def slot_idle_def)
  have mq: "mset (concat (pl_queues p)) = add_mset i (mset (concat (pl_queues p')))"
    using mset_concat_remove1 [OF n reserve_vmD(2) [OF r]] by (simp add: p')
  have m: "mset (pool_places p') = mset (pool_places p)"
    using mq by (simp add: pool_places_def p')
  have d: "distinct (pool_places p')"
    using mset_eq_imp_distinct_iff [OF m] pool_inv_distinct [OF inv] by simp
  have "i \<notin> set (concat (pl_queues p'))" "i \<notin> set (pl_starting p')" "i \<notin> set (pl_failed p')"
    using d unfolding pool_places_def distinct_append by (auto simp: p')
  then show ?thesis
    using mi lt set_concat_remove1 [OF n, of i]
    by (intro pool_invI [OF m inv, where i = i]) (auto simp: p' slot_held_def)
qed

lemma slot_release_inv:
  assumes inv: "pool_inv p" and node: "node < NUM_QUEUES" and lt: "i < length (pl_vms p)"
    and mi: "sl_mi (pl_vms p ! i) \<noteq> None"
    and p1: "pl_vms p1 = pl_vms p" "pl_queues p1 = pl_queues p" "pl_starting p1 = pl_starting p"
      "pl_failed p1 = pl_failed p"
    and m: "add_mset i (mset (pl_reserved p1 @ pl_resetting p1)) = mset (pl_reserved p @ pl_resetting p)"
  shows "pool_inv (slot_release V node i p1)"
proof -
  have "set (pl_reserved p1 @ pl_resetting p1) \<subseteq> set (pl_reserved p @ pl_resetting p)"
    using arg_cong [OF m, of set_mset] by auto
  then show ?thesis
    unfolding slot_release_def
    by (intro enqueue_inv [OF inv node]) (use p1 m lt mi in \<open>auto simp: slot_idle_def\<close>)
qed

lemma vm_free_function_inv:
  assumes inv: "pool_inv p" and f: "vm_free_function V node i p = Some p'"
  shows "pool_inv p'"
proof -
  from f have i: "i \<in> set (pl_reserved p)" and node: "node < NUM_QUEUES"
    by (auto simp: vm_free_function_def split: if_splits)
  from f obtain mi where mi: "sl_mi (pl_vms p ! i) = Some mi"
    by (auto simp: vm_free_function_def split: if_splits option.splits)
  have lt: "i < length (pl_vms p)" using pool_inv_bound [OF inv in_pool_places(4) [OF i]] .
  show ?thesis
  proof (cases "is_reset_needed mi")
    case False
    with f i node mi have p': "p' = slot_release V node i (p\<lparr>pl_reserved := remove1 i (pl_reserved p)\<rparr>)"
      by (simp add: vm_free_function_def)
    show ?thesis unfolding p'
      by (rule slot_release_inv [OF inv node lt]) (use mi i in auto)
  next
    case True
    with f i node mi have p': "p' = p\<lparr>pl_reserved := remove1 i (pl_reserved p), pl_resetting := i # pl_resetting p\<rparr>"
      by (simp add: vm_free_function_def)
    have "mset (pool_places p') = mset (pool_places p)" using i by (simp add: p' pool_places_def)
    then show ?thesis
      by (rule pool_invI [OF _ inv, where i = i])
        (use i inv pool_inv_roles [OF inv] set_remove1_sub [THEN subsetD] in \<open>auto simp: p' pool_inv_def\<close>)
  qed
qed

lemma deferred_reset_inv:
  assumes inv: "pool_inv p" and f: "deferred_reset V node i p = Some p'"
  shows "pool_inv p'"
proof -
  from f have i: "i \<in> set (pl_resetting p)" and node: "node < NUM_QUEUES"
    and p': "p' = slot_release V node i (p\<lparr>pl_resetting := remove1 i (pl_resetting p)\<rparr>)"
    by (auto simp: deferred_reset_def split: if_splits)
  have lt: "i < length (pl_vms p)" using pool_inv_bound [OF inv in_pool_places(5) [OF i]] .
  have "sl_mi (pl_vms p ! i) \<noteq> None" using inv i by (auto simp: pool_inv_def slot_held_def)
  then show ?thesis unfolding p'
    by (intro slot_release_inv [OF inv node lt]) (use i in auto)
qed

lemma pool_run_inv:
  assumes inv: "pool_inv p" and f: "pool_run i mi' p = Some p'"
  shows "pool_inv p'"
proof -
  from f have i: "i \<in> set (pl_reserved p)"
    and p': "p' = p\<lparr>pl_vms := (pl_vms p)[i := (pl_vms p ! i)\<lparr>sl_mi := Some mi'\<rparr>]\<rparr>"
    by (auto simp: pool_run_def split: if_splits option.splits)
  have lt: "i < length (pl_vms p)" using pool_inv_bound [OF inv in_pool_places(4) [OF i]] .
  have "sl_prog_ref (pl_vms p ! i)" using inv i by (auto simp: pool_inv_def slot_held_def)
  moreover have "i \<notin> set (concat (pl_queues p))" "i \<notin> set (pl_starting p)" "i \<notin> set (pl_failed p)"
    using pool_inv_roles(6-8) [OF inv] i by blast+
  ultimately show ?thesis
    using lt by (intro pool_invI [OF _ inv, where i = i]) (auto simp: p' pool_places_def slot_held_def)
qed

lemma reserve_timeout_inv:
  "\<lbrakk>pool_inv p; reserve_timeout node p = Some (p', e)\<rbrakk> \<Longrightarrow> pool_inv p'"
  by (auto simp: reserve_timeout_def pool_inv_def pool_places_def split: if_splits)

lemma pool_step_inv: "\<lbrakk>pool_inv p; pool_step V p a p'\<rbrakk> \<Longrightarrow> pool_inv p'"
  by (cases a)
    (auto simp: pool_step_def intro: pool_emplace_inv pool_started_inv pool_start_failed_inv reserve_vm_inv
      reserve_timeout_inv pool_run_inv vm_free_function_inv deferred_reset_inv)

interpretation pool_tickets:
  ticket_system "pool_new t main" "pool_step V" pool_inv pool_places "\<lambda>p. length (pl_vms p)"
  for t main V
  by unfold_locales (rule pool_new_inv, erule (1) pool_step_inv, erule pool_inv_mset)

section \<open>Isolation between requests\<close>

text \<open>
  What the program relies on: a fork shows the guest the memory and registers of its source, and a
  reset that completes shows it those of the machine it was reset to. \<open>view\<close> is what a guest can
  observe of a virtual machine.
\<close>

definition vm_fork_law :: "'m vm_ops \<Rightarrow> ('m \<Rightarrow> 'v) \<Rightarrow> bool" where
  "vm_fork_law V view \<longleftrightarrow> (\<forall>m t. view (v_fork V m t) = view m)"

definition vm_reset_law :: "'m vm_ops \<Rightarrow> ('m \<Rightarrow> 'v) \<Rightarrow> bool" where
  "vm_reset_law V view \<longleftrightarrow>
     (\<forall>m source opts. \<exists>m' full. v_reset_to V m source opts = (m', Inr full) \<and> view m' = view source)"

text \<open>A machine that carries nothing over from an earlier request.\<close>

definition mi_fresh :: "('m \<Rightarrow> 'v) \<Rightarrow> 'm machine \<Rightarrow> 'm machine \<Rightarrow> bool" where
  "mi_fresh view main mi \<longleftrightarrow>
     view (mi_vm mi) = view (mi_vm main) \<and> mi_post_size mi = 0 \<and>
     cache_owned_items (mi_regex mi) = [] \<and>
     (\<forall>h. cache_find (mi_regex mi) h = cache_find (mi_regex main) h)"

definition slot_clean :: "('m \<Rightarrow> 'v) \<Rightarrow> 'm machine \<Rightarrow> 'm slot \<Rightarrow> bool" where
  "slot_clean view main s \<longleftrightarrow> (\<forall>mi. sl_mi s = Some mi \<and> mi_is_ephemeral mi \<longrightarrow> mi_fresh view main mi)"

definition slot_mode :: "tenant_conf \<Rightarrow> 'm machine \<Rightarrow> 'm slot \<Rightarrow> bool" where
  "slot_mode t main s \<longleftrightarrow>
     (g_control_ephemeral (t_group t) \<or> (\<forall>mi. sl_mi s = Some mi \<longrightarrow> mi_is_ephemeral mi = mi_is_ephemeral main))"

definition pool_clean :: "('m \<Rightarrow> 'v) \<Rightarrow> tenant_conf \<Rightarrow> 'm machine \<Rightarrow> 'm pool \<Rightarrow> bool" where
  "pool_clean view t main p \<longleftrightarrow>
     pool_inv p \<and> pl_conf p = t \<and> pl_main p = main \<and>
     (\<forall>i \<in> set (concat (pl_queues p)). slot_clean view main (pl_vms p ! i)) \<and>
     (\<forall>s \<in> set (pl_vms p). slot_mode t main s)"

lemma machine_fork_fresh:
  "vm_fork_law V view \<Longrightarrow> mi_fresh view main (machine_fork V t main)"
  by (simp add: mi_fresh_def machine_fork_def vm_fork_law_def)

lemma machine_fork_ephemeral [simp]: "mi_is_ephemeral (machine_fork V t main) = mi_is_ephemeral main"
  by (simp add: machine_fork_def)

lemma machine_reset_fresh:
  assumes "vm_reset_law V view" and "mi_is_ephemeral mi"
  shows "mi_fresh view main (machine_reset_to V t ctx main mi)"
proof -
  from assms(2) have need: "is_reset_needed mi" by (simp add: is_reset_needed_def)
  from assms(1) have "view (fst (v_reset_to V (mi_vm mi) (mi_vm main) (machine_reset_options t mi))) = view (mi_vm main)"
    unfolding vm_reset_law_def by (metis fst_conv)
  then show ?thesis by (simp add: mi_fresh_def machine_reset_to_fields [OF need])
qed

lemma released_slot_clean:
  assumes "vm_reset_law V view"
  shows "slot_clean view main
    \<lparr>sl_mi = map_option (\<lambda>mi. machine_reset_to V t None main (fst (tail_reset mi))) m, sl_prog_ref = b\<rparr>"
  using machine_reset_fresh [OF assms] by (auto simp: slot_clean_def)

lemma released_slot_mode:
  "slot_mode t main s \<Longrightarrow> slot_mode t main
    \<lparr>sl_mi = map_option (\<lambda>mi. machine_reset_to V t None main (fst (tail_reset mi))) (sl_mi s), sl_prog_ref = b\<rparr>"
  by (auto simp: slot_mode_def)

text \<open>A step replaces at most one slot and queues at most that one.\<close>

lemma pool_cleanI:
  assumes "pool_clean view t main p" and "pool_inv p'" and "pl_conf p' = pl_conf p" and "pl_main p' = pl_main p"
    and "pl_vms p' = (pl_vms p)[i := s]" and "slot_mode t main s"
    and "set (concat (pl_queues p')) \<subseteq> insert i (set (concat (pl_queues p)))"
    and "i \<in> set (concat (pl_queues p')) \<Longrightarrow> slot_clean view main s"
  shows "pool_clean view t main p'"
proof -
  have "slot_clean view main (pl_vms p' ! j)" if j: "j \<in> set (concat (pl_queues p'))" for j
  proof (cases "j = i")
    case True
    have "j < length (pl_vms p')" using pool_inv_bound [OF assms(2) in_pool_places(3) [OF j]] .
    with True j assms(5,8) show ?thesis by simp
  next
    case False
    with j assms(1,5,7) show ?thesis by (auto simp: pool_clean_def)
  qed
  moreover have "\<forall>x \<in> set (pl_vms p'). slot_mode t main x"
    using assms(1,5,6) by (auto simp: pool_clean_def dest!: set_update_subset_insert [THEN subsetD])
  ultimately show ?thesis using assms(1-4) by (simp add: pool_clean_def)
qed

lemma slot_modeD: "\<lbrakk>pool_clean view t main p; i < length (pl_vms p)\<rbrakk> \<Longrightarrow> slot_mode t main (pl_vms p ! i)"
  by (simp add: pool_clean_def)

lemma slot_release_clean:
  assumes "pool_clean view t main p" and "vm_reset_law V view" and "pool_inv (slot_release V node i p1)"
    and "pl_conf p1 = pl_conf p" "pl_main p1 = pl_main p" "pl_vms p1 = pl_vms p" "pl_queues p1 = pl_queues p"
    and "i < length (pl_vms p)" and "node < NUM_QUEUES"
  shows "pool_clean view t main (slot_release V node i p1)"
proof (rule pool_cleanI [OF assms(1,3)])
  have c: "pl_conf p = t" "pl_main p = main" using assms(1) by (simp_all add: pool_clean_def)
  let ?s = "\<lparr>sl_mi = map_option (\<lambda>mi. machine_reset_to V t None main (fst (tail_reset mi))) (sl_mi (pl_vms p ! i)),
      sl_prog_ref = False\<rparr>"
  show "pl_vms (slot_release V node i p1) = (pl_vms p)[i := ?s]"
    using assms c by (simp add: slot_release_def)
  show "slot_mode t main ?s" by (rule released_slot_mode [OF slot_modeD [OF assms(1,8)]])
  show "slot_clean view main ?s" by (rule released_slot_clean [OF assms(2)])
  have "length (pl_queues p) = NUM_QUEUES" using assms(1) by (simp add: pool_clean_def pool_inv_def)
  then show "set (concat (pl_queues (slot_release V node i p1))) \<subseteq> insert i (set (concat (pl_queues p)))"
    unfolding slot_release_def
    by (subst enqueue_slot_queues(2)) (use assms(7,9) in auto)
qed (use assms in \<open>simp_all add: slot_release_def\<close>)

text \<open>Each operation keeps the queued VMs clean; \<open>pool_inv\<close> of the new pool is known from above.\<close>

lemma pool_emplace_clean:
  assumes c: "pool_clean view t main p" and inv': "pool_inv (pool_emplace p)"
  shows "pool_clean view t main (pool_emplace p)"
proof -
  have inv: "pool_inv p" using c by (simp add: pool_clean_def)
  have "pl_vms (pool_emplace p) ! i = pl_vms p ! i" if "i \<in> set (concat (pl_queues p))" for i
    using pool_inv_bound [OF inv in_pool_places(3) [OF that]] by (simp add: pool_emplace_def nth_append)
  with c inv' show ?thesis by (auto simp: pool_clean_def pool_emplace_def slot_mode_def)
qed

lemma pool_started_clean:
  assumes c: "pool_clean view t main p" and s: "pool_started V i p = Some p'" and inv': "pool_inv p'" and law: "vm_fork_law V view"
  shows "pool_clean view t main p'"
proof -
  have lq: "length (pl_queues p) = NUM_QUEUES" using c by (simp add: pool_clean_def pool_inv_def)
  have p': "p' = enqueue_slot 0 i (p\<lparr>pl_starting := remove1 i (pl_starting p),
      pl_vms := (pl_vms p)[i := (pl_vms p ! i)\<lparr>sl_mi := Some (machine_fork V t main)\<rparr>]\<rparr>)"
    using s c by (auto simp: pool_started_def pool_clean_def split: if_splits)
  show ?thesis
  proof (rule pool_cleanI [OF c inv'])
    show "pl_vms p' = (pl_vms p)[i := (pl_vms p ! i)\<lparr>sl_mi := Some (machine_fork V t main)\<rparr>]" by (simp add: p')
    show "set (concat (pl_queues p')) \<subseteq> insert i (set (concat (pl_queues p)))"
      unfolding p' by (subst enqueue_slot_queues(2)) (use lq in \<open>auto simp: NUM_QUEUES_def\<close>)
    show "slot_clean view main ((pl_vms p ! i)\<lparr>sl_mi := Some (machine_fork V t main)\<rparr>)"
      using machine_fork_fresh [OF law] by (simp add: slot_clean_def)
  qed (simp_all add: p' slot_mode_def)
qed

lemma reserve_vm_clean:
  assumes c: "pool_clean view t main p" and r: "reserve_vm node i ctx soft p = Some p'" and inv': "pool_inv p'"
  shows "pool_clean view t main p'"
proof -
  have inv: "pool_inv p" and lq: "length (pl_queues p) = NUM_QUEUES" using c by (simp_all add: pool_clean_def pool_inv_def)
  note p' = reserve_vmD(3) [OF r]
  have q: "i \<in> set (concat (pl_queues p))" by (rule reserve_vm_queued [OF inv r])
  have "i < length (pl_vms p)" using pool_inv_bound [OF inv in_pool_places(3) [OF q]] .
  note mode = slot_modeD [OF c this]
  have "i \<notin> set (concat (pl_queues p'))" using pool_inv_roles(7) [OF inv'] by (auto simp: p')
  moreover have "set (concat (pl_queues p')) \<subseteq> set (concat (pl_queues p))"
    using set_concat_remove1 [of node "pl_queues p" i] reserve_vmD(1) [OF r] lq by (simp add: p')
  ultimately show ?thesis
    using mode
    by (intro pool_cleanI [OF c inv', where i = i and s = "\<lparr>sl_mi = map_option
          (\<lambda>mi. mi\<lparr>mi_ctx := Some ctx, mi_soft_reset := soft\<rparr>) (sl_mi (pl_vms p ! i)), sl_prog_ref = True\<rparr>"])
      (auto simp: p' slot_mode_def)
qed

lemma pool_run_clean:
  assumes c: "pool_clean view t main p" and r: "pool_run i mi' p = Some p'" and inv': "pool_inv p'"
  shows "pool_clean view t main p'"
proof -
  have inv: "pool_inv p" using c by (simp add: pool_clean_def)
  obtain mi where i: "i \<in> set (pl_reserved p)" and mi: "sl_mi (pl_vms p ! i) = Some mi" "run_allowed t mi mi'"
    and p': "p' = p\<lparr>pl_vms := (pl_vms p)[i := (pl_vms p ! i)\<lparr>sl_mi := Some mi'\<rparr>]\<rparr>"
    using r c by (auto simp: pool_run_def pool_clean_def split: if_splits option.splits)
  have "i < length (pl_vms p)" using pool_inv_bound [OF inv in_pool_places(4) [OF i]] .
  note mode = slot_modeD [OF c this]
  have "i \<notin> set (concat (pl_queues p))" using pool_inv_roles(7) [OF inv] i by blast
  then show ?thesis
    using mode mi by (intro pool_cleanI [OF c inv', where i = i]) (auto simp: p' slot_mode_def run_allowed_def)
qed

lemma vm_free_clean:
  assumes c: "pool_clean view t main p" and f: "vm_free_function V node i p = Some p'" and inv': "pool_inv p'" and law: "vm_reset_law V view"
  shows "pool_clean view t main p'"
proof -
  have inv: "pool_inv p" using c by (simp add: pool_clean_def)
  from f have i: "i \<in> set (pl_reserved p)" and node: "node < NUM_QUEUES"
    by (auto simp: vm_free_function_def split: if_splits)
  have lt: "i < length (pl_vms p)" using pool_inv_bound [OF inv in_pool_places(4) [OF i]] .
  from f consider "p' = slot_release V node i (p\<lparr>pl_reserved := remove1 i (pl_reserved p)\<rparr>)"
    | "p' = p\<lparr>pl_reserved := remove1 i (pl_reserved p), pl_resetting := i # pl_resetting p\<rparr>"
    by (auto simp: vm_free_function_def split: if_splits option.splits)
  then show ?thesis
  proof cases
    case 1
    then show ?thesis using slot_release_clean [OF c law inv' [unfolded 1]] lt node by simp
  next
    case 2
    with c inv' show ?thesis by (simp add: pool_clean_def)
  qed
qed

lemma deferred_reset_clean:
  assumes c: "pool_clean view t main p" and r: "deferred_reset V node i p = Some p'" and inv': "pool_inv p'" and law: "vm_reset_law V view"
  shows "pool_clean view t main p'"
proof -
  have inv: "pool_inv p" using c by (simp add: pool_clean_def)
  have i: "i \<in> set (pl_resetting p)" and node: "node < NUM_QUEUES"
    and p': "p' = slot_release V node i (p\<lparr>pl_resetting := remove1 i (pl_resetting p)\<rparr>)"
    using r by (auto simp: deferred_reset_def split: if_splits)
  have "i < length (pl_vms p)" using pool_inv_bound [OF inv in_pool_places(5) [OF i]] .
  with slot_release_clean [OF c law inv' [unfolded p']] node p' show ?thesis by simp
qed

lemma pool_step_clean:
  assumes c: "pool_clean view t main p" and s: "pool_step V p a p'"
    and laws: "vm_fork_law V view" "vm_reset_law V view"
  shows "pool_clean view t main p'"
proof -
  have inv': "pool_inv p'" using pool_step_inv [OF _ s] c by (simp add: pool_clean_def)
  show ?thesis
  proof (cases a)
    case PEmplace
    with s pool_emplace_clean [OF c] inv' show ?thesis by (simp add: pool_step_def)
  next
    case (PStarted i)
    with s pool_started_clean [OF c _ inv' laws(1)] show ?thesis by (simp add: pool_step_def)
  next
    case (PReserve node i ctx soft)
    with s reserve_vm_clean [OF c _ inv'] show ?thesis by (simp add: pool_step_def)
  next
    case (PRun i mi')
    with s pool_run_clean [OF c _ inv'] show ?thesis by (simp add: pool_step_def)
  next
    case (PFree node i)
    with s vm_free_clean [OF c _ inv' laws(2)] show ?thesis by (simp add: pool_step_def)
  next
    case (PReset node i)
    with s deferred_reset_clean [OF c _ inv' laws(2)] show ?thesis by (simp add: pool_step_def)
  qed (use s c inv' in \<open>auto simp: pool_step_def pool_start_failed_def reserve_timeout_def pool_clean_def split: if_splits\<close>)
qed

lemma pool_reach_clean:
  assumes "run_steps (pool_step V) (pool_new t main) as p" and "vm_fork_law V view" "vm_reset_law V view"
  shows "pool_clean view t main p"
  using assms(1)
proof (rule run_steps_inv)
  show "pool_clean view t main (pool_new t main)"
    using pool_new_inv [of t main]
    by (simp add: pool_clean_def) (simp add: pool_new_def NUM_QUEUES_def)
qed (rule pool_step_clean [OF _ _ assms(2,3)])

section \<open>A concrete virtual machine\<close>

lemma vm_demo_laws: "vm_fork_law vm_demo id" "vm_reset_law vm_demo id"
  by (auto simp: vm_fork_law_def vm_reset_law_def vm_demo_def)

fun pool_execs :: "'m vm_ops \<Rightarrow> 'm pool \<Rightarrow> 'm paction list \<Rightarrow> 'm pool option" where
  "pool_execs V p [] = Some p"
| "pool_execs V p (a # as) = (case pool_exec V p a of None \<Rightarrow> None | Some p' \<Rightarrow> pool_execs V p' as)"

lemma pool_execs_run: "pool_execs V p as = Some p' \<Longrightarrow> run_steps (pool_step V) p as p'"
  by (induction as arbitrary: p) (auto intro: run_steps.intros simp: pool_step_def split: option.splits)

text \<open>The first VM serves a request that leaves its memory dirty, and is returned.\<close>

definition pool_demo_run :: "nat paction list" where
  "pool_demo_run = [PEmplace, PStarted 0, PReserve 0 0 1 False, PRun 0 (main_demo\<lparr>mi_vm := 99, mi_post_size := 8\<rparr>),
     PFree 0 0, PReset 0 0]"

lemma pool_demo_ok: "\<exists>p. pool_execs vm_demo (pool_new demo_conf main_demo) pool_demo_run = Some p"
proof -
  have "pool_execs vm_demo (pool_new demo_conf main_demo) pool_demo_run \<noteq> None" by code_simp
  then show ?thesis by auto
qed

section \<open>Properties\<close>





text \<open>
  A reset that fails goes unnoticed: when the library throws while resetting a VM, the VM is
  queued all the same, with the contents the failed reset left behind and with the flags that asked
  for a reset cleared, and the next request can receive it in that state.
\<close>

theorem failed_reset_is_queued:
  assumes inv: "pool_inv p" and i: "i \<in> set (pl_resetting p)" and node: "node < NUM_QUEUES"
    and mi: "sl_mi (pl_vms p ! i) = Some mi" "is_reset_needed mi"
    and thrown: "v_reset_to V (mi_vm mi) (mi_vm (pl_main p)) (machine_reset_options (pl_conf p) mi) = (bad, Inl ex)"
  shows "\<exists>p1 p2 mi2. deferred_reset V node i p = Some p1 \<and> reserve_vm node i ctx False p1 = Some p2 \<and>
    sl_mi (pl_vms p2 ! i) = Some mi2 \<and> mi_vm mi2 = bad \<and> \<not> mi_reset_needed mi2 \<and> \<not> mi_soft_reset mi2"
proof -
  let ?p0 = "p\<lparr>pl_resetting := remove1 i (pl_resetting p)\<rparr>"
  let ?m = "machine_reset_to V (pl_conf p) None (pl_main p) (fst (tail_reset mi))"
  let ?p1 = "slot_release V node i ?p0"
  have lt: "i < length (pl_vms p)" using pool_inv_bound [OF inv in_pool_places(5) [OF i]] .
  have n: "node < length (pl_queues p)" using inv node by (simp add: pool_inv_def)
  have d: "deferred_reset V node i p = Some ?p1" using i node by (simp add: deferred_reset_def)
  have opts: "machine_reset_options (pl_conf p) (fst (tail_reset mi)) = machine_reset_options (pl_conf p) mi"
    by (simp add: machine_reset_options_def tail_reset_def)
  have need: "is_reset_needed (fst (tail_reset mi))" using mi(2) by simp
  have vm: "mi_vm ?m = bad" by (simp add: machine_reset_to_fields(1) [OF need] opts thrown)
  have slot: "sl_mi (pl_vms ?p1 ! i) = Some ?m" using lt mi(1) by (simp add: slot_release_def)
  have q: "i \<in> set (pl_queues ?p1 ! node)" using n by (simp add: slot_release_def enqueue_slot_def)
  let ?s = "\<lparr>sl_mi = Some (?m\<lparr>mi_ctx := Some ctx, mi_soft_reset := False\<rparr>), sl_prog_ref = True\<rparr>"
  let ?p2 = "?p1\<lparr>pl_queues := (pl_queues ?p1)[node := remove1 i (pl_queues ?p1 ! node)],
      pl_reserved := i # pl_reserved ?p1, pl_vms := (pl_vms ?p1)[i := ?s]\<rparr>"
  have r: "reserve_vm node i ctx False ?p1 = Some ?p2"
    using q node slot by (simp add: reserve_vm_def)
  have "sl_mi (pl_vms ?p2 ! i) = Some (?m\<lparr>mi_ctx := Some ctx, mi_soft_reset := False\<rparr>)"
    using lt by (simp add: slot_release_def)
  with d r vm machine_reset_to_fields(5) [OF need] show ?thesis by fastforce
qed

text \<open>A virtual machine whose reset throws after writing 13 into it.\<close>

definition vm_bad :: "nat vm_ops" where
  "vm_bad = vm_demo\<lparr>v_reset_to := (\<lambda>m source opts. (13, Inl (MachineException ''reset'' 0)))\<rparr>"

definition pool_bad :: "nat pool" where
  "pool_bad = (pool_new demo_conf main_demo)\<lparr>pl_vms := [\<lparr>sl_mi = Some main_demo, sl_prog_ref = True\<rparr>], pl_resetting := [0]\<rparr>"

theorem failed_reset_is_queued_witness:
  "\<exists>p1 p2 mi2. deferred_reset vm_bad 0 0 pool_bad = Some p1 \<and> reserve_vm 0 0 5 False p1 = Some p2 \<and>
     sl_mi (pl_vms p2 ! 0) = Some mi2 \<and> mi_vm mi2 = 13"
proof -
  have "pool_inv pool_bad"
    by (simp add: pool_inv_def pool_bad_def pool_new_def pool_places_def slot_held_def NUM_QUEUES_def numeral_eq_Suc)
  moreover have "is_reset_needed main_demo" by code_simp
  ultimately have "\<exists>p1 p2 mi2. deferred_reset vm_bad 0 0 pool_bad = Some p1 \<and> reserve_vm 0 0 5 False p1 = Some p2 \<and>
    sl_mi (pl_vms p2 ! 0) = Some mi2 \<and> mi_vm mi2 = 13 \<and> \<not> mi_reset_needed mi2 \<and> \<not> mi_soft_reset mi2"
    by (intro failed_reset_is_queued [where mi = main_demo and ex = "MachineException ''reset'' 0"])
      (simp_all add: pool_bad_def NUM_QUEUES_def vm_bad_def)
  then show ?thesis by blast
qed

text \<open>Before the first reservation nothing reaches the queue of another node.\<close>

definition unused_node :: "nat \<Rightarrow> 'm pool \<Rightarrow> bool" where
  "unused_node node p \<longleftrightarrow> length (pl_queues p) = NUM_QUEUES \<and> pl_queues p ! node = [] \<and>
     pl_reserved p = [] \<and> pl_resetting p = []"

definition is_reserve :: "'m paction \<Rightarrow> bool" where
  "is_reserve a \<longleftrightarrow> (case a of PReserve _ _ _ _ \<Rightarrow> True | _ \<Rightarrow> False)"

lemma pool_step_unused:
  "\<lbrakk>pool_step V p a p'; \<not> is_reserve a; 0 < node; unused_node node p\<rbrakk> \<Longrightarrow> unused_node node p'"
  by (cases a)
    (auto simp: pool_step_def is_reserve_def unused_node_def pool_emplace_def pool_started_def enqueue_slot_def
      pool_start_failed_def reserve_timeout_def pool_run_def vm_free_function_def deferred_reset_def
      split: if_splits)

lemma run_steps_unused:
  "\<lbrakk>run_steps (pool_step V) p as p'; \<forall>a \<in> set as. \<not> is_reserve a; 0 < node; unused_node node p\<rbrakk> \<Longrightarrow> unused_node node p'"
  by (induction rule: run_steps.induct) (auto dest: pool_step_unused)

text \<open>
  Start-up fills only the first of the four queues, while a reservation waits on the queue of
  the NUMA node it runs on: as long as no VM has been used yet, a request that runs on another node
  finds nothing to reserve, however many VMs are idle, and can only run into the queue timeout.
\<close>

theorem startup_fills_one_queue:
  assumes run: "run_steps (pool_step V) (pool_new t main) as p"
    and startup: "\<forall>a \<in> set as. \<not> is_reserve a" and node: "0 < node" "node < NUM_QUEUES"
  shows "(\<forall>i ctx soft. reserve_vm node i ctx soft p = None) \<and>
    (\<exists>p'. reserve_timeout node p = Some (p', RuntimeError ''Queue timeout''))"
proof -
  have "unused_node node (pool_new t main)"
    using node(2) by (simp add: unused_node_def pool_new_def)
  from run_steps_unused [OF run startup node(1) this] node(2) show ?thesis
    by (simp add: unused_node_def reserve_vm_def reserve_timeout_def)
qed

theorem startup_fills_one_queue_witness:
  "\<exists>p. pool_execs vm_demo (pool_new demo_conf main_demo) [PEmplace, PEmplace, PStarted 0, PStarted 1] = Some p \<and>
     pl_queues p ! 0 = [0, 1] \<and> (\<forall>i ctx soft. reserve_vm 1 i ctx soft p = None)"
proof -
  let ?r = "pool_execs vm_demo (pool_new demo_conf main_demo) [PEmplace, PEmplace, PStarted 0, PStarted 1]"
  have "?r \<noteq> None" "pl_queues (the ?r) ! 0 = [0, 1]" by code_simp+
  then obtain p where p: "?r = Some p" "pl_queues p ! 0 = [0, 1]" by auto
  from startup_fills_one_queue [OF pool_execs_run [OF p(1)], of 1] p show ?thesis
    by (simp add: is_reserve_def NUM_QUEUES_def)
qed

end
