(* ===== verification/Program_Init.thy ===== *)
theory Program_Init
  imports Machine_Boot Program_Pool
begin

text \<open>
  Loading and starting a program (\<^verbatim>\<open>lib/libkvm/program_instance.cpp\<close>, \<^verbatim>\<open>archive.cpp\<close>, \<^verbatim>\<open>curl_fetch.cpp\<close>,
  \<^verbatim>\<open>tenant_instance.cpp\<close>): fetching and unpacking the binary, checksums, dependencies, the start of the
  storage VM, the main VM and the request VMs, and the mutex and flag that requests wait on. The file
  system is a map from the paths of readable files to their contents. Libcurl, libarchive and the
  digests are parameters.
\<close>

section \<open>State\<close>

text \<open>
  The surroundings: what libcurl and libarchive return, the digests, modification times, whether a
  directory can be made, how many bytes of a content a file takes (None: it cannot be opened), the ELF
  test, and the outcomes of starting threads, servers and forks.
\<close>

datatype archive_step = AEntry string nat "string res" | AError

record 'm init_env =
  ie_boot :: "tenant_conf \<Rightarrow> 'm boot_env"
  ie_ctx :: "nat option"
  ie_debug :: bool
  ie_sha256 :: "string \<Rightarrow> u8 list"
  ie_md5 :: "string \<Rightarrow> u8 list"
  ie_perform :: "string \<Rightarrow> string \<Rightarrow> (int \<times> string) option"
  ie_mtime :: "string \<Rightarrow> string option"
  ie_mkdir :: "string \<Rightarrow> bool"
  ie_write :: "string \<Rightarrow> string \<Rightarrow> nat option"
  ie_valid_elf :: "string \<Rightarrow> bool"
  ie_archive :: "string \<Rightarrow> archive_step list option"
  ie_start_address :: "'m \<Rightarrow> u64"
  ie_connect :: "'m \<Rightarrow> 'm \<Rightarrow> 'm res"
  ie_epoll :: "nat \<Rightarrow> exn option"
  ie_websocket :: "exn option"
  ie_thread :: "nat \<Rightarrow> bool"
  ie_fork :: "nat \<Rightarrow> bool"
  ie_vm :: "'m vm_ops"

text \<open>
  \<open>ProgramInstance\<close>. \<open>pg_storage\<close> is the storage binary when storage is configured. The last five are
  the mutex, whether it has been unlocked while it was not locked, \<open>m_initialization_complete\<close>, and the
  flags on where the binary came from.
\<close>

record 'm prog =
  pg_ten :: tenant_conf
  pg_fs :: "string \<rightharpoonup> string"
  pg_request :: string
  pg_storage :: "string option"
  pg_storage_vm :: "'m machine option"
  pg_main :: "'m machine option"
  pg_pool :: "'m pool option"
  pg_entries :: entries
  pg_servers :: "nat \<times> bool"
  pg_locked :: bool
  pg_unlocked_twice :: bool
  pg_complete :: int
  pg_local :: bool
  pg_cached :: bool

definition prog_new :: "tenant_conf \<Rightarrow> (string \<rightharpoonup> string) \<Rightarrow> 'm prog" where
  "prog_new ten fs = \<lparr>pg_ten = ten, pg_fs = fs, pg_request = [], pg_storage = None, pg_storage_vm = None, pg_main = None,
     pg_pool = None, pg_entries = entries_new, pg_servers = (0, False), pg_locked = False, pg_unlocked_twice = False,
     pg_complete = 0, pg_local = False, pg_cached = False\<rparr>"

definition unlock_and_initialized :: "bool \<Rightarrow> 'm prog \<Rightarrow> 'm prog" where
  "unlock_and_initialized success p =
     p\<lparr>pg_complete := (if success then 1 else -1), pg_unlocked_twice := (pg_unlocked_twice p \<or> \<not> pg_locked p), pg_locked := False\<rparr>"

text \<open>\<open>wait_for_main_vm\<close>: None is that the caller blocks on the mutex.\<close>

definition wait_for_main_vm :: "'m prog \<Rightarrow> bool option" where
  "wait_for_main_vm p =
     (if pg_complete p \<noteq> 0 then Some (pg_complete p > 0) else if pg_locked p then None else Some (pg_complete p > 0))"

text \<open>\<open>wait_for_initialization\<close>, with the value or exception of the future, if there is one.\<close>

definition wait_for_initialization :: "int res option \<Rightarrow> 'm prog \<Rightarrow> int res option" where
  "wait_for_initialization fut p =
     (if pg_locked p then None
      else case fut of
        None \<Rightarrow> Some (Inr 0)
      | Some (Inl e) \<Rightarrow> Some (Inl e)
      | Some (Inr code) \<Rightarrow>
          (case pg_main p of
             None \<Rightarrow> Some (Inl (RuntimeError ''The program failed to initialize. Check logs for crash?''))
           | Some mi \<Rightarrow>
               if \<not> mi_waiting mi
               then Some (Inl (RuntimeError ''The main program was not waiting for requests. Did you forget to call 'wait_for_requests()'?''))
               else Some (Inr code)))"

section \<open>Files and checksums\<close>

definition file_loader :: "(string \<rightharpoonup> string) \<Rightarrow> string \<Rightarrow> string res" where
  "file_loader fs path = (case fs path of None \<Rightarrow> Inl (RuntimeError (''Could not open file: '' @ path)) | Some c \<Rightarrow> Inr c)"

text \<open>\<open>create_directories\<close> throws. A write that stops early leaves what it has written.\<close>

definition file_writer :: "'m init_env \<Rightarrow> string \<Rightarrow> string \<Rightarrow> (string \<rightharpoonup> string) \<Rightarrow> (string \<rightharpoonup> string) \<times> bool res" where
  "file_writer E path content fs =
     (if \<not> ie_mkdir E path then (fs, Inl (RuntimeError ''cannot create directories''))
      else case ie_write E path content of
        None \<Rightarrow> (fs, Inr False)
      | Some n \<Rightarrow> (fs(path \<mapsto> take n content), Inr (n \<ge> length content)))"

definition hex_lut :: string where
  "hex_lut = ''0123456789abcdef''"

definition hex_byte :: "u8 \<Rightarrow> string" where
  "hex_byte b = [hex_lut ! unat (and (drop_bit 4 b) 0xF), hex_lut ! unat (and b 0xF)]"

definition hash_hex :: "u8 list \<Rightarrow> string" where
  "hash_hex hash = concat (map hex_byte hash)"

text \<open>A file of no bytes cannot be mapped.\<close>

definition create_sha256_from_file :: "'m init_env \<Rightarrow> (string \<rightharpoonup> string) \<Rightarrow> string \<Rightarrow> string res" where
  "create_sha256_from_file E fs path =
     (case fs path of
        None \<Rightarrow> Inl (RuntimeError (''Could not open file for SHA256: '' @ path))
      | Some c \<Rightarrow>
          if c = [] then Inl (RuntimeError (''Could not mmap file for SHA256: '' @ path)) else Inr (hash_hex (ie_sha256 E c)))"

definition create_md5_from_file :: "'m init_env \<Rightarrow> (string \<rightharpoonup> string) \<Rightarrow> string \<Rightarrow> string res" where
  "create_md5_from_file E fs path =
     (case fs path of
        None \<Rightarrow> Inl (RuntimeError (''Could not open file for MD5: '' @ path))
      | Some c \<Rightarrow>
          if c = [] then Inl (RuntimeError (''Could not mmap file for MD5: '' @ path)) else Inr (hash_hex (ie_md5 E c)))"

section \<open>Fetching\<close>

text \<open>
  \<open>kvm_curl_fetch\<close>: \<open>ie_perform\<close> is what libcurl makes of a URL and a header, with the status of a
  HTTP response. The callback works on a state, and its exceptions are caught.
\<close>

definition kvm_curl_fetch :: "'m init_env \<Rightarrow> string \<Rightarrow> string \<Rightarrow> (int \<Rightarrow> string \<Rightarrow> 's stmt) \<Rightarrow> 's \<Rightarrow> 's \<times> int" where
  "kvm_curl_fetch E url condhdr callback s =
     (if length url < 8 then (s, -1)
      else
        let is_http = (take 4 url = ''http'') in
        case ie_perform E url (if is_http then condhdr else []) of
          None \<Rightarrow> (s, -1)
        | Some (code, body) \<Rightarrow>
            (case callback (if is_http then code else 200) body s of
               (s, None) \<Rightarrow> (s, 0)
             | (s, Some e) \<Rightarrow> (s, -1)))"

definition fetch_failed :: "string \<Rightarrow> string \<Rightarrow> exn" where
  "fetch_failed name uri = RuntimeError (''Fetching program '' @ [CHR 0x27] @ name @ [CHR 0x27] @ '' failed. URL: '' @ uri)"

definition if_modified_since :: "'m init_env \<Rightarrow> string \<Rightarrow> string" where
  "if_modified_since E path = (case ie_mtime E path of None \<Rightarrow> [] | Some time \<Rightarrow> ''If-Modified-Since: '' @ time)"

definition kvm_curl_fetch_into_file :: "'m init_env \<Rightarrow> string \<Rightarrow> string \<Rightarrow> (string \<rightharpoonup> string) \<Rightarrow> (string \<rightharpoonup> string) \<times> int" where
  "kvm_curl_fetch_into_file E url path fs =
     kvm_curl_fetch E url (if_modified_since E path)
       (\<lambda>status body fs.
          if status = 304 then (fs, None)
          else if status = 200 then
            (case ie_write E path body of
               None \<Rightarrow> (fs, Some (RuntimeError (''Failed to open file for writing: '' @ path)))
             | Some n \<Rightarrow>
                 (fs(path \<mapsto> take n body),
                  if n < length body then Some (RuntimeError (''Failed to write to file: '' @ path)) else None))
          else (fs, Some (fetch_failed path url))) fs"

text \<open>
  \<open>download_dependencies\<close>: a file that has the expected checksum is kept, anything else is fetched on a
  thread of its own. Each thread writes only its own file, so they are taken one after another. None
  is the end of the process: an exception leaves such a thread, or it leaves the function while
  threads have been started and not been joined.
\<close>

definition download_needed :: "'m init_env \<Rightarrow> (string \<rightharpoonup> string) \<Rightarrow> download_item \<Rightarrow> bool res" where
  "download_needed E fs d =
     (if d_sha256 d \<noteq> [] \<and> fs (d_filepath d) \<noteq> None
      then bind_res (create_sha256_from_file E fs (d_filepath d)) (\<lambda>h. Inr (h \<noteq> d_sha256 d))
      else if d_md5 d \<noteq> [] \<and> fs (d_filepath d) \<noteq> None
      then bind_res (create_md5_from_file E fs (d_filepath d)) (\<lambda>h. Inr (h \<noteq> d_md5 d))
      else Inr True)"

definition download_thread :: "'m init_env \<Rightarrow> download_item \<Rightarrow> (string \<rightharpoonup> string) \<Rightarrow> (string \<rightharpoonup> string) option" where
  "download_thread E d fs =
     (let fs = fst (kvm_curl_fetch_into_file E (d_uri d) (d_filepath d) fs) in
      if d_sha256 d = [] then Some fs
      else case create_sha256_from_file E fs (d_filepath d) of Inl e \<Rightarrow> None | Inr h \<Rightarrow> Some fs)"

fun download_loop :: "'m init_env \<Rightarrow> bool \<Rightarrow> download_item list \<Rightarrow> (string \<rightharpoonup> string) \<Rightarrow> ((string \<rightharpoonup> string) \<times> exn option) option" where
  "download_loop E started [] fs = Some (fs, None)"
| "download_loop E started (d # ds) fs =
     (if \<not> ie_mkdir E (d_filepath d)
      then (if started then None else Some (fs, Some (RuntimeError ''cannot create directories'')))
      else case download_needed E fs d of
        Inl e \<Rightarrow> if started then None else Some (fs, Some e)
      | Inr False \<Rightarrow> download_loop E started ds fs
      | Inr True \<Rightarrow> (case download_thread E d fs of None \<Rightarrow> None | Some fs \<Rightarrow> download_loop E True ds fs))"

definition download_dependencies :: "'m init_env \<Rightarrow> download_item list \<Rightarrow> (string \<rightharpoonup> string) \<Rightarrow> ((string \<rightharpoonup> string) \<times> exn option) option" where
  "download_dependencies E ds fs = download_loop E False ds fs"

section \<open>Unpacking\<close>

definition ends_with :: "string \<Rightarrow> string \<Rightarrow> bool" where
  "ends_with str ending \<longleftrightarrow> length ending \<le> length str \<and> drop (length str - length ending) str = ending"

text \<open>The loop over the entries of an archive.\<close>

fun extract_entries :: "archive_step list \<Rightarrow> 'm prog stmt" where
  "extract_entries [] p = (p, None)"
| "extract_entries (AError # as) p = (p, Some (RuntimeError ''Archive *entry* not OK''))"
| "extract_entries (AEntry name bytes content # as) p =
     (if bytes = 0 then extract_entries as p
      else if ends_with name ''storage'' then
        (if pg_storage p \<noteq> None
         then (case content of Inl e \<Rightarrow> (p, Some e) | Inr c \<Rightarrow> extract_entries as (p\<lparr>pg_storage := Some c\<rparr>))
         else extract_entries as p)
      else if pg_request p \<noteq> [] then (p, Some (RuntimeError ''Confusing archive with more than one request program''))
      else (case content of Inl e \<Rightarrow> (p, Some e) | Inr c \<Rightarrow> extract_entries as (p\<lparr>pg_request := c\<rparr>)))"

definition extract_programs_to :: "'m init_env \<Rightarrow> string \<Rightarrow> 'm prog stmt" where
  "extract_programs_to E chunk p =
     (if length chunk < 64 then (p, Some (RuntimeError ''Binary or archive was too small (< 64 bytes)''))
      else if ie_valid_elf E chunk then
        (p\<lparr>pg_request := chunk, pg_storage := (if pg_storage p \<noteq> None then Some chunk else None)\<rparr>, None)
      else case ie_archive E chunk of
        None \<Rightarrow> (p, Some (RuntimeError ''Could not decipher the program type, neither archive nor binary''))
      | Some steps \<Rightarrow>
          stmt_seq (extract_entries steps)
            (stmt_upd (\<lambda>p. if pg_storage p = Some [] then p\<lparr>pg_storage := Some (pg_request p)\<rparr> else p)) p)"

section \<open>Starting\<close>

text \<open>Statements that may not end: None is that they do not.\<close>

definition oseq :: "('s \<Rightarrow> ('s \<times> exn option) option) \<Rightarrow> ('s \<Rightarrow> ('s \<times> exn option) option) \<Rightarrow> 's \<Rightarrow> ('s \<times> exn option) option" where
  "oseq a b s = (case a s of None \<Rightarrow> None | Some (s, Some e) \<Rightarrow> Some (s, Some e) | Some (s, None) \<Rightarrow> b s)"

definition olift :: "'s stmt \<Rightarrow> 's \<Rightarrow> ('s \<times> exn option) option" where
  "olift a s = Some (a s)"

text \<open>What running a machine through its start-up leaves of it: the machine, the entries and the exception.\<close>

definition bstate_init :: "'m machine \<Rightarrow> 'm bstate" where
  "bstate_init mi = \<lparr>bs_mi = mi, bs_http = \<lparr>hc_bo = False, hc_bereq = None, hc_beresp = None, hc_req = None, hc_resp = None\<rparr>,
     bs_result = error_result, bs_cache = None, bs_program_status = [], bs_stack = 0, bs_inputs = binputs_zero\<rparr>"

definition boot_program :: "'m init_env \<Rightarrow> string \<Rightarrow> 'm machine \<Rightarrow> 'm prog \<Rightarrow> ('m machine \<times> entries \<times> exn option) option" where
  "boot_program E binary mi p =
     map_option (\<lambda>((s, es), e). (bs_mi s, es, e)) (machine_initialize (ie_boot E (pg_ten p)) binary (bstate_init mi, pg_entries p))"

definition init_storage :: "'m init_env \<Rightarrow> 'm prog \<Rightarrow> ('m prog \<times> exn option) option" where
  "init_storage E p =
     (case pg_storage p of
        None \<Rightarrow> Some (p, None)
      | Some binary \<Rightarrow>
          (case machine_new (ie_boot E (pg_ten p)) binary (ie_ctx E) True (ie_debug E) of
             Inl e \<Rightarrow> Some (p, Some e)
           | Inr mi \<Rightarrow>
               (case boot_program E binary mi p of
                  None \<Rightarrow> None
                | Some (mi, es, Some e) \<Rightarrow> Some (p\<lparr>pg_storage_vm := Some mi, pg_entries := es\<rparr>, Some e)
                | Some (mi, es, None) \<Rightarrow> Some (p\<lparr>pg_storage_vm := Some (mi\<lparr>mi_ctx := None\<rparr>), pg_entries := es\<rparr>, None))))"

text \<open>The main VM is connected to a storage VM above the first gigabyte before it runs.\<close>

definition connect_storage :: "'m init_env \<Rightarrow> 'm machine \<Rightarrow> 'm prog \<Rightarrow> 'm machine res" where
  "connect_storage E mi p =
     (case pg_storage_vm p of
        None \<Rightarrow> Inr mi
      | Some st \<Rightarrow>
          if drop_bit 30 (ie_start_address E (mi_vm st)) > 0
          then bind_res (ie_connect E (mi_vm st) (mi_vm mi)) (\<lambda>vm. Inr (mi\<lparr>mi_vm := vm\<rparr>))
          else Inr mi)"

definition init_main :: "'m init_env \<Rightarrow> 'm prog \<Rightarrow> ('m prog \<times> exn option) option" where
  "init_main E p =
     (case bind_res (machine_new (ie_boot E (pg_ten p)) (pg_request p) (ie_ctx E) False (ie_debug E)) (\<lambda>mi. connect_storage E mi p) of
        Inl e \<Rightarrow> Some (p, Some e)
      | Inr mi \<Rightarrow>
          (case boot_program E (pg_request p) mi p of
             None \<Rightarrow> None
           | Some (mi, es, Some e) \<Rightarrow> Some (p\<lparr>pg_main := Some mi, pg_entries := es\<rparr>, Some e)
           | Some (mi, es, None) \<Rightarrow> Some (p\<lparr>pg_main := Some (mi\<lparr>mi_ctx := None\<rparr>), pg_entries := es\<rparr>, None)))"

fun start_epoll :: "'m init_env \<Rightarrow> nat \<Rightarrow> nat \<Rightarrow> 'm prog stmt" where
  "start_epoll E 0 i p = (p, None)"
| "start_epoll E (Suc n) i p =
     (case ie_epoll E i of Some e \<Rightarrow> (p, Some e) | None \<Rightarrow> start_epoll E n (Suc i) (p\<lparr>pg_servers := (Suc i, snd (pg_servers p))\<rparr>))"

definition start_servers :: "'m init_env \<Rightarrow> 'm prog stmt" where
  "start_servers E p =
     (let g = t_group (pg_ten p) in
      stmt_seq (\<lambda>p. if has_epoll_system g then start_epoll E (unat (g_epoll_systems g)) 0 p else (p, None))
        (\<lambda>p. if has_websocket_system g
             then (case ie_websocket E of Some e \<Rightarrow> (p, Some e) | None \<Rightarrow> (p\<lparr>pg_servers := (fst (pg_servers p), True)\<rparr>, None))
             else (p, None)) p)"

text \<open>
  The first request VM has to start; the others are created, and those that start are queued. The
  main VM is there at this point.
\<close>

definition start_first_vm :: "'m init_env \<Rightarrow> 'm prog stmt" where
  "start_first_vm E p =
     (case pg_main p of
        None \<Rightarrow> (p, Some (RuntimeError ''No main VM''))
      | Some mi \<Rightarrow>
          if \<not> ie_thread E 0 then (p, Some (RuntimeError ''Unable to create thread''))
          else
            let pool = pool_emplace (pool_new (pg_ten p) mi) in
            (case (if ie_fork E 0 then pool_started (ie_vm E) 0 pool else None) of
               None \<Rightarrow> (p\<lparr>pg_pool := Some pool\<rparr>, Some (RuntimeError ''Unable to fork VM''))
             | Some pool \<Rightarrow> (p\<lparr>pg_pool := Some pool\<rparr>, None)))"

fun emplace_vms :: "'m init_env \<Rightarrow> nat list \<Rightarrow> 'm pool \<Rightarrow> 'm pool \<times> bool" where
  "emplace_vms E [] pool = (pool, True)"
| "emplace_vms E (i # is) pool = (if ie_thread E i then emplace_vms E is (pool_emplace pool) else (pool, False))"

fun await_vms :: "'m init_env \<Rightarrow> nat list \<Rightarrow> 'm pool \<Rightarrow> 'm pool" where
  "await_vms E [] pool = pool"
| "await_vms E (i # is) pool =
     (case (if ie_fork E i then pool_started (ie_vm E) i pool else pool_start_failed i pool) of
        None \<Rightarrow> await_vms E is pool
      | Some pool \<Rightarrow> await_vms E is pool)"

definition start_more_vms :: "'m init_env \<Rightarrow> 'm prog stmt" where
  "start_more_vms E p =
     (case pg_pool p of
        None \<Rightarrow> (p, None)
      | Some pool \<Rightarrow>
          (case emplace_vms E [1..<unat (g_max_concurrency (t_group (pg_ten p)))] pool of
             (pool, False) \<Rightarrow> (p\<lparr>pg_pool := Some pool\<rparr>, Some (RuntimeError ''Unable to create thread''))
           | (pool, True) \<Rightarrow> (p\<lparr>pg_pool := Some (await_vms E [1..<length (pl_vms pool)] pool)\<rparr>, None)))"

definition init_downloads :: "'m init_env \<Rightarrow> 'm prog \<Rightarrow> ('m prog \<times> exn option) option" where
  "init_downloads E p =
     (case download_dependencies E (g_downloads (t_group (pg_ten p))) (pg_fs p) of
        None \<Rightarrow> None | Some (fs, e) \<Rightarrow> Some (p\<lparr>pg_fs := fs\<rparr>, e))"

text \<open>The body of the \<open>try\<close>, and the whole function. None is a start-up that does not end or ends the process.\<close>

definition begin_initialization_body :: "'m init_env \<Rightarrow> 'm prog \<Rightarrow> ('m prog \<times> exn option) option" where
  "begin_initialization_body E =
     oseq (olift (stmt_throw_if (\<lambda>p. g_max_concurrency (t_group (pg_ten p)) < 1) (RuntimeError ''Concurrency must be at least 1'')))
    (oseq (init_downloads E)
    (oseq (init_storage E)
    (oseq (init_main E)
    (oseq (olift (start_servers E))
    (oseq (olift (start_first_vm E))
    (oseq (olift (stmt_upd (unlock_and_initialized True)))
       (olift (start_more_vms E))))))))"

definition init_failed :: "'m prog \<Rightarrow> 'm prog" where
  "init_failed p = unlock_and_initialized False (p\<lparr>pg_main := None, pg_storage := None, pg_storage_vm := None\<rparr>)"

definition begin_initialization :: "'m init_env \<Rightarrow> 'm prog \<Rightarrow> ('m prog \<times> exn option) option" where
  "begin_initialization E p =
     (case begin_initialization_body E p of
        None \<Rightarrow> None
      | Some (p, None) \<Rightarrow> Some (p, None)
      | Some (p, Some e) \<Rightarrow> Some (init_failed p, Some e))"

section \<open>The constructors\<close>

text \<open>The constructor for a local program, and the task it queues.\<close>

definition program_local :: "tenant_conf \<Rightarrow> (string \<rightharpoonup> string) \<Rightarrow> string \<Rightarrow> string \<Rightarrow> 'm prog" where
  "program_local ten fs request_elf storage_elf =
     (prog_new (allow_own_binary ten) fs)
       \<lparr>pg_request := request_elf,
        pg_storage := (if g_has_storage (t_group ten) then Some (if storage_elf = [] then request_elf else storage_elf) else None),
        pg_locked := True, pg_local := True, pg_cached := False\<rparr>"

definition local_task :: "'m init_env \<Rightarrow> 'm prog \<Rightarrow> ('m prog \<times> int res) option" where
  "local_task E p =
     map_option (\<lambda>(p, e). (p, case e of None \<Rightarrow> Inr 0 | Some e \<Rightarrow> Inl e)) (begin_initialization E p)"

text \<open>The constructor for a remote program, and the callback for the response to the fetch.\<close>

definition program_uri :: "tenant_conf \<Rightarrow> (string \<rightharpoonup> string) \<Rightarrow> 'm prog" where
  "program_uri ten fs =
     (prog_new ten fs)\<lparr>pg_storage := (if g_has_storage (t_group ten) then Some [] else None), pg_locked := True, pg_local := False\<rparr>"

definition mmap_file :: "(string \<rightharpoonup> string) \<Rightarrow> string \<Rightarrow> string res" where
  "mmap_file fs path =
     (if path = [] then Inl (InvalidArgument ''Filename cannot be empty'')
      else case fs path of
        None \<Rightarrow> Inl (RuntimeError (''File does not exist: '' @ path))
      | Some c \<Rightarrow> if c = [] then Inl (RuntimeError (''Failed to mmap file: '' @ path)) else Inr c)"

definition load_from_disk :: "'m prog stmt" where
  "load_from_disk p =
     (case mmap_file (pg_fs p) (request_program_filename (pg_ten p)) of
        Inl e \<Rightarrow> (p, Some e)
      | Inr c \<Rightarrow>
          let p = p\<lparr>pg_request := c\<rparr> in
          if pg_storage p = None then (p, None)
          else if pg_fs p (storage_program_filename (pg_ten p)) = None then (p\<lparr>pg_storage := Some c\<rparr>, None)
          else (case mmap_file (pg_fs p) (storage_program_filename (pg_ten p)) of
                  Inl e \<Rightarrow> (p, Some e)
                | Inr st \<Rightarrow> (p\<lparr>pg_storage := Some st\<rparr>, None)))"

definition uri_callback :: "'m init_env \<Rightarrow> string \<Rightarrow> int \<Rightarrow> string \<Rightarrow> ('m prog \<times> int) stmt" where
  "uri_callback E uri status chunk s =
     (case (if status = 304 then load_from_disk (fst s)
            else if status = 200 then extract_programs_to E chunk (fst s)
            else (fst s, Some (fetch_failed (t_name (pg_ten (fst s))) uri))) of
        (p, e) \<Rightarrow> ((p, status), e))"

text \<open>A remote program is written to disk and read back from there.\<close>

definition store_storage_binary :: "'m init_env \<Rightarrow> 'm prog stmt" where
  "store_storage_binary E p =
     (case pg_storage p of
        None \<Rightarrow> (p, None)
      | Some st \<Rightarrow>
          if st = [] then (p, None)
          else (case file_writer E (storage_program_filename (pg_ten p)) st (pg_fs p) of
                  (fs, Inl e) \<Rightarrow> (p\<lparr>pg_fs := fs\<rparr>, Some e)
                | (fs, Inr ok) \<Rightarrow> (p\<lparr>pg_fs := fs\<rparr>, None)))"

definition store_binary :: "'m init_env \<Rightarrow> 'm prog stmt" where
  "store_binary E p =
     (case file_writer E (request_program_filename (pg_ten p)) (pg_request p) (pg_fs p) of
        (fs, Inl e) \<Rightarrow> (p\<lparr>pg_fs := fs\<rparr>, Some e)
      | (fs, Inr ok) \<Rightarrow>
          (case mmap_file fs (request_program_filename (pg_ten p)) of
             Inl e \<Rightarrow> (p\<lparr>pg_fs := fs\<rparr>, Some e)
           | Inr c \<Rightarrow> store_storage_binary E (p\<lparr>pg_fs := fs, pg_request := c\<rparr>)))"

definition uri_failed :: "'m prog \<Rightarrow> 'm prog" where
  "uri_failed p = unlock_and_initialized False (p\<lparr>pg_request := [], pg_main := None, pg_storage := None, pg_storage_vm := None\<rparr>)"

definition uri_body :: "'m init_env \<Rightarrow> string \<Rightarrow> string \<Rightarrow> 'm prog \<Rightarrow> ('m prog \<times> int res) option" where
  "uri_body E uri ifmodsince p =
     (if length uri < 5 then Some (p, Inl (RuntimeError ''Invalid URI (too short)''))
      else case kvm_curl_fetch E uri ifmodsince (uri_callback E uri) (p, 0) of
        ((p, status), res) \<Rightarrow>
          if res \<noteq> 0 then Some (uri_failed p, Inr (- 1))
          else
            let cached = (status = 304);
                p = p\<lparr>pg_cached := cached, pg_local := (cached \<or> take 4 uri = ''file'')\<rparr>;
                (p, e) = (if \<not> pg_local p \<and> status = 200 \<and> t_filename (pg_ten p) \<noteq> [] then store_binary E p else (p, None))
            in case e of
                 Some e \<Rightarrow> Some (p, Inl e)
               | None \<Rightarrow> map_option (\<lambda>(p, e). (p, case e of None \<Rightarrow> Inr 0 | Some e \<Rightarrow> Inl e)) (begin_initialization E p))"

definition uri_task :: "'m init_env \<Rightarrow> string \<Rightarrow> string \<Rightarrow> 'm prog \<Rightarrow> ('m prog \<times> int res) option" where
  "uri_task E uri ifmodsince p =
     (case uri_body E uri ifmodsince p of
        None \<Rightarrow> None
      | Some (p, Inr code) \<Rightarrow> Some (p, Inr code)
      | Some (p, Inl e) \<Rightarrow> Some (uri_failed p, Inr (- 1)))"

section \<open>Lemmas\<close>

lemma oseq_Some:
  "oseq a b s = Some (s', e) \<Longrightarrow>
     (\<exists>x. a s = Some (s', Some x) \<and> e = Some x) \<or> (\<exists>s1. a s = Some (s1, None) \<and> b s1 = Some (s', e))"
  by (auto simp: oseq_def split: option.splits prod.splits)

text \<open>What most parts of the start-up do not touch: the mutex, the flag, the configuration and the binary.\<close>

definition gate :: "'m prog \<Rightarrow> bool \<times> bool \<times> int \<times> tenant_conf \<times> string" where
  "gate p = (pg_locked p, pg_unlocked_twice p, pg_complete p, pg_ten p, pg_request p)"

lemma gate_init_downloads: "init_downloads E p = Some (p', e) \<Longrightarrow> gate p' = gate p"
  by (auto simp: init_downloads_def gate_def split: option.splits prod.splits)

lemma gate_init_storage: "init_storage E p = Some (p', e) \<Longrightarrow> gate p' = gate p"
  by (auto simp: init_storage_def gate_def split: option.splits prod.splits sum.splits)

lemma gate_init_main: "init_main E p = Some (p', e) \<Longrightarrow> gate p' = gate p"
  by (auto simp: init_main_def gate_def split: option.splits prod.splits sum.splits)

lemma gate_start_epoll: "start_epoll E n i p = (p', e) \<Longrightarrow> gate p' = gate p \<and> pg_main p' = pg_main p"
  by (induction E n i p rule: start_epoll.induct) (auto simp: gate_def split: option.splits)

lemma gate_start_servers: "start_servers E p = (p', e) \<Longrightarrow> gate p' = gate p \<and> pg_main p' = pg_main p"
  by (auto simp: start_servers_def Let_def stmt_seq_def split: if_splits option.splits prod.splits dest!: gate_start_epoll)
    (auto simp: gate_def)

lemma gate_start_first: "start_first_vm E p = (p', e) \<Longrightarrow> gate p' = gate p \<and> pg_main p' = pg_main p"
  by (auto simp: start_first_vm_def gate_def Let_def split: option.splits if_splits)

lemma gate_start_more: "start_more_vms E p = (p', e) \<Longrightarrow> gate p' = gate p \<and> pg_main p' = pg_main p"
  by (auto simp: start_more_vms_def gate_def split: option.splits prod.splits bool.splits)

subsection \<open>The pool that is started\<close>

definition serving :: "'m pool \<Rightarrow> bool" where
  "serving pool \<longleftrightarrow> pool_inv pool \<and> 0 \<in> set (concat (pl_queues pool))"

lemma enqueue_queued:
  assumes "node < length (pl_queues p)"
  shows "set (concat (pl_queues (enqueue_slot node j p))) = insert j (set (concat (pl_queues p)))"
proof -
  have "set (concat (pl_queues p)) = set (concat (take node (pl_queues p) @ pl_queues p ! node # drop (Suc node) (pl_queues p)))"
    using id_take_nth_drop [OF assms] by simp
  then show ?thesis
    by (auto simp: enqueue_slot_def upd_conv_take_nth_drop [OF assms])
qed

lemma serving_started:
  assumes "pool_inv p" and "pool_started V i p = Some p'"
  shows "pool_inv p' \<and> set (concat (pl_queues p')) = insert i (set (concat (pl_queues p))) \<and> length (pl_vms p') = length (pl_vms p)"
proof -
  have "length (pl_queues p) = NUM_QUEUES" using assms(1) by (simp add: pool_inv_def)
  then have "0 < length (pl_queues p)" by (simp add: NUM_QUEUES_def)
  with pool_started_inv [OF assms] assms(2) enqueue_queued [of 0 "p\<lparr>pl_starting := remove1 i (pl_starting p),
      pl_vms := (pl_vms p)[i := (pl_vms p ! i)\<lparr>sl_mi := Some (machine_fork V (pl_conf p) (pl_main p))\<rparr>]\<rparr>" i]
  show ?thesis by (auto simp: pool_started_def enqueue_slot_def split: if_splits)
qed

lemma serving_emplace: "serving p \<Longrightarrow> serving (pool_emplace p)"
  using pool_emplace_inv by (auto simp: serving_def pool_emplace_def)

lemma serving_await: "serving pool \<Longrightarrow> serving (await_vms E is pool) \<and> length (pl_vms (await_vms E is pool)) = length (pl_vms pool)"
proof (induction "is" arbitrary: pool)
  case (Cons i "is")
  have started: "serving q \<and> length (pl_vms q) = length (pl_vms pool)" if "pool_started (ie_vm E) i pool = Some q" for q
    using serving_started [OF _ that] Cons.prems by (auto simp: serving_def)
  have failed: "serving q \<and> length (pl_vms q) = length (pl_vms pool)" if "pool_start_failed i pool = Some q" for q
    using pool_start_failed_inv [OF _ that] that Cons.prems by (auto simp: serving_def pool_start_failed_def split: if_splits)
  show ?case
  proof (cases "if ie_fork E i then pool_started (ie_vm E) i pool else pool_start_failed i pool")
    case None
    with Cons show ?thesis by simp
  next
    case (Some q)
    with started failed have "serving q" "length (pl_vms q) = length (pl_vms pool)" by (auto split: if_splits)
    with Cons.IH Some show ?thesis by simp
  qed
qed simp

lemma serving_emplace_vms:
  "emplace_vms E is pool = (q, True) \<Longrightarrow> serving pool \<Longrightarrow> serving q \<and> length (pl_vms q) = length (pl_vms pool) + length is"
proof (induction "is" arbitrary: pool)
  case (Cons i "is")
  then have "serving (pool_emplace pool)" and "emplace_vms E is (pool_emplace pool) = (q, True)"
    by (auto intro: serving_emplace split: if_splits)
  from Cons.IH [OF this(2,1)] show ?case by (simp add: pool_emplace_def)
qed simp

lemma start_first_serving:
  assumes "start_first_vm E p = (p', None)"
  shows "\<exists>pool. pg_pool p' = Some pool \<and> serving pool \<and> length (pl_vms pool) = 1 \<and> pg_ten p' = pg_ten p \<and> pg_main p' = Some (pl_main pool)"
proof -
  from assms obtain mi q where mi: "pg_main p = Some mi" and q: "pool_started (ie_vm E) 0 (pool_emplace (pool_new (pg_ten p) mi)) = Some q"
    and p': "p' = p\<lparr>pg_pool := Some q\<rparr>"
    by (auto simp: start_first_vm_def Let_def split: option.splits if_splits)
  have "pl_main q = mi"
    using q by (auto simp: pool_started_def pool_emplace_def pool_new_def enqueue_slot_def split: if_splits)
  moreover have "length (pl_vms (pool_emplace (pool_new (pg_ten p) mi))) = 1" by (simp add: pool_emplace_def pool_new_def)
  moreover note serving_started [OF pool_emplace_inv [OF pool_new_inv] q]
  ultimately show ?thesis using mi p' by (auto simp: serving_def)
qed

lemma start_more_serving:
  assumes "start_more_vms E p = (p', None)" and "pg_pool p = Some pool" and "serving pool" and "length (pl_vms pool) = 1"
    and "g_max_concurrency (t_group (pg_ten p)) \<ge> 1"
  shows "\<exists>q. pg_pool p' = Some q \<and> serving q \<and> length (pl_vms q) = unat (g_max_concurrency (t_group (pg_ten p)))"
proof -
  let ?n = "unat (g_max_concurrency (t_group (pg_ten p)))"
  from assms(5) have n: "1 \<le> ?n" by (simp add: word_le_nat_alt)
  from assms(1,2) obtain q where q: "emplace_vms E [1..<?n] pool = (q, True)"
    and p': "p' = p\<lparr>pg_pool := Some (await_vms E [1..<length (pl_vms q)] q)\<rparr>"
    by (auto simp: start_more_vms_def split: prod.splits bool.splits)
  from serving_emplace_vms [OF q assms(3)] serving_await [of q E "[1..<length (pl_vms q)]"] n assms(4) p' show ?thesis by simp
qed

subsection \<open>The whole start-up\<close>

text \<open>The start-up up to the moment requests are let in leaves mutex and flag alone.\<close>

definition before_serving :: "'m init_env \<Rightarrow> 'm prog \<Rightarrow> ('m prog \<times> exn option) option" where
  "before_serving E =
     oseq (olift (stmt_throw_if (\<lambda>p. g_max_concurrency (t_group (pg_ten p)) < 1) (RuntimeError ''Concurrency must be at least 1'')))
    (oseq (init_downloads E) (oseq (init_storage E) (oseq (init_main E)
    (oseq (olift (start_servers E)) (olift (start_first_vm E))))))"

lemma oseq_assoc: "oseq (oseq a b) c = oseq a (oseq b c)"
  by (auto simp: oseq_def fun_eq_iff split: option.splits)

lemma begin_initialization_body_split:
  "begin_initialization_body E = oseq (before_serving E) (oseq (olift (stmt_upd (unlock_and_initialized True))) (olift (start_more_vms E)))"
  unfolding begin_initialization_body_def before_serving_def oseq_assoc ..

lemma oseq_last: "\<lbrakk>oseq a b p = Some (p', None); \<And>p1. b p1 = Some (p', None) \<Longrightarrow> thesis\<rbrakk> \<Longrightarrow> thesis"
  by (drule oseq_Some) blast

definition gate_kept :: "('m prog \<Rightarrow> ('m prog \<times> exn option) option) \<Rightarrow> bool" where
  "gate_kept a \<longleftrightarrow> (\<forall>p p' e. a p = Some (p', e) \<longrightarrow> gate p' = gate p)"

lemma gate_kept_oseq: "\<lbrakk>gate_kept a; gate_kept b\<rbrakk> \<Longrightarrow> gate_kept (oseq a b)"
proof -
  assume a: "gate_kept a" and b: "gate_kept b"
  show ?thesis unfolding gate_kept_def
  proof (intro allI impI)
    fix p p' e assume "oseq a b p = Some (p', e)"
    then consider x where "a p = Some (p', Some x)" | p1 where "a p = Some (p1, None)" "b p1 = Some (p', e)"
      by (blast dest: oseq_Some)
    then show "gate p' = gate p"
    proof cases
      case 1
      with a show ?thesis unfolding gate_kept_def by blast
    next
      case 2
      with a b have "gate p1 = gate p" "gate p' = gate p1" unfolding gate_kept_def by blast+
      then show ?thesis by simp
    qed
  qed
qed

lemma gate_kept_parts:
  "gate_kept (olift (stmt_throw_if c x))" "gate_kept (init_downloads E)" "gate_kept (init_storage E)" "gate_kept (init_main E)"
  "gate_kept (olift (start_servers E))" "gate_kept (olift (start_first_vm E))" "gate_kept (olift (start_more_vms E))"
  by (auto simp: gate_kept_def olift_def stmt_throw_if_def dest: gate_init_downloads gate_init_storage gate_init_main
      gate_start_servers gate_start_first gate_start_more)

lemma before_serving_gate: "gate_kept (before_serving E)"
  unfolding before_serving_def by (intro gate_kept_oseq gate_kept_parts)

lemma before_serving_pool:
  assumes "before_serving E p = Some (p', None)"
  shows "\<exists>pool. pg_pool p' = Some pool \<and> serving pool \<and> length (pl_vms pool) = 1 \<and> pg_main p' = Some (pl_main pool)"
proof -
  from assms obtain p1 where "start_first_vm E p1 = (p', None)"
    unfolding before_serving_def by (elim oseq_last) (simp add: olift_def)
  from start_first_serving [OF this] show ?thesis by blast
qed

lemma before_serving_concurrency:
  "before_serving E p = Some (p', None) \<Longrightarrow> g_max_concurrency (t_group (pg_ten p)) \<ge> 1"
  by (rule ccontr) (simp add: before_serving_def oseq_def olift_def stmt_throw_if_def not_le)

text \<open>A start-up that succeeds: requests are let in, once, and the pool is complete.\<close>

lemma begin_initialization_ok:
  assumes "begin_initialization E p = Some (p', None)" and "pg_locked p" and "\<not> pg_unlocked_twice p" and "pg_complete p = 0"
  shows "wait_for_main_vm p' = Some True" and "\<not> pg_unlocked_twice p'" and "pg_main p' \<noteq> None" and "pg_request p' = pg_request p"
    and "\<not> pg_locked p'"
    and "\<exists>pool. pg_pool p' = Some pool \<and> serving pool \<and> length (pl_vms pool) = unat (g_max_concurrency (t_group (pg_ten p)))"
proof -
  from assms(1) have body: "begin_initialization_body E p = Some (p', None)"
    by (auto simp: begin_initialization_def split: option.splits prod.splits)
  then obtain p1 where p1: "before_serving E p = Some (p1, None)" and more: "start_more_vms E (unlock_and_initialized True p1) = (p', None)"
    unfolding begin_initialization_body_split by (auto dest!: oseq_Some simp: olift_def stmt_upd_def)
  from before_serving_gate p1 have g: "gate p1 = gate p" unfolding gate_kept_def by blast
  let ?p2 = "unlock_and_initialized True p1"
  from gate_start_more [OF more] have g2: "gate p' = gate ?p2" and m2: "pg_main p' = pg_main ?p2" by auto
  from before_serving_pool [OF p1] obtain pool where pool: "pg_pool p1 = Some pool" "serving pool" "length (pl_vms pool) = 1"
    "pg_main p1 = Some (pl_main pool)" by blast
  have "g_max_concurrency (t_group (pg_ten ?p2)) \<ge> 1"
    using before_serving_concurrency [OF p1] g by (simp add: gate_def unlock_and_initialized_def)
  moreover have "pg_pool ?p2 = Some pool" using pool by (simp add: unlock_and_initialized_def)
  ultimately obtain q where q: "pg_pool p' = Some q" "serving q" "length (pl_vms q) = unat (g_max_concurrency (t_group (pg_ten ?p2)))"
    using start_more_serving [OF more] pool by blast
  from g g2 m2 pool assms(2-4)
  show "wait_for_main_vm p' = Some True" "\<not> pg_unlocked_twice p'" "pg_main p' \<noteq> None" "pg_request p' = pg_request p"
    "\<not> pg_locked p'"
    by (auto simp: gate_def unlock_and_initialized_def wait_for_main_vm_def)
  from q g show "\<exists>pool. pg_pool p' = Some pool \<and> serving pool \<and> length (pl_vms pool) = unat (g_max_concurrency (t_group (pg_ten p)))"
    by (auto simp: gate_def unlock_and_initialized_def)
qed

lemma begin_initialization_failed:
  assumes "begin_initialization E p = Some (p', Some x)"
  shows "wait_for_main_vm p' = Some False" and "pg_main p' = None"
  using assms
  by (auto simp: begin_initialization_def init_failed_def unlock_and_initialized_def wait_for_main_vm_def
      split: option.splits prod.splits)

subsection \<open>Checksums\<close>

lemma hex_byte_inj: "hex_byte a = hex_byte b \<Longrightarrow> a = b"
proof -
  have d: "distinct hex_lut" and l: "length hex_lut = 16" by (simp_all add: hex_lut_def)
  assume h: "hex_byte a = hex_byte b"
  have m: "unat (and w 0xF) < 16" for w :: u8
    using word_and_le1 [of w "0xF"] by (simp add: word_le_nat_alt)
  from h have "and (drop_bit 4 a) 0xF = and (drop_bit 4 b) 0xF" "and a 0xF = and b 0xF"
    using d l m by (simp_all add: hex_byte_def nth_eq_iff_index_eq word_unat_eq_iff)
  then have hi: "take_bit 4 (drop_bit 4 a) = take_bit 4 (drop_bit 4 b)" and lo: "take_bit 4 a = take_bit 4 b"
    by (simp_all add: take_bit_eq_mask mask_eq_exp_minus_1)
  have full: "take_bit 4 (drop_bit 4 w) = drop_bit 4 w" for w :: u8
    by (simp add: take_bit_drop_bit take_bit_word_eq_self)
  have "a = push_bit 4 (drop_bit 4 a) + take_bit 4 a" by (rule bits_ident [symmetric])
  also have "\<dots> = push_bit 4 (drop_bit 4 b) + take_bit 4 b" using hi lo by (simp only: full)
  also have "\<dots> = b" by (rule bits_ident)
  finally show ?thesis .
qed

lemma hash_hex_inj: "hash_hex xs = hash_hex ys \<Longrightarrow> xs = ys"
proof (induction xs arbitrary: ys)
  case Nil
  then show ?case by (cases ys) (auto simp: hash_hex_def hex_byte_def)
next
  case (Cons x xs)
  then obtain y ys' where ys: "ys = y # ys'" by (cases ys) (auto simp: hash_hex_def hex_byte_def)
  with Cons.prems have "hex_byte x = hex_byte y" "hash_hex xs = hash_hex ys'"
    by (auto simp: hash_hex_def hex_byte_def)
  with Cons.IH hex_byte_inj ys show ?case by auto
qed

subsection \<open>A concrete environment\<close>

definition init_demo :: "vm_mem init_env" where
  "init_demo =
     \<lparr>ie_boot = (\<lambda>ten. (boot_mem None)\<lparr>bt_conf := ten\<rparr>), ie_ctx = Some 1, ie_debug = False,
      ie_sha256 = (\<lambda>c. [0xAB]), ie_md5 = (\<lambda>c. [0xCD]),
      ie_perform = (\<lambda>url hdr. if url = ''http://a/program'' then Some (304, []) else None), ie_mtime = (\<lambda>path. None),
      ie_mkdir = (\<lambda>path. True), ie_write = (\<lambda>path c. if path = ''/prog/demo'' then None else Some 1), ie_valid_elf = (\<lambda>c. True), ie_archive = (\<lambda>c. None), ie_start_address = (\<lambda>vm. 0),
      ie_connect = (\<lambda>st vm. Inr vm), ie_epoll = (\<lambda>i. None), ie_websocket = None, ie_thread = (\<lambda>i. True), ie_fork = (\<lambda>i. True),
      ie_vm = vm_mem_ops\<rparr>"

definition elf_demo :: string where
  "elf_demo = replicate 128 (CHR 0x00)"

lemma init_demo_machine:
  "\<exists>mi. machine_new ((boot_mem None)\<lparr>bt_conf := ten\<rparr>) elf_demo ctx False False = Inr mi \<and> \<not> mi_is_storage mi \<and> \<not> mi_is_debug mi"
proof -
  have "le_word (take 8 (drop 24 elf_demo)) = (0 :: u64)"
    by (simp add: elf_demo_def numeral_eq_Suc)
  moreover have "length elf_demo = 128" by (simp add: elf_demo_def)
  ultimately show ?thesis
    by (simp add: machine_new_def boot_mem_def select_main_binary_def is_interpreted_binary_def detect_gigapage_from_def bind_res_def Let_def)
qed

lemma init_demo_boot:
  assumes "\<not> mi_is_storage mi" and "\<not> mi_is_debug mi" and "g_warmup (t_group ten) = None" and "g_shared_memory (t_group ten) = 0"
    and "g_cold_start_snapshot_file (t_group ten) = []"
  shows "\<exists>b. machine_initialize ((boot_mem None)\<lparr>bt_conf := ten\<rparr>) binary (bstate_init mi, es) = Some (b, None) \<and> mi_waiting (bs_mi (fst b))"
  using assms
  by (simp add: machine_initialize_def initialize_body_def initialize_run_def initialize_finish_def boot_mem_def boot_vm_def boot_mi_def
      stmt_defs Let_def skip_out_def benv_demo_def exec_mem_def shared_memory_size_def bstate_init_def)

lemma init_demo_threads: "emplace_vms (init_demo\<lparr>ie_write := w\<rparr>) is pool = (pool', ok) \<Longrightarrow> ok"
  by (induction "is" arbitrary: pool) (auto simp: init_demo_def)

lemma init_demo_starts:
  "\<exists>p' mi. begin_initialization (init_demo\<lparr>ie_write := w\<rparr>) (program_local demo_conf fs elf_demo st) = Some (p', None) \<and> pg_main p' = Some mi \<and> mi_waiting mi"
proof -
  define p :: "vm_mem prog" where "p = program_local demo_conf fs elf_demo st"
  note conf = p_def program_local_def prog_new_def allow_own_binary_def demo_conf_def tenant_group_new_def request_program_filename_def
    SHARED_MEMORY_SIZE_def
  have p: "pg_storage p = None" "pg_storage_vm p = None" "pg_request p = elf_demo" "g_downloads (t_group (pg_ten p)) = []"
    "\<not> g_max_concurrency (t_group (pg_ten p)) < 1" "\<not> has_epoll_system (t_group (pg_ten p))" "\<not> has_websocket_system (t_group (pg_ten p))"
    by (simp_all add: conf has_epoll_system_def has_websocket_system_def)
  obtain mi where mi: "machine_new (ie_boot (init_demo\<lparr>ie_write := w\<rparr>) (pg_ten p)) elf_demo (ie_ctx (init_demo\<lparr>ie_write := w\<rparr>)) False (ie_debug (init_demo\<lparr>ie_write := w\<rparr>)) = Inr mi"
    and m: "\<not> mi_is_storage mi" "\<not> mi_is_debug mi"
    using init_demo_machine [of "pg_ten p" "Some 1"] by (auto simp: init_demo_def)
  have q: "g_warmup (t_group (pg_ten p)) = None" "g_shared_memory (t_group (pg_ten p)) = 0" "g_cold_start_snapshot_file (t_group (pg_ten p)) = []"
    by (simp_all add: conf)
  from init_demo_boot [OF m q] obtain b where wt: "mi_waiting (bs_mi (fst b))"
    and "machine_initialize ((boot_mem None)\<lparr>bt_conf := pg_ten p\<rparr>) elf_demo (bstate_init mi, pg_entries p) = Some (b, None)" by blast
  then have b: "machine_initialize (ie_boot (init_demo\<lparr>ie_write := w\<rparr>) (pg_ten p)) elf_demo (bstate_init mi, pg_entries p) = Some (b, None)"
    by (simp add: init_demo_def)
  define p1 where "p1 = p\<lparr>pg_main := Some ((bs_mi (fst b))\<lparr>mi_ctx := None\<rparr>), pg_entries := snd b\<rparr>"
  have m1: "init_main (init_demo\<lparr>ie_write := w\<rparr>) p = Some (p1, None)"
    using mi b p by (cases b) (simp add: init_main_def connect_storage_def boot_program_def bind_res_def p1_def)
  have d: "init_downloads (init_demo\<lparr>ie_write := w\<rparr>) p = Some (p, None)" using p by (simp add: init_downloads_def download_dependencies_def)
  have s: "init_storage (init_demo\<lparr>ie_write := w\<rparr>) p = Some (p, None)" using p by (simp add: init_storage_def)
  have v: "start_servers (init_demo\<lparr>ie_write := w\<rparr>) p1 = (p1, None)" using p by (simp add: start_servers_def stmt_seq_def p1_def)
  obtain p2 where f: "start_first_vm (init_demo\<lparr>ie_write := w\<rparr>) p1 = (p2, None)"
    by (simp add: start_first_vm_def p1_def init_demo_def pool_started_def pool_emplace_def pool_new_def Let_def)
  note g2 = gate_start_first [OF f]
  obtain p3 e where more: "start_more_vms (init_demo\<lparr>ie_write := w\<rparr>) (unlock_and_initialized True p2) = (p3, e)" by fastforce
  note g3 = gate_start_more [OF more]
  from more have e: "e = None"
    using init_demo_threads by (auto simp: start_more_vms_def split: option.splits prod.splits bool.splits)
  have "begin_initialization_body (init_demo\<lparr>ie_write := w\<rparr>) p = Some (p3, None)"
    using d s m1 v f more e p(5)
    by (simp add: begin_initialization_body_def oseq_def olift_def stmt_throw_if_def stmt_upd_def)
  then have "begin_initialization (init_demo\<lparr>ie_write := w\<rparr>) p = Some (p3, None)" by (simp add: begin_initialization_def)
  moreover have "pg_main p3 = Some ((bs_mi (fst b))\<lparr>mi_ctx := None\<rparr>)"
    using g2 g3 by (simp add: unlock_and_initialized_def p1_def)
  ultimately show ?thesis using wt unfolding p_def by auto
qed

section \<open>Properties\<close>

text \<open>
  C14. Start-up lets waiting requests go on, whatever happens: when it ends, a request that waits for
  the main VM gets an answer, which is yes exactly if start-up succeeded. Then the mutex has been
  unlocked once, every request VM the configuration asks for has been created, the pool satisfies its
  invariant, and the first VM is ready to be reserved. After a failure there is no main VM.
\<close>

theorem init_publishes:
  assumes "begin_initialization E p = Some (p', e)" and "pg_locked p" and "\<not> pg_unlocked_twice p" and "pg_complete p = 0"
  shows "wait_for_main_vm p' = Some (e = None) \<and>
    (if e = None
     then \<not> pg_unlocked_twice p' \<and> pg_main p' \<noteq> None \<and>
          (\<exists>pool. pg_pool p' = Some pool \<and> pool_inv pool \<and> 0 \<in> set (concat (pl_queues pool)) \<and>
             length (pl_vms pool) = unat (g_max_concurrency (t_group (pg_ten p))))
     else pg_main p' = None)"
proof (cases e)
  case (Some x)
  with begin_initialization_failed assms(1) show ?thesis by fastforce
next
  case None
  with begin_initialization_ok [of E p p'] assms show ?thesis by (auto simp: serving_def)
qed

theorem init_publishes_witness:
  "\<exists>p' e. begin_initialization init_demo (program_local demo_conf Map.empty elf_demo []) = Some (p', e) \<and>
     wait_for_main_vm p' = Some (e = None) \<and> e = None"
proof -
  obtain p' where r: "begin_initialization init_demo (program_local demo_conf Map.empty elf_demo []) = Some (p', None)"
    using init_demo_starts [of "ie_write init_demo"] by (auto simp: init_demo_def)
  from init_publishes [OF r] have "wait_for_main_vm p' = Some True" by (simp add: program_local_def prog_new_def)
  with r show ?thesis by simp
qed

text \<open>
  A remote program that fails to start unlocks its mutex twice: the failed start-up unlocks it
  and throws, and the task that catches the exception unlocks it again, which is undefined.
\<close>

theorem uri_failure_unlocks_twice:
  assumes "length uri \<ge> 8" and "take 4 uri = ''http''" and "ie_perform E uri ifmodsince = Some (304, body)"
    and "load_from_disk p = (q, None)"
    and "begin_initialization E (q\<lparr>pg_cached := True, pg_local := True\<rparr>) = Some (p1, Some e)"
  shows "\<exists>p'. uri_task E uri ifmodsince p = Some (p', Inr (- 1)) \<and> pg_unlocked_twice p'"
proof -
  have "\<not> pg_locked p1"
    using assms(5) by (auto simp: begin_initialization_def init_failed_def unlock_and_initialized_def split: option.splits prod.splits)
  moreover have "uri_body E uri ifmodsince p = Some (p1, Inl e)"
    using assms by (simp add: uri_body_def kvm_curl_fetch_def uri_callback_def)
  ultimately show ?thesis by (simp add: uri_task_def uri_failed_def unlock_and_initialized_def)
qed

theorem uri_failure_unlocks_twice_witness:
  "\<exists>p'. uri_task init_demo ''http://a/program'' [] (program_uri (demo_conf\<lparr>t_group := (t_group demo_conf)\<lparr>g_max_concurrency := 0\<rparr>\<rparr>)
     [''/prog/demo'' \<mapsto> ''elf'']) = Some (p', Inr (- 1)) \<and> pg_unlocked_twice p'"
proof -
  let ?p = "program_uri (demo_conf\<lparr>t_group := (t_group demo_conf)\<lparr>g_max_concurrency := 0\<rparr>\<rparr>) [''/prog/demo'' \<mapsto> ''elf''] :: vm_mem prog"
  note conf = program_uri_def prog_new_def demo_conf_def tenant_group_new_def request_program_filename_def
  have l: "load_from_disk ?p = (?p\<lparr>pg_request := ''elf''\<rparr>, None)"
    by (simp add: load_from_disk_def mmap_file_def conf Let_def)
  have "\<exists>p1 e. begin_initialization init_demo (?p\<lparr>pg_request := ''elf'', pg_cached := True, pg_local := True\<rparr>) = Some (p1, Some e)"
    by (simp add: begin_initialization_def begin_initialization_body_def oseq_def olift_def stmt_throw_if_def conf)
  then obtain p1 e where "begin_initialization init_demo (?p\<lparr>pg_request := ''elf'', pg_cached := True, pg_local := True\<rparr>) = Some (p1, Some e)"
    by blast
  with uri_failure_unlocks_twice [of "''http://a/program''" init_demo "[]" "[]" ?p, OF _ _ _ l] show ?thesis
    by (simp add: init_demo_def)
qed

text \<open>
  A dependency that cannot be fetched ends the process: when the file is missing, a checksum is
  configured and the fetch fails, computing the checksum throws on a thread that does not catch it.
\<close>

theorem failed_download_terminates:
  assumes "d_sha256 d \<noteq> []" and "fs (d_filepath d) = None" and "ie_perform E (d_uri d) (if_modified_since E (d_filepath d)) = None"
    and "take 4 (d_uri d) = ''http''" and "ie_mkdir E (d_filepath d)"
  shows "download_dependencies E (d # ds) fs = None"
proof -
  have "fst (kvm_curl_fetch_into_file E (d_uri d) (d_filepath d) fs) = fs"
    using assms by (auto simp: kvm_curl_fetch_into_file_def kvm_curl_fetch_def)
  with assms show ?thesis
    by (simp add: download_dependencies_def download_needed_def download_thread_def create_sha256_from_file_def)
qed

theorem failed_download_terminates_witness:
  "download_dependencies init_demo
     [\<lparr>d_uri = ''http://a/dependency'', d_filepath = ''/srv/dep'', d_sha256 = ''abcd'', d_md5 = []\<rparr>] Map.empty = None"
  by (rule failed_download_terminates) (simp_all add: init_demo_def)

text \<open>
  The program that runs after a download is the one on disk, not the one downloaded: the code does
  not look at whether writing the file succeeded, and reads it back. When the file cannot be opened
  the previous program runs, and when the write stops early a truncated one does.
\<close>

theorem failed_write_runs_previous:
  assumes "t_filename (pg_ten p) \<noteq> []" and "ie_mkdir E (t_filename (pg_ten p))" and "pg_storage p = None"
    and "case ie_write E (t_filename (pg_ten p)) (pg_request p) of
           None \<Rightarrow> pg_fs p (t_filename (pg_ten p)) = Some old | Some n \<Rightarrow> old = take n (pg_request p)" and "old \<noteq> []"
  shows "\<exists>p'. store_binary E p = (p', None) \<and> pg_request p' = old"
  using assms
  by (auto simp: store_binary_def store_storage_binary_def file_writer_def mmap_file_def request_program_filename_def split: option.splits)

theorem failed_write_runs_previous_witness:
  "(\<exists>p'. store_binary init_demo ((program_uri demo_conf [''/prog/demo'' \<mapsto> ''old''])\<lparr>pg_request := ''new''\<rparr>) = (p', None) \<and>
     pg_request p' = ''old'') \<and>
   (\<exists>p'. store_binary init_demo ((program_uri (demo_conf\<lparr>t_filename := ''/prog/x''\<rparr>) Map.empty)\<lparr>pg_request := ''new''\<rparr>) = (p', None) \<and>
     pg_request p' = ''n'')"
  by (intro conjI; rule failed_write_runs_previous)
    (simp_all add: init_demo_def program_uri_def prog_new_def demo_conf_def tenant_group_new_def)

end
