(* ===== verification/Syscalls.thy ===== *)
theory Syscalls
  imports Storage Http_Fields Crc32
begin

text \<open>
  The system calls a guest makes (\<^verbatim>\<open>lib/libkvm/system_calls.cpp\<close> with \<^verbatim>\<open>system_calls_api.cpp\<close>,
  \<^verbatim>\<open>system_calls_http.cpp\<close> and \<^verbatim>\<open>system_calls_regex.cpp\<close>). A system call is a statement on the state
  it can reach: the registers and the machine instance, the HTTP objects of the request, and the
  entry points, storage and timers of the program. Outgoing fetches and socket writes only read
  and write registers and guest memory and are arguments of the dispatcher.
\<close>

section \<open>State\<close>

text \<open>A timer handler is the storage function and its argument.\<close>

type_synonym task = "u64 \<times> string"

record 'm sys =
  sy_regs :: regs
  sy_mi :: "'m machine"
  sy_http :: http_ctx
  sy_entries :: entries
  sy_storage :: "'m storage option"
  sy_timers :: "task timers"
  sy_cache :: "(bool \<times> u64 \<times> u64 \<times> u64) option"
  sy_stopped :: bool

text \<open>
  What the monitor is asked to do on other processors: a call of a function with four arguments, the
  same over an array, a clone of the calling processor, and waiting. The stacks of the first two are
  an area of the guest and a size.
\<close>

datatype smp_op =
    SmpCall nat u64 u64 u64 "u64 list"
  | SmpArray nat u64 u64 u64 u64 u32
  | SmpClone nat u64 u64 regs
  | SmpWait

text \<open>
  What a system call reads of its surroundings: the configuration, Varnish's functions, whether the
  workspace exists and has room, the limits of the address space, the regular expression library
  (a compiled pattern is a pointer), the clock, and the monitor's memory allocation and
  multiprocessing.
\<close>

record 'm sys_env =
  se_conf :: tenant_conf
  se_api :: varnish_api
  se_guest :: "'m guest_ops"
  se_exec :: "'m exec_ops"
  se_ws_exists :: bool
  se_ws_room :: bool
  se_kernel_end :: u64
  se_max_address :: u64
  se_re_compile :: "string \<Rightarrow> nat option"
  se_re_match :: "vre \<Rightarrow> string \<Rightarrow> int"
  se_regsub :: "bool \<Rightarrow> string \<Rightarrow> vre \<Rightarrow> string \<Rightarrow> string option"
  se_now :: int
  se_mmap_allocate :: "u64 \<Rightarrow> 'm \<Rightarrow> u64 \<times> 'm"
  se_smp :: "smp_op \<Rightarrow> 'm \<Rightarrow> 'm \<times> exn option"
  se_smp_active :: bool
  se_banked :: "'m \<Rightarrow> u64 \<times> u64"

section \<open>Helpers\<close>

definition sys_ret :: "u64 \<Rightarrow> 'm sys stmt" where
  "sys_ret v s = (s\<lparr>sy_regs := (sy_regs s)\<lparr>r_rax := v\<rparr>\<rparr>, None)"

definition upd_mi :: "('m machine \<Rightarrow> 'm machine) \<Rightarrow> 'm sys stmt" where
  "upd_mi f s = (s\<lparr>sy_mi := f (sy_mi s)\<rparr>, None)"

text \<open>\<open>cpu.stop()\<close>.\<close>

definition sys_stop :: "'m sys stmt" where
  "sys_stop s = (s\<lparr>sy_stopped := True\<rparr>, None)"

text \<open>\<open>copy_to_guest\<close> followed by the return value.\<close>

definition sys_write :: "'m sys_env \<Rightarrow> u64 \<Rightarrow> string \<Rightarrow> 'm sys stmt" where
  "sys_write E addr bytes s =
     (case go_write (se_guest E) addr bytes (mi_vm (sy_mi s)) of
        Inl e \<Rightarrow> (s, Some e)
      | Inr vm \<Rightarrow> (s\<lparr>sy_mi := (sy_mi s)\<lparr>mi_vm := vm\<rparr>\<rparr>, None))"

definition sys_read :: "'m sys_env \<Rightarrow> u64 \<Rightarrow> nat \<Rightarrow> 'm sys \<Rightarrow> string res" where
  "sys_read E addr n s = go_read (se_guest E) addr n (mi_vm (sy_mi s))"

abbreviation minus_one :: u64 where
  "minus_one \<equiv> - 1"

section \<open>Initialization and responses\<close>

definition syscall_register_func :: "'m sys_env \<Rightarrow> 'm sys stmt" where
  "syscall_register_func E s =
     (let r = sy_regs s in
      if mi_waiting (sy_mi s) then (s, Some (RuntimeError ''register_func(): Cannot be called after initialization''))
      else if r_rsi r < se_kernel_end E \<or> r_rsi r \<ge> se_max_address E
      then (s, Some (RuntimeError ''Invalid address for register_func provided''))
      else case set_entry_at (to_int (r_rdi r)) (r_rsi r) (sy_entries s) of
        Inl e \<Rightarrow> (s, Some e)
      | Inr es \<Rightarrow> (s\<lparr>sy_entries := es\<rparr>, None))"

definition syscall_wait_for_requests :: "'m sys stmt" where
  "syscall_wait_for_requests s =
     (if mi_waiting (sy_mi s) then (s, Some (RuntimeError ''wait_for_requests(): Cannot be called after initialization''))
      else stmt_seq (upd_mi (\<lambda>mi. mi\<lparr>mi_waiting := True\<rparr>)) sys_stop s)"

definition syscall_pause_for_requests :: "'m sys stmt" where
  "syscall_pause_for_requests s =
     (if mi_waiting (sy_mi s) then (s, Some (RuntimeError ''wait_for_requests(): Cannot be called after initialization''))
      else stmt_seq (upd_mi (\<lambda>mi. mi\<lparr>mi_waiting := True\<rparr>)) sys_stop s)"

text \<open>The four calls that end a call into the guest differ in the number they record.\<close>

definition syscall_finish :: "u8 \<Rightarrow> 'm sys stmt" where
  "syscall_finish n = stmt_seq (upd_mi (finish_call n)) sys_stop"

definition syscall_set_cacheable :: "'m sys stmt" where
  "syscall_set_cacheable s =
     (case machine_ctx (sy_mi s) of
        Inl e \<Rightarrow> (s, Some e)
      | Inr c \<Rightarrow>
          let r = sy_regs s in
          if hc_bo (sy_http s)
          then sys_ret 0 (s\<lparr>sy_cache := Some (r_rdi r \<noteq> 0, r_rsi r, r_rdx r, r_rcx r)\<rparr>)
          else sys_ret minus_one s)"

definition syscall_shared_memory :: "'m sys_env \<Rightarrow> 'm sys stmt" where
  "syscall_shared_memory E s =
     (let b = shared_memory_boundary (se_conf E) in
      (s\<lparr>sy_regs := (sy_regs s)\<lparr>r_rax := b, r_rdx := b + shared_memory_size (se_conf E)\<rparr>\<rparr>, None))"

definition syscall_make_ephemeral :: "'m sys_env \<Rightarrow> 'm sys stmt" where
  "syscall_make_ephemeral E s =
     (if mi_waiting (sy_mi s) then (s, Some (RuntimeError ''Cannot change ephemeralness after initialization''))
      else if g_control_ephemeral (t_group (se_conf E))
      then stmt_seq (upd_mi (\<lambda>mi. mi\<lparr>mi_is_ephemeral := (r_rdi (sy_regs s) \<noteq> 0)\<rparr>)) (sys_ret 0) s
      else stmt_with (machine_ctx (sy_mi s)) (\<lambda>_. sys_ret minus_one) s)"

definition syscall_is_debug :: "'m sys stmt" where
  "syscall_is_debug s = sys_ret (of_bool (mi_is_debug (sy_mi s))) s"

text \<open>\<open>syscall_memory_info\<close>: four 64 bit numbers.\<close>

definition syscall_memory_info :: "'m sys_env \<Rightarrow> 'm sys stmt" where
  "syscall_memory_info E s =
     (let (upper, cur) = se_banked E (mi_vm (sy_mi s)); g = t_group (se_conf E) in
      sys_write E (r_rdi (sy_regs s))
        (enc_array 8 [g_max_main_memory g, ucast (g_max_req_mem g), upper, cur]) s)"

text \<open>\<open>syscall_breakpoint\<close> throws without a context and otherwise only logs or opens the debugger.\<close>

definition syscall_breakpoint :: "'m sys stmt" where
  "syscall_breakpoint s = stmt_with (machine_ctx (sy_mi s)) (\<lambda>_. stmt_skip) s"

text \<open>\<open>syscall_log\<close> prints the bytes, which have to be readable.\<close>

definition syscall_log :: "'m sys_env \<Rightarrow> 'm sys stmt" where
  "syscall_log E s = stmt_with (sys_read E (r_rdi (sy_regs s)) (to_u16 (r_rsi (sy_regs s))) s) (\<lambda>_. stmt_skip) s"

text \<open>\<open>ENOSYS\<close> is 38.\<close>

definition syscall_unknown :: "'m sys stmt" where
  "syscall_unknown = sys_ret (- 38)"

section \<open>Storage\<close>

definition syscall_is_storage :: "'m sys stmt" where
  "syscall_is_storage s = sys_ret (of_bool (mi_is_storage (sy_mi s))) s"

definition syscall_storage_allow :: "'m sys stmt" where
  "syscall_storage_allow s =
     (if mi_is_storage (sy_mi s) \<and> \<not> mi_waiting (sy_mi s) then
        case sy_storage s of
          None \<Rightarrow> (s, Some (RuntimeError ''Storage not initialized''))
        | Some S \<Rightarrow> sys_ret 0 (s\<lparr>sy_storage := Some (S\<lparr>so_allow := List.insert (r_rdi (sy_regs s)) (so_allow S)\<rparr>)\<rparr>)
      else sys_ret minus_one s)"

fun dec_buffers :: "u64 list \<Rightarrow> (u64 \<times> u64) list" where
  "dec_buffers (a # l # ws) = (a, l) # dec_buffers ws"
| "dec_buffers _ = []"

definition syscall_storage_callv :: "'m sys_env \<Rightarrow> 'm sys stmt" where
  "syscall_storage_callv E s =
     (let r = sy_regs s; n = r_rsi r in
      if \<not> mi_is_storage (sy_mi s) \<and> n \<le> 64 then
        case sys_read E (r_rdx r) (unat n * 16) s of
          Inl e \<Rightarrow> (s, Some e)
        | Inr bytes \<Rightarrow>
            (case storage_call (se_exec E) (se_guest E) (se_conf E) (r_rdi r)
                    (dec_buffers (dec_array 8 (2 * unat n) bytes)) (r_rcx r) (r_r8 r) (mi_vm (sy_mi s)) (sy_storage s) of
               (vm, S, Inl e) \<Rightarrow> (s\<lparr>sy_mi := (sy_mi s)\<lparr>mi_vm := vm\<rparr>, sy_storage := S\<rparr>, Some e)
             | (vm, S, Inr v) \<Rightarrow> sys_ret v (s\<lparr>sy_mi := (sy_mi s)\<lparr>mi_vm := vm\<rparr>, sy_storage := S\<rparr>))
      else sys_ret minus_one s)"

text \<open>
  \<open>syscall_storage_task\<close>: a task now, or a timer with a start and a period in milliseconds; the timer
  system counts microseconds.
\<close>

definition syscall_storage_task :: "'m sys_env \<Rightarrow> 'm sys stmt" where
  "syscall_storage_task E s =
     (let r = sy_regs s; func = r_rdi r; start = r_rcx r; period = r_r8 r in
      case go_string (se_guest E) (r_rsi r) (unat (r_rdx r)) STORAGE_TASK_MAX_ARGUMENT (mi_vm (sy_mi s)) of
        Inl e \<Rightarrow> (s, Some e)
      | Inr arg \<Rightarrow>
          if start = 0 \<and> period = 0 then
            (case storage_task func arg (sy_storage s) of
               (S, Inl e) \<Rightarrow> (s\<lparr>sy_storage := S\<rparr>, Some e)
             | (S, Inr v) \<Rightarrow> sys_ret v (s\<lparr>sy_storage := S\<rparr>))
          else if timers_racy_count (sy_timers s) < STORAGE_TASK_MAX_TIMERS then
            (case timers_add_after (se_now E) (sint start * 1000) (func, arg) (sint period * 1000) (sy_timers s) of
               (i, t) \<Rightarrow> sys_ret (of_nat i) (s\<lparr>sy_timers := t\<rparr>))
          else sys_ret minus_one s)"

definition syscall_stop_storage_task :: "'m sys stmt" where
  "syscall_stop_storage_task s =
     (case timers_remove (unat (r_rdi (sy_regs s))) (sy_timers s) of
        (b, t) \<Rightarrow> sys_ret (of_bool b) (s\<lparr>sy_timers := t\<rparr>))"

section \<open>Multiprocessing\<close>

text \<open>
  The three calls that start work on extra processors check the same things, then hand the work to
  the monitor; every exception becomes minus one.
\<close>

definition smp_call :: "'m sys_env \<Rightarrow> smp_op \<Rightarrow> 'm sys stmt" where
  "smp_call E smp s =
     (case se_smp E smp (mi_vm (sy_mi s)) of
        (vm, Some e) \<Rightarrow> sys_ret minus_one (s\<lparr>sy_mi := (sy_mi s)\<lparr>mi_vm := vm\<rparr>\<rparr>)
      | (vm, None) \<Rightarrow> sys_ret 0 (s\<lparr>sy_mi := (sy_mi s)\<lparr>mi_vm := vm\<rparr>\<rparr>))"

definition smp_refused :: "'m sys_env \<Rightarrow> u64 \<Rightarrow> bool" where
  "smp_refused E n \<longleftrightarrow> se_smp_active E \<or> n < 2 \<or> n > g_max_smp (t_group (se_conf E))"

definition SMP_STACK_SIZE :: u64 where
  "SMP_STACK_SIZE = 524288"

definition syscall_multiprocess :: "'m sys_env \<Rightarrow> 'm sys stmt" where
  "syscall_multiprocess E s =
     (let r = sy_regs s; num_cpus = r_rdi r - 1 in
      if smp_refused E (r_rdi r) then sys_ret minus_one s
      else
        let (stacks, vm) = se_mmap_allocate E (num_cpus * SMP_STACK_SIZE) (mi_vm (sy_mi s))
        in smp_call E (SmpCall (unat num_cpus) stacks SMP_STACK_SIZE (r_rsi r) [r_rdx r, r_rcx r, r_r8 r, r_r9 r])
             (s\<lparr>sy_mi := (sy_mi s)\<lparr>mi_vm := vm\<rparr>\<rparr>))"

definition syscall_multiprocess_array :: "'m sys_env \<Rightarrow> 'm sys stmt" where
  "syscall_multiprocess_array E s =
     (let r = sy_regs s; num_cpus = r_rdi r - 1 in
      if smp_refused E (r_rdi r) then sys_ret minus_one s
      else
        let (stacks, vm) = se_mmap_allocate E (num_cpus * SMP_STACK_SIZE) (mi_vm (sy_mi s))
        in smp_call E (SmpArray (unat num_cpus) stacks SMP_STACK_SIZE (r_rsi r) (r_rdx r) (ucast (r_rcx r)))
             (s\<lparr>sy_mi := (sy_mi s)\<lparr>mi_vm := vm\<rparr>\<rparr>))"

definition syscall_multiprocess_clone :: "'m sys_env \<Rightarrow> 'm sys stmt" where
  "syscall_multiprocess_clone E s =
     (let r = sy_regs s in
      if smp_refused E (r_rdi r) then sys_ret minus_one s
      else smp_call E (SmpClone (unat (r_rdi r - 1)) (r_rsi r) (r_rdx r) r) s)"

definition syscall_multiprocess_wait :: "'m sys_env \<Rightarrow> 'm sys stmt" where
  "syscall_multiprocess_wait E s = smp_call E SmpWait s"

section \<open>Regular expressions\<close>

text \<open>
  \<open>syscall_regex_compile\<close>: the checksum runs over the memory segment by segment, which the routine
  composes; a pattern that is already known keeps its handle. C strings end at a null byte.
\<close>

definition cstr :: "string \<Rightarrow> string" where
  "cstr = takeWhile (\<lambda>c. c \<noteq> CHR 0x00)"

definition string_bytes :: "string \<Rightarrow> u8 list" where
  "string_bytes = map (\<lambda>c. of_nat (of_char c))"

definition regex_hash :: "string \<Rightarrow> u32" where
  "regex_hash pattern = xor (crc32c_hw_partial 0xFFFFFFFF 0 (string_bytes pattern)) 0xFFFFFFFF"

definition syscall_regex_compile :: "'m sys_env \<Rightarrow> 'm sys stmt" where
  "syscall_regex_compile E s =
     (case sys_read E (r_rdi (sy_regs s)) (to_u16 (r_rsi (sy_regs s))) s of
        Inl e \<Rightarrow> (s, Some e)
      | Inr pattern \<Rightarrow>
          let hash = regex_hash pattern; idx = cache_find (mi_regex (sy_mi s)) hash in
          if idx \<ge> 0 then sys_ret (of_int idx) s
          else case se_re_compile E (cstr pattern) of
            None \<Rightarrow> (s, Some (RuntimeError (''The regex pattern did not compile: '' @ pattern)))
          | Some re \<Rightarrow>
              (case cache_manage (Some re) hash (mi_regex (sy_mi s)) of
                 Inl e \<Rightarrow> (s, Some e)
               | Inr (i, c) \<Rightarrow> sys_ret (of_nat i) (s\<lparr>sy_mi := (sy_mi s)\<lparr>mi_regex := c\<rparr>\<rparr>)))"

definition syscall_regex_free :: "'m sys stmt" where
  "syscall_regex_free s =
     (case cache_free None (unat (r_rdi (sy_regs s))) (mi_regex (sy_mi s)) of
        Inl e \<Rightarrow> (s, Some e)
      | Inr c \<Rightarrow> (s\<lparr>sy_mi := (sy_mi s)\<lparr>mi_regex := c\<rparr>\<rparr>, None))"

definition syscall_regex_match :: "'m sys_env \<Rightarrow> 'm sys stmt" where
  "syscall_regex_match E s =
     (let r = sy_regs s in
      case cache_get (mi_regex (sy_mi s)) (to_u32 (r_rdi r)) of
        Inl e \<Rightarrow> (s, Some e)
      | Inr entry \<Rightarrow>
          (case sys_read E (r_rsi r) (to_u32 (r_rdx r)) s of
             Inl e \<Rightarrow> (s, Some e)
           | Inr subject \<Rightarrow> sys_ret (of_int (se_re_match E (e_item entry) subject)) s))"

definition syscall_regex_subst :: "'m sys_env \<Rightarrow> 'm sys stmt" where
  "syscall_regex_subst E s =
     (let r = sy_regs s; vm = mi_vm (sy_mi s) in
      case cache_get (mi_regex (sy_mi s)) (to_u32 (r_rdi r)) of
        Inl e \<Rightarrow> (s, Some e)
      | Inr entry \<Rightarrow>
          (case go_cstring (se_guest E) (r_rsi r) vm of
             Inl e \<Rightarrow> (s, Some e)
           | Inr buffer \<Rightarrow>
               (case go_cstring (se_guest E) (of_nat (to_u32 (r_rdx r))) vm of
                  Inl e \<Rightarrow> (s, Some e)
                | Inr subst \<Rightarrow>
                    (case machine_ctx (sy_mi s) of
                       Inl e \<Rightarrow> (s, Some e)
                     | Inr c \<Rightarrow>
                         (case se_regsub E (odd (to_u32 (r_r9 r))) buffer (e_item entry) subst of
                            None \<Rightarrow> sys_ret minus_one s
                          | Some result \<Rightarrow>
                              let n = min (to_u32 (r_r8 r)) (length result + 1) in
                              stmt_seq (sys_write E (r_rcx r) (take n (result @ [CHR 0x00])))
                                (sys_ret (of_nat n)) s)))))"

section \<open>Header fields\<close>

definition sys_http :: "'m sys_env \<Rightarrow> int \<Rightarrow> 'm sys \<Rightarrow> (http_sel \<times> http) res" where
  "sys_http E w s = bind_res (machine_ctx (sy_mi s)) (\<lambda>_. get_http (se_api E) (sy_http s) w)"

definition syscall_http_append :: "'m sys_env \<Rightarrow> 'm sys stmt" where
  "syscall_http_append E s =
     (let r = sy_regs s in
      case sys_http E (to_int (r_rdi r)) s of
        Inl e \<Rightarrow> (s, Some e)
      | Inr (sel, hp) \<Rightarrow>
          if r_rdx r > 0xFFFF then (s, Some (RuntimeError ''HTTP header field too large''))
          else if \<not> se_ws_exists E then sys_ret 0 s
          else if \<not> se_ws_room E then (s, Some (RuntimeError ''Unable to make room for HTTP header field''))
          else case sys_read E (r_rsi r) (to_u16 (r_rdx r)) s of
            Inl e \<Rightarrow> (s, Some e)
          | Inr val \<Rightarrow>
              (case http_header_append (se_api E) val hp of
                 Inl e \<Rightarrow> (s, Some e)
               | Inr (i, hp') \<Rightarrow> sys_ret (ucast i) (s\<lparr>sy_http := set_http sel hp' (sy_http s)\<rparr>)))"

text \<open>\<open>syscall_http_set\<close>: a failed assertion, which does not occur, would end the process.\<close>

definition syscall_http_set :: "'m sys_env \<Rightarrow> 'm sys stmt" where
  "syscall_http_set E s =
     (let r = sy_regs s in
      if r_rdx r > 0xFFFF then (s, Some (RuntimeError ''HTTP header field too large''))
      else case kvm_http_set (se_api E) (se_guest E) (se_ws_room E) (to_int (r_rdi r)) (r_rsi r) (of_nat (to_u16 (r_rdx r)))
                  (sy_mi s) (sy_http s) of
        None \<Rightarrow> (s, Some (RuntimeError ''assertion failed''))
      | Some (Inl e) \<Rightarrow> (s, Some e)
      | Some (Inr (i, c)) \<Rightarrow> sys_ret (scast i) (s\<lparr>sy_http := c\<rparr>))"

text \<open>Copying a field to the guest: the length, or 0 when the destination is too small.\<close>

definition field_to_guest :: "'m sys_env \<Rightarrow> u64 \<Rightarrow> nat \<Rightarrow> nat \<Rightarrow> string \<Rightarrow> 'm sys stmt" where
  "field_to_guest E dest destlen flen field =
     (if dest \<noteq> 0 \<and> flen \<le> destlen then stmt_seq (sys_write E dest (take flen field)) (sys_ret (of_nat flen))
      else if dest \<noteq> 0 then sys_ret 0 else sys_ret (of_nat flen))"

definition syscall_http_find :: "'m sys_env \<Rightarrow> 'm sys stmt" where
  "syscall_http_find E s =
     (let r = sy_regs s in
      case sys_http E (to_int (r_rdi r)) s of
        Inl e \<Rightarrow> (s, Some e)
      | Inr (sel, hp) \<Rightarrow>
          (case sys_read E (r_rsi r) (to_u16 (r_rdx r)) s of
             Inl e \<Rightarrow> (s, Some e)
           | Inr name \<Rightarrow>
               (case validate_guest_field_key name of
                  Inl e \<Rightarrow> (s, Some e)
                | Inr _ \<Rightarrow>
                    let index = http_findhdr hp name; field = h_fields hp ! index in
                    if index > 0
                    then field_to_guest E (r_rcx r) (to_u16 (r_r8 r)) (length field mod 65536) field s
                    else sys_ret 0 s)))"

definition syscall_http_method :: "'m sys_env \<Rightarrow> 'm sys stmt" where
  "syscall_http_method E s =
     (let r = sy_regs s in
      case sys_http E (va_HDR_BEREQ (se_api E)) s of
        Inl e \<Rightarrow> (s, Some e)
      | Inr (sel, hp) \<Rightarrow>
          let field = (if h_fields hp = [] then [] else h_fields hp ! 0) in
          field_to_guest E (r_rdi r) (to_u32 (r_rsi r) mod 2 ^ 31) (length field) field s)"

text \<open>
  \<open>syscall_regex_copyto\<close>: the loop runs over the fields the source had at the start. An invalid field
  throws, and what has been appended stays.
\<close>

fun copyto_loop :: "varnish_api \<Rightarrow> (string \<Rightarrow> bool) \<Rightarrow> string list \<Rightarrow> nat \<Rightarrow> http \<Rightarrow> http \<times> nat res" where
  "copyto_loop A matches [] appended dst = (dst, Inr appended)"
| "copyto_loop A matches (f # fs) appended dst =
     (if matches f then
        case http_header_append A f dst of
          Inl e \<Rightarrow> (dst, Inl e)
        | Inr (i, dst') \<Rightarrow> copyto_loop A matches fs (if i \<noteq> HDR_INVALID then appended + 1 else appended) dst'
      else copyto_loop A matches fs appended dst)"

definition syscall_regex_copyto :: "'m sys_env \<Rightarrow> 'm sys stmt" where
  "syscall_regex_copyto E s =
     (let r = sy_regs s in
      case cache_get (mi_regex (sy_mi s)) (to_u32 (r_rdi r)) of
        Inl e \<Rightarrow> (s, Some e)
      | Inr entry \<Rightarrow>
          (case sys_http E (to_int (r_rsi r)) s of
             Inl e \<Rightarrow> (s, Some e)
           | Inr (ssel, src) \<Rightarrow>
               (case sys_http E (to_int (r_rdx r)) s of
                  Inl e \<Rightarrow> (s, Some e)
                | Inr (dsel, dst) \<Rightarrow>
                    (case copyto_loop (se_api E) (\<lambda>f. se_re_match E (e_item entry) f \<ge> 0) (drop HDR_FIRST (h_fields src)) 0 dst of
                       (dst', Inl e) \<Rightarrow> (s\<lparr>sy_http := set_http dsel dst' (sy_http s)\<rparr>, Some e)
                     | (dst', Inr n) \<Rightarrow> sys_ret (of_nat n) (s\<lparr>sy_http := set_http dsel dst' (sy_http s)\<rparr>)))))"

section \<open>Dispatch\<close>

text \<open>A system call that only touches registers and guest memory.\<close>

definition sys_plain :: "(regs \<Rightarrow> 'm \<Rightarrow> (regs \<times> 'm) \<times> exn option) \<Rightarrow> 'm sys stmt" where
  "sys_plain f s =
     (case f (sy_regs s) (mi_vm (sy_mi s)) of
        ((r, vm), e) \<Rightarrow> (s\<lparr>sy_regs := r, sy_mi := (sy_mi s)\<lparr>mi_vm := vm\<rparr>\<rparr>, e))"

definition syscall ::
    "(regs \<Rightarrow> 'm \<Rightarrow> (regs \<times> 'm) \<times> exn option) \<Rightarrow> (regs \<Rightarrow> 'm \<Rightarrow> (regs \<times> 'm) \<times> exn option) \<Rightarrow>
     'm sys_env \<Rightarrow> nat \<Rightarrow> 'm sys stmt" where
  "syscall fetch sockets E n =
     (if n = 0x10000 then syscall_register_func E
      else if n = 0x10001 then syscall_wait_for_requests
      else if n = 0x10002 then syscall_pause_for_requests
      else if n = 0x10005 then syscall_set_cacheable
      else if n = 0x10010 then syscall_finish 1
      else if n = 0x10012 then syscall_finish 10
      else if n = 0x10011 then syscall_finish 2
      else if n = 0x10013 then syscall_finish 3
      else if n = 0x10020 then syscall_http_append E
      else if n = 0x10021 then syscall_http_set E
      else if n = 0x10022 then syscall_http_find E
      else if n = 0x10023 then syscall_http_method E
      else if n = 0x10030 then syscall_regex_compile E
      else if n = 0x10031 then syscall_regex_free
      else if n = 0x10032 then syscall_regex_match E
      else if n = 0x10033 then syscall_regex_subst E
      else if n = 0x10035 then syscall_regex_copyto E
      else if n = 0x10100 then stmt_skip
      else if n = 0x10500 then sys_plain sockets
      else if n = 0x10700 then syscall_shared_memory E
      else if n = 0x10703 then syscall_make_ephemeral E
      else if n = 0x10706 then syscall_is_storage
      else if n = 0x10707 then syscall_storage_allow
      else if n = 0x10708 then syscall_storage_callv E
      else if n = 0x10709 then syscall_storage_task E
      else if n = 0x1070A then syscall_stop_storage_task
      else if n = 0x10710 then syscall_multiprocess E
      else if n = 0x10711 then syscall_multiprocess_array E
      else if n = 0x10712 then syscall_multiprocess_clone E
      else if n = 0x10713 then syscall_multiprocess_wait E
      else if n = 0x10A00 then syscall_memory_info E
      else if n = 0x20000 then sys_plain fetch
      else if n = 0x7F000 then syscall_log E
      else if n = 0x7FDEB then syscall_is_debug
      else if n = 0x7F7F7 then syscall_breakpoint
      else syscall_unknown)"

section \<open>What a request cannot change\<close>

text \<open>The settings a program fixes while it initializes.\<close>

definition settings :: "'m sys \<Rightarrow> entries \<times> u64 list option \<times> bool \<times> bool \<times> bool \<times> bool" where
  "settings s = (sy_entries s, map_option so_allow (sy_storage s), mi_is_ephemeral (sy_mi s), mi_waiting (sy_mi s),
     mi_is_storage (sy_mi s), mi_is_debug (sy_mi s))"

definition keeps_settings :: "'m sys stmt \<Rightarrow> bool" where
  "keeps_settings a \<longleftrightarrow> (\<forall>s. mi_waiting (sy_mi s) \<longrightarrow> settings (fst (a s)) = settings s)"

named_theorems settings_intros

lemma keeps_settingsI: "(\<And>s. mi_waiting (sy_mi s) \<Longrightarrow> settings (fst (a s)) = settings s) \<Longrightarrow> keeps_settings a"
  by (simp add: keeps_settings_def)

lemma settings_simps [simp]:
  "settings (s\<lparr>sy_regs := r\<rparr>) = settings s" "settings (s\<lparr>sy_http := h\<rparr>) = settings s"
  "settings (s\<lparr>sy_timers := t\<rparr>) = settings s" "settings (s\<lparr>sy_cache := c\<rparr>) = settings s"
  "settings (s\<lparr>sy_stopped := b\<rparr>) = settings s"
  "settings (s\<lparr>sy_mi := (sy_mi s)\<lparr>mi_vm := vm\<rparr>\<rparr>) = settings s"
  "settings (s\<lparr>sy_regs := r, sy_mi := (sy_mi s)\<lparr>mi_vm := vm\<rparr>\<rparr>) = settings s"
  "settings (s\<lparr>sy_mi := (sy_mi s)\<lparr>mi_regex := c'\<rparr>\<rparr>) = settings s"
  "settings (s\<lparr>sy_mi := finish_call k (sy_mi s)\<rparr>) = settings s"
  by (simp_all add: settings_def finish_call_def)

lemma sys_ret_settings [simp]: "settings (fst (sys_ret v s)) = settings s"
  by (simp add: sys_ret_def)

lemma sys_write_settings [simp]: "settings (fst (sys_write E a b s)) = settings s"
  by (simp add: sys_write_def split: sum.splits)

lemma stmt_seq_settings:
  "\<lbrakk>\<And>s. settings (fst (a s)) = settings s; \<And>s. settings (fst (b s)) = settings s\<rbrakk> \<Longrightarrow> settings (fst (stmt_seq a b s)) = settings s"
  by (auto simp: stmt_seq_def split: prod.splits option.splits) (metis fst_conv)+

lemma field_to_guest_settings [simp]: "settings (fst (field_to_guest E d l n f s)) = settings s"
  by (auto simp: field_to_guest_def intro: stmt_seq_settings)

lemma storage_call_allow:
  "storage_call X G t f bufs ra rs src S = (src', S', r) \<Longrightarrow> map_option so_allow S' = map_option so_allow S"
  by (auto simp: storage_call_def Let_def split: prod.splits sum.splits if_splits option.splits)

lemma storage_task_allow:
  "storage_task f arg S = (S', r) \<Longrightarrow> map_option so_allow S' = map_option so_allow S"
  by (auto simp: storage_task_def split: option.splits if_splits)

lemma sys_settings [settings_intros]:
  "keeps_settings (syscall_register_func E)" "keeps_settings syscall_wait_for_requests"
  "keeps_settings syscall_pause_for_requests" "keeps_settings (syscall_make_ephemeral E)"
  by (auto simp: keeps_settings_def syscall_register_func_def syscall_wait_for_requests_def
      syscall_pause_for_requests_def syscall_make_ephemeral_def Let_def)

lemma sys_settings2 [settings_intros]:
  "keeps_settings (syscall_finish n)" "keeps_settings syscall_set_cacheable" "keeps_settings (syscall_shared_memory E)"
  "keeps_settings syscall_is_debug" "keeps_settings (syscall_memory_info E)" "keeps_settings syscall_breakpoint"
  "keeps_settings (syscall_log E)" "keeps_settings syscall_unknown" "keeps_settings syscall_is_storage"
  "keeps_settings syscall_storage_allow" "keeps_settings stmt_skip" "keeps_settings (sys_plain f)"
  by (auto simp: keeps_settings_def syscall_finish_def syscall_set_cacheable_def syscall_shared_memory_def
      syscall_is_debug_def syscall_memory_info_def syscall_breakpoint_def syscall_log_def syscall_unknown_def
      syscall_is_storage_def syscall_storage_allow_def sys_plain_def stmt_defs upd_mi_def sys_stop_def Let_def
      split: sum.splits option.splits prod.splits)

lemma sys_settings3 [settings_intros]:
  "keeps_settings (syscall_multiprocess E)" "keeps_settings (syscall_multiprocess_array E)"
  "keeps_settings (syscall_multiprocess_clone E)" "keeps_settings (syscall_multiprocess_wait E)"
  "keeps_settings (syscall_stop_storage_task)"
  by (auto simp: keeps_settings_def syscall_multiprocess_def syscall_multiprocess_array_def
      syscall_multiprocess_clone_def syscall_multiprocess_wait_def smp_call_def Let_def syscall_stop_storage_task_def
      Let_def split: sum.splits option.splits prod.splits)

lemma sys_settings_regex [settings_intros]:
  "keeps_settings (syscall_regex_compile E)" "keeps_settings syscall_regex_free" "keeps_settings (syscall_regex_match E)"
  "keeps_settings (syscall_regex_subst E)" "keeps_settings (syscall_regex_copyto E)"
  by (auto simp: keeps_settings_def syscall_regex_compile_def syscall_regex_free_def syscall_regex_match_def
      syscall_regex_subst_def syscall_regex_copyto_def Let_def split: sum.splits option.splits prod.splits
      intro!: stmt_seq_settings)

lemma sys_settings_http [settings_intros]:
  "keeps_settings (syscall_http_append E)" "keeps_settings (syscall_http_set E)" "keeps_settings (syscall_http_find E)"
  "keeps_settings (syscall_http_method E)"
  by (auto simp: keeps_settings_def syscall_http_append_def syscall_http_set_def syscall_http_find_def
      syscall_http_method_def Let_def split: sum.splits option.splits prod.splits)

lemma sys_settings_storage [settings_intros]:
  "keeps_settings (syscall_storage_callv E)" "keeps_settings (syscall_storage_task E)"
proof -
  have "settings (s\<lparr>sy_mi := (sy_mi s)\<lparr>mi_vm := vm\<rparr>, sy_storage := S\<rparr>) = settings s"
    if "map_option so_allow S = map_option so_allow (sy_storage s)" for s :: "'a sys" and vm S
    using that by (simp add: settings_def)
  moreover have "settings (s\<lparr>sy_storage := S\<rparr>) = settings s"
    if "map_option so_allow S = map_option so_allow (sy_storage s)" for s :: "'a sys" and S
    using that by (simp add: settings_def)
  ultimately show "keeps_settings (syscall_storage_callv E)" "keeps_settings (syscall_storage_task E)"
    by (auto simp: keeps_settings_def syscall_storage_callv_def syscall_storage_task_def Let_def
        dest!: storage_call_allow storage_task_allow split: sum.splits prod.splits)
qed

lemma keeps_settings_if: "\<lbrakk>keeps_settings a; keeps_settings b\<rbrakk> \<Longrightarrow> keeps_settings (if c then a else b)"
  by simp

lemma syscall_settings: "keeps_settings (syscall fetch sockets E n)"
  unfolding syscall_def by (intro keeps_settings_if settings_intros)

text \<open>
  A run of a guest: between two system calls it changes its registers and memory at will, and the
  run ends with the first exception.
\<close>

fun run_guest ::
    "(regs \<Rightarrow> 'm \<Rightarrow> (regs \<times> 'm) \<times> exn option) \<Rightarrow> (regs \<Rightarrow> 'm \<Rightarrow> (regs \<times> 'm) \<times> exn option) \<Rightarrow>
     ('m sys_env \<times> nat \<times> regs \<times> 'm) list \<Rightarrow> 'm sys stmt" where
  "run_guest fetch sockets [] s = (s, None)"
| "run_guest fetch sockets ((E, n, r, vm) # cs) s =
     stmt_seq (syscall fetch sockets E n) (run_guest fetch sockets cs)
       (s\<lparr>sy_regs := r, sy_mi := (sy_mi s)\<lparr>mi_vm := vm\<rparr>\<rparr>)"

section \<open>Properties\<close>

text \<open>
  C9. A request cannot reconfigure its program: once a program waits for requests, no sequence of
  system calls changes the entry points, the functions allowed to be called in storage, whether its
  VMs are ephemeral, or its role, whatever the guest does in between and wherever the sequence ends.
\<close>

theorem request_cannot_reconfigure:
  assumes "mi_waiting (sy_mi s)"
  shows "settings (fst (run_guest fetch sockets cs s)) = settings s"
  using assms
proof (induction cs arbitrary: s)
  case (Cons c cs)
  obtain E n r vm where c: "c = (E, n, r, vm)" by (rule prod_cases4)
  let ?s = "s\<lparr>sy_regs := r, sy_mi := (sy_mi s)\<lparr>mi_vm := vm\<rparr>\<rparr>"
  obtain s1 e where s1: "syscall fetch sockets E n ?s = (s1, e)" by (cases "syscall fetch sockets E n ?s")
  have "mi_waiting (sy_mi ?s)" using Cons.prems by simp
  with syscall_settings [of fetch sockets E n] s1 have k: "settings s1 = settings ?s"
    unfolding keeps_settings_def by (metis fst_conv)
  then have "mi_waiting (sy_mi s1)" using Cons.prems by (simp add: settings_def)
  with Cons.IH [of s1] k s1 show ?case by (cases e) (simp_all add: c stmt_seq_def)
qed simp

definition env_syscalls :: "vm_mem sys_env" where
  "env_syscalls = \<lparr>se_conf = demo_conf, se_api = api_demo, se_guest = guest_mem, se_exec = exec_mem storage_answer,
     se_ws_exists = True, se_ws_room = True, se_kernel_end = 0x100000, se_max_address = 0x200000000,
     se_re_compile = (\<lambda>p. Some 7), se_re_match = (\<lambda>re s. 0), se_regsub = (\<lambda>all b re s. Some b), se_now = 0,
     se_mmap_allocate = (\<lambda>n vm. (0x8000, vm)), se_smp = (\<lambda>c vm. (vm, None)), se_smp_active = False, se_banked = (\<lambda>vm. (0, 0))\<rparr>"

definition sys_demo :: "bool \<Rightarrow> vm_mem sys" where
  "sys_demo waiting = \<lparr>sy_regs = regs_zero,
     sy_mi = (machine_of (\<lambda>a. CHR ''.'', regs_zero))\<lparr>mi_ctx := Some 1, mi_is_storage := False, mi_waiting := waiting\<rparr>,
     sy_http = \<lparr>hc_bo = True, hc_bereq = Some http_demo, hc_beresp = None, hc_req = None, hc_resp = None\<rparr>,
     sy_entries = entries_new, sy_storage = Some storage_demo, sy_timers = timers_new, sy_cache = None, sy_stopped = False\<rparr>"

theorem request_cannot_reconfigure_witness:
  "mi_waiting (sy_mi (sys_demo True)) \<and>
   settings (fst (run_guest (\<lambda>r vm. ((r, vm), None)) (\<lambda>r vm. ((r, vm), None))
     [(env_syscalls, 0x10010, regs_zero, (\<lambda>a. CHR ''.'', regs_zero)),
      (env_syscalls, 0x10000, regs_zero\<lparr>r_rdi := 1, r_rsi := 0x401000\<rparr>, (\<lambda>a. CHR ''.'', regs_zero))] (sys_demo True)))
   = settings (sys_demo True)"
proof -
  have w: "mi_waiting (sy_mi (sys_demo True))" by (simp add: sys_demo_def)
  show ?thesis by (rule conjI [OF w request_cannot_reconfigure [OF w]])
qed

text \<open>
  An entry point is registered with the low 32 bits of its address only: while a program
  initializes, every address of its address space is accepted, and the entry that calls go to is the
  address modulo 4 GiB, so one at a multiple of 4 GiB counts as not registered.
\<close>

theorem register_func_truncates:
  assumes "\<not> mi_waiting (sy_mi s)" and "se_kernel_end E \<le> r_rsi (sy_regs s)" and "r_rsi (sy_regs s) < se_max_address E"
    and "0 \<le> to_int (r_rdi (sy_regs s))" and "nat (to_int (r_rdi (sy_regs s))) < length (sy_entries s)"
  shows "\<exists>s' v. syscall_register_func E s = (s', None) \<and>
    entry_at (sy_entries s') (to_int (r_rdi (sy_regs s))) = Inr v \<and> unat v = unat (r_rsi (sy_regs s)) mod 2 ^ 32"
  using assms
  by (simp add: syscall_register_func_def set_entry_at_def entry_at_def Let_def not_less not_le unsigned_ucast_eq
      unsigned_take_bit_eq take_bit_nat_def)

theorem register_func_truncates_witness:
  "\<exists>s'. syscall_register_func env_syscalls ((sys_demo False)\<lparr>sy_regs := regs_zero\<lparr>r_rdi := 1, r_rsi := 0x100401000\<rparr>\<rparr>) = (s', None) \<and>
     entry_at (sy_entries s') 1 = Inr 0x401000"
proof -
  let ?s = "(sys_demo False)\<lparr>sy_regs := regs_zero\<lparr>r_rdi := 1, r_rsi := 0x100401000\<rparr>\<rparr>"
  have i: "to_int 1 = 1" by (simp add: to_int_def)
  obtain s' v where "syscall_register_func env_syscalls ?s = (s', None)" "entry_at (sy_entries s') 1 = Inr v"
    and v: "unat v = unat (0x100401000 :: u64) mod 2 ^ 32"
    using register_func_truncates [of ?s env_syscalls]
    by (auto simp: sys_demo_def env_syscalls_def i entries_new_def TOTAL_ENTRIES_def)
  moreover have "v = 0x401000" using v by (simp add: word_unat_eq_iff)
  ultimately show ?thesis by blast
qed

end
