(* ===== verification/Tenants.thy ===== *)
theory Tenants
  imports Program_Init Syscalls
begin

text \<open>
  Tenants (\<^verbatim>\<open>lib/libkvm/tenant.cpp\<close>, \<^verbatim>\<open>tenant_instance.cpp\<close>, \<^verbatim>\<open>live_update.cpp\<close>): the table of programs a
  VCL knows, filled from JSON documents and searched by the checksum of the name, the decision where a
  program is loaded from, references to the current program, reservations of a VM for a request, and
  the replacement of a running program. The JSON library is the parameter of the configuration.
\<close>

section \<open>State\<close>

text \<open>The task a program was constructed with, until it has run, and its future, until it has been taken.\<close>

datatype init_task = LocalTask bool | UriTask string string bool

record 'm tprog =
  tp_prog :: "'m prog"
  tp_task :: "init_task option"
  tp_future :: "int res option"
  tp_live_updates :: u64
  tp_transfer_bytes :: int

definition tprog_new :: "'m prog \<Rightarrow> init_task \<Rightarrow> 'm tprog" where
  "tprog_new p task = \<lparr>tp_prog = p, tp_task = Some task, tp_future = None, tp_live_updates = 0, tp_transfer_bytes = 0\<rparr>"

text \<open>\<open>TenantInstance\<close>. The table of tenants is keyed by the checksum of the name.\<close>

record 'm tinst =
  ti_conf :: tenant_conf
  ti_program :: "'m tprog option"
  ti_debug_program :: "'m tprog option"
  ti_started_init :: bool

type_synonym 'm tenants = "(u32 \<times> 'm tinst) list"

type_synonym files = "string \<rightharpoonup> string"

definition tinst_new :: "tenant_conf \<Rightarrow> 'm tinst" where
  "tinst_new conf = \<lparr>ti_conf = conf, ti_program = None, ti_debug_program = None, ti_started_init = False\<rparr>"

text \<open>
  The surroundings: the JSON library and its parser, the process environment, what program start-up
  needs, the files, and what is left of a string that has been moved from.
\<close>

record ('j, 'm) tenv =
  te_json :: "'j json_ops"
  te_parse :: "string \<Rightarrow> 'j res"
  te_sys :: sysenv
  te_init :: "'m init_env"
  te_fs :: files
  te_moved :: "string \<Rightarrow> string"

definition name_hash :: "string \<Rightarrow> u32" where
  "name_hash n = crc32c_hw 0 (string_bytes n)"

text \<open>\<open>TenantConfig\<close>: the checksum is taken of the argument that has been moved into the name.\<close>

definition tenant_config_new ::
    "('j, 'm) tenv \<Rightarrow> string \<Rightarrow> string \<Rightarrow> string \<Rightarrow> tenant_group \<Rightarrow> string \<Rightarrow> string \<Rightarrow> string \<Rightarrow> tenant_conf" where
  "tenant_config_new E n f k g uri sha256 md5 =
     \<lparr>t_name = n, t_hash = name_hash (te_moved E n), t_group = g, t_filename = f, t_key = k, t_uri = uri,
      t_sha256 = sha256, t_md5 = md5, t_allowed_file = f @ ''.state''\<rparr>"

section \<open>Waiting for a program\<close>

text \<open>
  The queued task. Its thread works on the program until it has finished; what callers wait for is
  the end of the whole task. None is a task that does not end or ends the process.
\<close>

definition run_task :: "'m init_env \<Rightarrow> 'm tprog \<Rightarrow> 'm tprog option" where
  "run_task E tp =
     (let finish = map_option (\<lambda>(p, r). tp\<lparr>tp_prog := p, tp_task := None, tp_future := Some r\<rparr>) in
      case tp_task tp of
        None \<Rightarrow> Some tp
      | Some (LocalTask debug) \<Rightarrow> finish (local_task (E\<lparr>ie_debug := debug\<rparr>) (tp_prog tp))
      | Some (UriTask uri ifmodsince debug) \<Rightarrow> finish (uri_task (E\<lparr>ie_debug := debug\<rparr>) uri ifmodsince (tp_prog tp)))"

definition tprog_wait_for_initialization :: "'m init_env \<Rightarrow> 'm tprog \<Rightarrow> ('m tprog \<times> int res) option" where
  "tprog_wait_for_initialization E tp =
     (case run_task E tp of
        None \<Rightarrow> None
      | Some tp \<Rightarrow> map_option (\<lambda>r. (tp\<lparr>tp_future := None\<rparr>, r)) (wait_for_initialization (tp_future tp) (tp_prog tp)))"

definition tprog_wait_for_main_vm :: "'m init_env \<Rightarrow> 'm tprog \<Rightarrow> ('m tprog \<times> bool) option" where
  "tprog_wait_for_main_vm E tp =
     (case run_task E tp of None \<Rightarrow> None | Some tp \<Rightarrow> map_option (Pair tp) (wait_for_main_vm (tp_prog tp)))"

section \<open>Starting a tenant\<close>

definition file_verified :: "'m init_env \<Rightarrow> files \<Rightarrow> tenant_conf \<Rightarrow> bool res" where
  "file_verified E fs conf =
     (if t_filename conf = [] \<or> fs (t_filename conf) = None then Inr False
      else if t_sha256 conf \<noteq> [] then bind_res (create_sha256_from_file E fs (t_filename conf)) (\<lambda>h. Inr (h = t_sha256 conf))
      else if t_md5 conf \<noteq> [] then bind_res (create_md5_from_file E fs (t_filename conf)) (\<lambda>h. Inr (h = t_md5 conf))
      else Inr False)"

definition load_local :: "files \<Rightarrow> tenant_conf \<Rightarrow> (string \<times> string) res" where
  "load_local fs conf =
     bind_res (mmap_file fs (request_program_filename conf)) (\<lambda>elf.
       if fs (storage_program_filename conf) = None then Inr (elf, [])
       else bind_res (mmap_file fs (storage_program_filename conf)) (\<lambda>storage_elf. Inr (elf, storage_elf)))"

text \<open>
  \<open>begin_initialize\<close>. Exceptions while computing the checksum leave the function; those of step 4 are
  handled in it. The constructor of a local program changes the configuration of the tenant.
\<close>

definition begin_initialize :: "'m init_env \<Rightarrow> files \<Rightarrow> bool \<Rightarrow> 'm tinst stmt" where
  "begin_initialize E fs debug t =
     (if ti_started_init t then (t, None)
      else
        let t = t\<lparr>ti_started_init := True\<rparr>; conf = ti_conf t in
        case file_verified E fs conf of
          Inl e \<Rightarrow> (t, Some e)
        | Inr verified \<Rightarrow>
            if t_uri conf \<noteq> [] \<and> \<not> verified then
              (t\<lparr>ti_program := Some (tprog_new (program_uri conf fs)
                   (UriTask (t_uri conf) (if_modified_since E (t_filename conf)) debug))\<rparr>, None)
            else if t_filename conf = [] then (t, None)
            else if fs (t_filename conf) = None then (t, None)
            else case load_local fs conf of
              Inl e \<Rightarrow> (t\<lparr>ti_program := None\<rparr>, None)
            | Inr (elf, storage_elf) \<Rightarrow>
                let p = program_local conf fs elf storage_elf in
                (t\<lparr>ti_conf := pg_ten p, ti_program := Some (tprog_new p (LocalTask False))\<rparr>, None))"

definition begin_async_initialize :: "'m init_env \<Rightarrow> files \<Rightarrow> bool \<Rightarrow> 'm tinst stmt" where
  "begin_async_initialize E fs debug t = (if \<not> ti_started_init t then begin_initialize E fs debug t else (t, None))"

definition tenant_wait_for_initialization :: "'m init_env \<Rightarrow> 'm tinst \<Rightarrow> ('m tinst \<times> exn option) option" where
  "tenant_wait_for_initialization E t =
     (case ti_program t of
        None \<Rightarrow> Some (t, None)
      | Some tp \<Rightarrow>
          map_option (\<lambda>(tp, r). (t\<lparr>ti_program := Some tp\<rparr>, case r of Inl e \<Rightarrow> Some e | Inr c \<Rightarrow> None))
            (tprog_wait_for_initialization E tp))"

text \<open>\<open>wait_guarded_initialize\<close>: the program it finds, if any.\<close>

definition wait_guarded_initialize :: "'m init_env \<Rightarrow> files \<Rightarrow> 'm tinst \<Rightarrow> ('m tinst \<times> 'm tprog option res) option" where
  "wait_guarded_initialize E fs t =
     (case begin_async_initialize E fs False t of
        (t, Some e) \<Rightarrow> Some (t, Inl e)
      | (t, None) \<Rightarrow>
          (case tenant_wait_for_initialization E t of
             None \<Rightarrow> None
           | Some (t, Some e) \<Rightarrow> Some (t, Inl e)
           | Some (t, None) \<Rightarrow> Some (t, Inr (ti_program t))))"

definition set_program :: "bool \<Rightarrow> 'm tprog option \<Rightarrow> 'm tinst \<Rightarrow> 'm tinst" where
  "set_program debug p t = (if debug then t\<lparr>ti_debug_program := p\<rparr> else t\<lparr>ti_program := p\<rparr>)"

definition get_program :: "bool \<Rightarrow> 'm tinst \<Rightarrow> 'm tprog option" where
  "get_program debug t = (if debug then ti_debug_program t else ti_program t)"

text \<open>\<open>ref\<close>: the second part waits for the main VM of the program found.\<close>

definition ref_ready :: "'m init_env \<Rightarrow> bool \<Rightarrow> 'm tprog \<Rightarrow> 'm tinst \<Rightarrow> ('m tinst \<times> 'm tprog option res) option" where
  "ref_ready E debug tp t =
     map_option (\<lambda>(tp, ok). (set_program debug (Some tp) t, Inr (if ok then Some tp else None))) (tprog_wait_for_main_vm E tp)"

definition tenant_ref :: "'m init_env \<Rightarrow> files \<Rightarrow> bool \<Rightarrow> 'm tinst \<Rightarrow> ('m tinst \<times> 'm tprog option res) option" where
  "tenant_ref E fs debug t =
     (case get_program debug t of
        Some tp \<Rightarrow> ref_ready E debug tp t
      | None \<Rightarrow>
          if debug then Some (t, Inr None)
          else case wait_guarded_initialize E fs t of
            None \<Rightarrow> None
          | Some (t, Inl e) \<Rightarrow> Some (t, Inl e)
          | Some (t, Inr None) \<Rightarrow> Some (t, Inr None)
          | Some (t, Inr (Some tp)) \<Rightarrow> ref_ready E debug tp t)"

section \<open>Reservations\<close>

text \<open>Reserving a slot from the queue of a node, or the timeout. None is that the caller still waits.\<close>

definition tprog_reserve :: "nat \<Rightarrow> nat \<Rightarrow> nat \<Rightarrow> bool \<Rightarrow> 'm tprog \<Rightarrow> ('m tprog \<times> nat res) option" where
  "tprog_reserve node i ctx soft_reset tp =
     (case pg_pool (tp_prog tp) of
        None \<Rightarrow> None
      | Some pool \<Rightarrow>
          (case reserve_vm node i ctx soft_reset pool of
             Some pool \<Rightarrow> Some (tp\<lparr>tp_prog := (tp_prog tp)\<lparr>pg_pool := Some pool\<rparr>\<rparr>, Inr i)
           | None \<Rightarrow>
               map_option (\<lambda>(pool, e). (tp\<lparr>tp_prog := (tp_prog tp)\<lparr>pg_pool := Some pool\<rparr>\<rparr>, Inl e)) (reserve_timeout node pool)))"

definition tprog_free :: "'m vm_ops \<Rightarrow> nat \<Rightarrow> nat \<Rightarrow> 'm tprog \<Rightarrow> 'm tprog option" where
  "tprog_free V node i tp =
     (case pg_pool (tp_prog tp) of
        None \<Rightarrow> None
      | Some pool \<Rightarrow> map_option (\<lambda>pool. tp\<lparr>tp_prog := (tp_prog tp)\<lparr>pg_pool := Some pool\<rparr>\<rparr>) (vm_free_function V node i pool))"

text \<open>
  \<open>temporary_vmreserve\<close>: the slot, or None for a null pointer. \<open>has_ws\<close> is whether the context has a
  workspace.
\<close>

definition temporary_vmreserve ::
    "'m init_env \<Rightarrow> files \<Rightarrow> nat \<Rightarrow> nat \<Rightarrow> nat \<Rightarrow> bool \<Rightarrow> bool \<Rightarrow> bool \<Rightarrow> 'm tinst \<Rightarrow> ('m tinst \<times> nat option) option" where
  "temporary_vmreserve E fs node i ctx has_ws debug soft_reset t =
     (case tenant_ref E fs debug t of
        None \<Rightarrow> None
      | Some (t, Inl e) \<Rightarrow> Some (t, None)
      | Some (t, Inr None) \<Rightarrow> Some (t, None)
      | Some (t, Inr (Some tp)) \<Rightarrow>
          if \<not> has_ws then Some (t, None)
          else map_option (\<lambda>(tp, r). (set_program debug (Some tp) t, case r of Inl e \<Rightarrow> None | Inr i \<Rightarrow> Some i))
                 (tprog_reserve node i ctx soft_reset tp))"

text \<open>
  \<open>vmreserve\<close> works on the tenant and on the pointer \<open>priv_task->priv\<close> of the request; \<open>ws_alloc\<close> is
  whether the workspace has room for the methods of the private data.
\<close>

definition vmreserve ::
    "'m init_env \<Rightarrow> files \<Rightarrow> nat \<Rightarrow> nat \<Rightarrow> nat \<Rightarrow> bool \<Rightarrow> bool \<Rightarrow> 'm tinst \<times> nat option \<Rightarrow> (('m tinst \<times> nat option) \<times> nat option) option" where
  "vmreserve E fs node i ctx ws_alloc debug s =
     (case snd s of
        Some slot \<Rightarrow> Some (s, Some slot)
      | None \<Rightarrow>
          (case tenant_ref E fs debug (fst s) of
             None \<Rightarrow> None
           | Some (t, Inl e) \<Rightarrow> Some ((t, None), None)
           | Some (t, Inr None) \<Rightarrow> Some ((t, None), None)
           | Some (t, Inr (Some tp)) \<Rightarrow>
               (case tprog_reserve node i ctx False tp of
                  None \<Rightarrow> None
                | Some (tp, Inl e) \<Rightarrow> Some ((set_program debug (Some tp) t, None), None)
                | Some (tp, Inr slot) \<Rightarrow>
                    if ws_alloc then Some ((set_program debug (Some tp) t, Some slot), Some slot)
                    else map_option (\<lambda>tp. ((set_program debug (Some tp) t, Some slot), None)) (tprog_free (ie_vm E) node slot tp))))"

section \<open>The table of tenants\<close>

text \<open>\<open>load_tenant\<close>: an exception is reported to Varnish, and the result is not looked at.\<close>

definition load_tenant :: "('j, 'm) tenv \<Rightarrow> tenant_conf \<Rightarrow> bool \<Rightarrow> 'm tenants \<Rightarrow> 'm tenants \<times> bool" where
  "load_tenant E conf initialize ts =
     (let hash = name_hash (t_name conf) in
      if map_of ts hash \<noteq> None then (ts, False)
      else
        let (t, e) = (if initialize then begin_initialize (te_init E) (te_fs E) False (tinst_new conf) else (tinst_new conf, None))
        in (ts @ [(hash, t)], e = None))"

definition is_tenant :: "'j json_ops \<Rightarrow> 'j \<Rightarrow> bool" where
  "is_tenant J obj \<longleftrightarrow> j_contains J obj ''group'' \<or> j_contains J obj ''filename'' \<or> j_contains J obj ''uri''"

definition opt_string :: "'j json_ops \<Rightarrow> 'j \<Rightarrow> string \<Rightarrow> string \<Rightarrow> string res" where
  "opt_string J obj key missing = (if j_contains J obj key then j_get_string J (j_at J obj key) else Inr missing)"

text \<open>One item of the first loop: the settings of a group, which is created when it is new.\<close>

definition init_group :: "('j, 'm) tenv \<Rightarrow> string \<times> 'j \<Rightarrow> (string \<rightharpoonup> tenant_group) stmt" where
  "init_group E it groups =
     (let grname = fst it; obj = snd it in
      if is_tenant (te_json E) obj then (groups, None)
      else
        let gr = (case groups grname of Some g \<Rightarrow> g | None \<Rightarrow> tenant_group_new grname);
            (gr, e) = configure_all (te_json E) (te_sys E) obj gr
        in (groups(grname \<mapsto> gr), e))"

text \<open>One item of the second loop: the configuration of a tenant, and whether it is to be started.\<close>

definition tenant_of_json :: "('j, 'm) tenv \<Rightarrow> (string \<rightharpoonup> tenant_group) \<Rightarrow> bool \<Rightarrow> string \<Rightarrow> 'j \<Rightarrow> (tenant_conf \<times> bool) res" where
  "tenant_of_json E groups initialize name obj =
     (let J = te_json E in
      bind_res (opt_string J obj ''group'' ''test'') (\<lambda>grname.
      case groups grname of
        None \<Rightarrow> Inl (RuntimeError (''Could not find group '' @ grname @ '' for '' @ name))
      | Some gr \<Rightarrow>
          (case configure_all J (te_sys E) obj gr of
             (g, Some e) \<Rightarrow> Inl e
           | (g, None) \<Rightarrow>
               bind_res (opt_string J obj ''filename'' []) (\<lambda>f.
               let filename = (if j_contains J obj ''filename'' then apply_dollar_vars (te_sys E) f else []) in
               bind_res (opt_string J obj ''sha256'' []) (\<lambda>sha256.
               bind_res (opt_string J obj ''md5'' []) (\<lambda>md5.
               bind_res (opt_string J obj ''key'' []) (\<lambda>key.
               bind_res (opt_string J obj ''uri'' []) (\<lambda>uri.
                 if filename = [] \<and> uri = []
                 then Inl (RuntimeError (''kvm: Unreachable program '' @ name @ '' has no URI or filename''))
                 else
                   bind_res (if j_contains J obj ''start'' \<and> j_is_boolean J (j_at J obj ''start'')
                             then j_get_bool J (j_at J obj ''start'') else Inr initialize) (\<lambda>start.
                     Inr (tenant_config_new E name filename key g uri sha256 md5, start))))))))))"

definition init_tenant :: "('j, 'm) tenv \<Rightarrow> (string \<rightharpoonup> tenant_group) \<Rightarrow> bool \<Rightarrow> string \<times> 'j \<Rightarrow> 'm tenants stmt" where
  "init_tenant E groups initialize it ts =
     (if \<not> is_tenant (te_json E) (snd it) then (ts, None)
      else case tenant_of_json E groups initialize (fst it) (snd it) of
        Inl e \<Rightarrow> (ts, Some e)
      | Inr (conf, start) \<Rightarrow> (fst (load_tenant E conf start ts), None))"

text \<open>The last loop: a tenant whose program fails loses it.\<close>

fun finish_tenants :: "'m init_env \<Rightarrow> 'm tenants \<Rightarrow> 'm tenants option" where
  "finish_tenants E [] = Some []"
| "finish_tenants E ((h, t) # ts) =
     (case tenant_wait_for_initialization E t of
        None \<Rightarrow> None
      | Some (t, e) \<Rightarrow> map_option (Cons (h, if e = None then t else t\<lparr>ti_program := None\<rparr>)) (finish_tenants E ts))"

definition init_tenants :: "('j, 'm) tenv \<Rightarrow> string \<Rightarrow> bool \<Rightarrow> 'm tenants \<Rightarrow> ('m tenants \<times> exn option) option" where
  "init_tenants E doc initialize ts =
     (case te_parse E doc of
        Inl e \<Rightarrow> Some (ts, Some e)
      | Inr j \<Rightarrow>
          let items = j_items (te_json E) j in
          (case stmt_for items (init_group E) [''test'' \<mapsto> tenant_group_new ''test''] of
             (groups, Some e) \<Rightarrow> Some (ts, Some e)
           | (groups, None) \<Rightarrow>
               (case stmt_for items (init_tenant E groups initialize) ts of
                  (ts, Some e) \<Rightarrow> Some (ts, Some e)
                | (ts, None) \<Rightarrow>
                    if \<not> initialize then Some (ts, None) else map_option (\<lambda>ts. (ts, None)) (finish_tenants (te_init E) ts))))"

definition kvm_init_tenants_str :: "('j, 'm) tenv \<Rightarrow> string \<Rightarrow> bool \<Rightarrow> 'm tenants \<Rightarrow> ('m tenants \<times> int) option" where
  "kvm_init_tenants_str E str init ts =
     map_option (\<lambda>(ts, e). (ts, if e = None then 1 else 0)) (init_tenants E str init ts)"

definition kvm_init_tenants_file :: "('j, 'm) tenv \<Rightarrow> string \<Rightarrow> bool \<Rightarrow> 'm tenants \<Rightarrow> ('m tenants \<times> int) option" where
  "kvm_init_tenants_file E filename init ts =
     (case file_loader (te_fs E) filename of
        Inl e \<Rightarrow> Some (ts, 0)
      | Inr doc \<Rightarrow> map_option (\<lambda>(ts, e). (ts, if e = None then 1 else 0)) (init_tenants E doc init ts))"

text \<open>The callback catches the exceptions of the configuration itself. The HTTP status is not looked at.\<close>

definition kvm_init_tenants_uri :: "('j, 'm) tenv \<Rightarrow> string \<Rightarrow> bool \<Rightarrow> 'm tenants \<Rightarrow> ('m tenants \<times> int) option" where
  "kvm_init_tenants_uri E uri init ts =
     (case kvm_curl_fetch (te_init E) uri []
             (\<lambda>status chunk s. (case s of None \<Rightarrow> None | Some ts \<Rightarrow> map_option fst (init_tenants E chunk init ts), None)) (Some ts) of
        (None, res) \<Rightarrow> None
      | (Some ts, res) \<Rightarrow> Some (ts, if res = 0 then 1 else 0))"

section \<open>Lookup and configuration\<close>

definition kvm_tenant_find :: "string option \<Rightarrow> 'm tenants \<Rightarrow> 'm tinst option" where
  "kvm_tenant_find name ts = (case name of None \<Rightarrow> None | Some n \<Rightarrow> map_of ts (name_hash n))"

definition kvm_tenant_find_key :: "string option \<Rightarrow> string \<Rightarrow> 'm tenants \<Rightarrow> 'm tinst option" where
  "kvm_tenant_find_key name key ts =
     (case kvm_tenant_find name ts of
        None \<Rightarrow> None
      | Some t \<Rightarrow> if t_key (ti_conf t) = key then Some t else None)"

fun kvm_tenant_foreach :: "(string \<Rightarrow> 'm tinst \<Rightarrow> int) option \<Rightarrow> 'm tenants \<Rightarrow> int" where
  "kvm_tenant_foreach None ts = 0"
| "kvm_tenant_foreach (Some f) ts = sum_list (map (\<lambda>(h, t). f (t_name (ti_conf t)) t) ts)"

definition kvm_tenant_configure :: "('j, 'm) tenv \<Rightarrow> string \<Rightarrow> 'm tinst \<Rightarrow> 'm tinst \<times> int" where
  "kvm_tenant_configure E str t =
     (case te_parse E str of
        Inl e \<Rightarrow> (t, 0)
      | Inr j \<Rightarrow>
          (case configure_all (te_json E) (te_sys E) j (t_group (ti_conf t)) of
             (g, e) \<Rightarrow> (t\<lparr>ti_conf := (ti_conf t)\<lparr>t_group := g\<rparr>\<rparr>, if e = None then 1 else 0)))"

definition kvm_tenant_arguments :: "string option list \<Rightarrow> 'm tinst \<Rightarrow> 'm tinst \<times> int" where
  "kvm_tenant_arguments strings t =
     (t\<lparr>ti_conf := (ti_conf t)\<lparr>t_group := (t_group (ti_conf t))\<lparr>g_main_arguments :=
        Some (map (\<lambda>s. case s of None \<Rightarrow> [] | Some s \<Rightarrow> s) strings)\<rparr>\<rparr>\<rparr>, 1)"

section \<open>Lemmas\<close>

text \<open>The table is well formed: no key twice, and every tenant is under the checksum of its name.\<close>

definition tenants_wf :: "'m tenants \<Rightarrow> bool" where
  "tenants_wf ts \<longleftrightarrow> distinct (map fst ts) \<and> (\<forall>(h, t) \<in> set ts. h = name_hash (t_name (ti_conf t)))"

text \<open>What loading never changes of the tenants that are there: their keys and names.\<close>

definition names_of :: "'m tenants \<Rightarrow> (u32 \<times> string) list" where
  "names_of ts = map (\<lambda>(h, t). (h, t_name (ti_conf t))) ts"

lemma names_of_append [simp]: "names_of (ts @ us) = names_of ts @ names_of us"
  by (simp add: names_of_def)

lemma names_of_single [simp]: "names_of [(h, t)] = [(h, t_name (ti_conf t))]"
  by (simp add: names_of_def)

lemma tenants_wf_names:
  "tenants_wf ts \<longleftrightarrow> distinct (map fst (names_of ts)) \<and> (\<forall>(h, n) \<in> set (names_of ts). h = name_hash n)"
proof -
  have "map fst (names_of ts) = map fst ts" by (induction ts) (auto simp: names_of_def)
  moreover have "(\<forall>(h, n) \<in> set (names_of ts). h = name_hash n) \<longleftrightarrow> (\<forall>(h, t) \<in> set ts. h = name_hash (t_name (ti_conf t)))"
    by (auto simp: names_of_def)
  ultimately show ?thesis by (simp add: tenants_wf_def)
qed

lemma allow_own_binary_name [simp]: "t_name (allow_own_binary conf) = t_name conf"
  by (simp add: allow_own_binary_def)

lemma pg_ten_program_local [simp]: "pg_ten (program_local conf fs elf st) = allow_own_binary conf"
  by (simp add: program_local_def prog_new_def)

lemma pg_request_program_local [simp]: "pg_request (program_local conf fs elf st) = elf"
  by (simp add: program_local_def prog_new_def)

lemma begin_initialize_name: "begin_initialize E fs debug t = (t', e) \<Longrightarrow> t_name (ti_conf t') = t_name (ti_conf t)"
  by (auto simp: begin_initialize_def Let_def split: if_splits sum.splits prod.splits)

lemma map_of_names: "map_of (names_of ts) h = map_option (\<lambda>t. t_name (ti_conf t)) (map_of ts h)"
  by (induction ts) (auto simp: names_of_def)

lemma load_tenant_names:
  "names_of (fst (load_tenant E conf start ts)) =
     (if map_of (names_of ts) (name_hash (t_name conf)) \<noteq> None then names_of ts
      else names_of ts @ [(name_hash (t_name conf), t_name conf)])"
  by (auto simp: load_tenant_def Let_def map_of_names tinst_new_def dest: begin_initialize_name split: prod.splits)

lemma tenants_wf_load: "tenants_wf ts \<Longrightarrow> tenants_wf (fst (load_tenant E conf start ts))"
  by (auto simp: tenants_wf_names load_tenant_names map_of_eq_None_iff)

lemma tenant_wait_name: "tenant_wait_for_initialization E t = Some (t', e) \<Longrightarrow> ti_conf t' = ti_conf t"
  by (auto simp: tenant_wait_for_initialization_def split: option.splits)

lemma finish_tenants_names: "finish_tenants E ts = Some ts' \<Longrightarrow> names_of ts' = names_of ts"
proof (induction E ts arbitrary: ts' rule: finish_tenants.induct)
  case (2 E h t ts)
  then obtain t' e us where "tenant_wait_for_initialization E t = Some (t', e)" "finish_tenants E ts = Some us"
    "ts' = (h, if e = None then t' else t'\<lparr>ti_program := None\<rparr>) # us"
    by (auto split: option.splits)
  with 2 tenant_wait_name [of E t t' e] show ?case by (auto simp: names_of_def)
qed simp

text \<open>Configuring adds tenants behind those that are there, whatever happens.\<close>

definition grown :: "'m tenants \<Rightarrow> 'm tenants \<Rightarrow> bool" where
  "grown ts ts' \<longleftrightarrow> tenants_wf ts' \<and> (\<exists>us. names_of ts' = names_of ts @ us)"

lemma grown_load: "grown ts0 ts \<Longrightarrow> grown ts0 (fst (load_tenant E conf start ts))"
  using tenants_wf_load [of ts E conf start] by (auto simp: grown_def load_tenant_names)

lemma grown_init_tenant: "stmt_inv (grown ts0) (init_tenant E groups start it)"
  by (rule stmt_invI) (auto simp: init_tenant_def intro: grown_load split: sum.splits prod.splits)

lemma stmt_inv_for: "(\<And>x. stmt_inv P (k x)) \<Longrightarrow> stmt_inv P (stmt_for xs k)"
  by (induction xs) (auto intro: sinv_intros)

lemma init_tenants_grown:
  assumes "tenants_wf ts" and "init_tenants E doc init ts = Some (ts', e)"
  shows "grown ts ts'"
proof (cases "te_parse E doc")
  case (Inl x)
  with assms show ?thesis by (auto simp: init_tenants_def grown_def)
next
  case (Inr j)
  let ?items = "j_items (te_json E) j"
  obtain groups x where g: "stmt_for ?items (init_group E) [''test'' \<mapsto> tenant_group_new ''test''] = (groups, x)" by fastforce
  obtain us y where u: "stmt_for ?items (init_tenant E groups init) ts = (us, y)" by fastforce
  have "grown ts ts" using assms(1) by (simp add: grown_def)
  with stmt_invD [OF stmt_inv_for [OF grown_init_tenant] u] have us: "grown ts us" by blast
  show ?thesis
  proof (cases "x = None \<and> y = None \<and> init")
    case True
    with assms(2) Inr g u have "finish_tenants (te_init E) us = Some ts'"
      by (auto simp: init_tenants_def Let_def)
    from finish_tenants_names [OF this] us show ?thesis by (auto simp: grown_def tenants_wf_names)
  next
    case False
    with assms Inr g u us show ?thesis
      by (auto simp: init_tenants_def Let_def grown_def split: option.splits if_splits)
  qed
qed

text \<open>The checksum tells apart names that differ in one character.\<close>

lemma char_byte_inj: "(of_nat (of_char c) :: u8) = of_nat (of_char d) \<Longrightarrow> c = d"
  by (drule arg_cong [of _ _ unat]) (simp add: unat_of_nat take_bit_nat_eq_self_iff)

lemma name_hash_char: "name_hash (xs @ c # ys) = name_hash (xs @ d # ys) \<Longrightarrow> c = d"
proof -
  let ?b = "\<lambda>c. of_nat (of_char c) :: u8" and ?f = "foldl (crc_byte crc32c_poly)"
  assume "name_hash (xs @ c # ys) = name_hash (xs @ d # ys)"
  then have "?f (crc_byte crc32c_poly (?f 0xFFFFFFFF (string_bytes xs)) (?b c)) (string_bytes ys) =
      ?f (crc_byte crc32c_poly (?f 0xFFFFFFFF (string_bytes xs)) (?b d)) (string_bytes ys)"
    by (simp add: name_hash_def crc32c_hw_def crc32c_hw_partial_byte string_bytes_def)
  from foldl_crc_inj [OF crc32c_poly_top this] have "?b c = ?b d" by (rule crc_byte_inj_byte [OF crc32c_poly_top])
  then show ?thesis by (rule char_byte_inj)
qed

lemma find_wf:
  assumes "tenants_wf ts"
  shows "(h, t) \<in> set ts \<Longrightarrow> kvm_tenant_find (Some (t_name (ti_conf t))) ts = Some t"
    and "kvm_tenant_find (Some n) ts = Some t \<Longrightarrow> name_hash n = name_hash (t_name (ti_conf t))"
  using assms by (auto simp: tenants_wf_def kvm_tenant_find_def dest: map_of_SomeD map_of_is_SomeI)

lemma grown_find:
  assumes "grown ts ts'" and "kvm_tenant_find (Some n) ts = Some t"
  shows "\<exists>t'. kvm_tenant_find (Some n) ts' = Some t' \<and> t_name (ti_conf t') = t_name (ti_conf t)"
proof -
  from assms obtain us where "names_of ts' = names_of ts @ us" by (auto simp: grown_def)
  moreover have "map_of (names_of ts) (name_hash n) = Some (t_name (ti_conf t))"
    using assms(2) by (simp add: map_of_names kvm_tenant_find_def)
  ultimately have "map_of (names_of ts') (name_hash n) = Some (t_name (ti_conf t))" by simp
  then show ?thesis by (auto simp: map_of_names kvm_tenant_find_def)
qed

subsection \<open>A concrete environment\<close>

definition tenv_demo :: "(json, vm_mem) tenv" where
  "tenv_demo =
     \<lparr>te_json = json_std,
      te_parse = (\<lambda>s. if s = [] then Inl (JsonError ''unexpected end of input'')
                      else Inr (JObject [(''demo'', JObject [(''uri'', JString ''http://a/program'')])])),
      te_sys = \<lparr>se_home = None, se_cwd = None\<rparr>, te_init = init_demo, te_fs = Map.empty, te_moved = (\<lambda>s. [])\<rparr>"

lemma tenv_demo_loads:
  "\<exists>t. init_tenants tenv_demo ''{}'' False [] = Some ([(name_hash ''demo'', t)], None) \<and> t_name (ti_conf t) = ''demo''"
  by (simp add: init_tenants_def tenv_demo_def json_std_def init_group_def is_tenant_def init_tenant_def tenant_of_json_def opt_string_def
      configure_all_def configure_group_def configure_key_def stmt_defs bind_res_def load_tenant_def tinst_new_def tenant_config_new_def
      json_str_def Let_def)

section \<open>Properties\<close>



text \<open>
  Names that are not configured can find a program: the lookup compares checksums and never the
  names, so that a request for \<open>pjrhmdny\<close> is served by the program \<open>tamblxmc\<close>, and both cannot be
  configured together.
\<close>

theorem name_collision_finds_tenant:
  "let conf = c\<lparr>t_name := ''tamblxmc''\<rparr>; ts = fst (load_tenant E conf False []) in
   kvm_tenant_find (Some ''pjrhmdny'') ts = Some (tinst_new conf) \<and>
   load_tenant E (d\<lparr>t_name := ''pjrhmdny''\<rparr>) start ts = (ts, False)"
proof -
  have "foldl (crc_byte crc32c_poly) 0xFFFFFFFF (string_bytes ''tamblxmc'') = foldl (crc_byte crc32c_poly) 0xFFFFFFFF (string_bytes ''pjrhmdny'')"
    by code_simp
  then have "name_hash ''tamblxmc'' = name_hash ''pjrhmdny''"
    by (simp add: name_hash_def crc32c_hw_def crc32c_hw_partial_byte)
  then show ?thesis by (simp add: load_tenant_def kvm_tenant_find_def Let_def)
qed



text \<open>
  An empty local file blocks a program for good: with a digest configured, computing the digest of
  an empty file throws, the program is not fetched although it has a URI, and no later request tries
  again, even when the file has been repaired.
\<close>

theorem empty_file_blocks_program:
  assumes "\<not> ti_started_init t" and "ti_program t = None" and "t_filename (ti_conf t) \<noteq> []" and "fs (t_filename (ti_conf t)) = Some []"
    and "t_sha256 (ti_conf t) \<noteq> []"
  shows "\<exists>t' e. tenant_ref E fs False t = Some (t', Inl e) \<and> tenant_ref E fs' False t' = Some (t', Inr None)"
proof -
  let ?t = "t\<lparr>ti_started_init := True\<rparr>"
  from assms(3-5) obtain e where "file_verified E fs (ti_conf t) = Inl e"
    by (simp add: file_verified_def create_sha256_from_file_def bind_res_def)
  with assms(1) have b: "begin_initialize E fs False t = (?t, Some e)" by (simp add: begin_initialize_def Let_def)
  with assms(1,2) have "tenant_ref E fs False t = Some (?t, Inl e)"
    by (simp add: tenant_ref_def get_program_def wait_guarded_initialize_def begin_async_initialize_def)
  moreover from assms(2) have "tenant_ref E fs' False ?t = Some (?t, Inr None)"
    by (simp add: tenant_ref_def get_program_def wait_guarded_initialize_def begin_async_initialize_def tenant_wait_for_initialization_def)
  ultimately show ?thesis by blast
qed

theorem empty_file_blocks_program_witness:
  "\<exists>t' e. tenant_ref init_demo [''/prog/demo'' \<mapsto> []] False (tinst_new (demo_conf\<lparr>t_sha256 := ''ab'', t_uri := ''http://a/program''\<rparr>)) = Some (t', Inl e) \<and>
     tenant_ref init_demo [''/prog/demo'' \<mapsto> ''elf''] False t' = Some (t', Inr None)"
  by (rule empty_file_blocks_program) (simp_all add: tinst_new_def demo_conf_def)


definition pool_demo :: "vm_mem pool" where
  "pool_demo = (pool_new demo_conf (machine_of (\<lambda>a. CHR ''a'', regs_zero)))
     \<lparr>pl_vms := [\<lparr>sl_mi = Some (machine_of (\<lambda>a. CHR ''a'', regs_zero)), sl_prog_ref = False\<rparr>], pl_queues := [[0], [], [], []]\<rparr>"

definition tinst_demo :: "vm_mem tinst" where
  "tinst_demo = (tinst_new demo_conf)\<lparr>ti_program := Some ((tprog_new ((prog_new demo_conf Map.empty)\<lparr>pg_complete := 1, pg_pool := Some pool_demo\<rparr>)
     (LocalTask False))\<lparr>tp_task := None\<rparr>)\<rparr>"


end
