(* ===== verification/Live_Update.thy ===== *)
theory Live_Update
  imports Tenants
begin

text \<open>
  Replacing a running program (\<^verbatim>\<open>lib/libkvm/live_update.cpp\<close>, \<^verbatim>\<open>tenant_instance.cpp\<close>,
  \<^verbatim>\<open>src/kvm/kvm_live_update.c\<close>): a new binary is started beside the old program, takes over the state
  of its storage VM, replaces it, and is stored on disk. The C file is the Varnish backend that takes
  the binary from the body of a request and answers with the outcome.
\<close>

section \<open>Transfer of state\<close>

text \<open>
  \<open>serialize_storage_state\<close> of the old and the new program. The old program throws when it has no
  storage; a missing storage of the new program is noticed after the old one has run.
\<close>

definition transfer_storage ::
    "'m exec_ops \<Rightarrow> nat option \<Rightarrow> u64 \<Rightarrow> u64 \<Rightarrow> 'm tprog \<Rightarrow> 'm tprog \<Rightarrow> ('m tprog \<times> 'm tprog) \<times> int res" where
  "transfer_storage X ctx ser deser old new =
     (let conf = pg_ten (tp_prog old) in
      case pg_storage_vm (tp_prog old) of
        None \<Rightarrow> ((old, new), Inl (RuntimeError ''Storage not initialized''))
      | Some so \<Rightarrow>
          (case pg_storage_vm (tp_prog new) of
             None \<Rightarrow>
               let so = fst (x_run X (VCall ser [] (g_max_storage_time (t_group conf))) (so\<lparr>mi_ctx := ctx\<rparr>)) in
               ((old\<lparr>tp_prog := (tp_prog old)\<lparr>pg_storage_vm := Some so\<rparr>\<rparr>, new), Inr (- 1))
           | Some sn \<Rightarrow>
               (case live_update_call X conf ctx ser deser so sn of
                  (so, sn, res) \<Rightarrow>
                    ((old\<lparr>tp_prog := (tp_prog old)\<lparr>pg_storage_vm := Some so\<rparr>\<rparr>,
                      new\<lparr>tp_prog := (tp_prog new)\<lparr>pg_storage_vm := Some sn\<rparr>\<rparr>), Inr res))))"

definition serialize_storage_state :: "'m exec_ops \<Rightarrow> nat option \<Rightarrow> ('m tprog \<times> 'm tprog) stmt" where
  "serialize_storage_state X ctx s =
     stmt_with (entry_at (pg_entries (tp_prog (fst s))) (entry_index LIVEUPD_SERIALIZE)) (\<lambda>ser.
       if ser = 0 then stmt_skip
       else
         stmt_with (entry_at (pg_entries (tp_prog (snd s))) (entry_index LIVEUPD_DESERIALIZE)) (\<lambda>deser.
           if deser = 0 then stmt_skip
           else (\<lambda>(old, new).
             case transfer_storage X ctx ser deser old new of
               (s, Inl e) \<Rightarrow> (s, Some e)
             | ((old, new), Inr res) \<Rightarrow> ((old, new\<lparr>tp_transfer_bytes := res\<rparr>), None)))) s"

section \<open>Replacing the program\<close>

text \<open>Whether the main VM of a program is a debug VM decides which of the two programs is replaced.\<close>

definition main_is_debug :: "'m tprog \<Rightarrow> bool" where
  "main_is_debug tp = (case pg_main (tp_prog tp) of None \<Rightarrow> False | Some mi \<Rightarrow> mi_is_debug mi)"

definition commit_program_live :: "'m exec_ops \<Rightarrow> nat option \<Rightarrow> 'm tprog \<Rightarrow> 'm tinst stmt" where
  "commit_program_live X ctx new t =
     (let debug = main_is_debug new in
      case get_program debug t of
        None \<Rightarrow> (set_program debug (Some new) t, None)
      | Some cur \<Rightarrow>
          (case serialize_storage_state X ctx (cur, new) of
             ((cur, new), Some e) \<Rightarrow> (set_program debug (Some cur) t, Some e)
           | ((cur, new), None) \<Rightarrow> (set_program debug (Some (new\<lparr>tp_live_updates := tp_live_updates cur + 1\<rparr>)) t, None)))"

text \<open>\<open>reload_program_live\<close>: the program is unloaded, and loaded again at once if it has storage.\<close>

definition reload_program_live :: "'m init_env \<Rightarrow> files \<Rightarrow> 'm exec_ops \<Rightarrow> nat option \<Rightarrow> bool \<Rightarrow> 'm tinst \<Rightarrow> ('m tinst \<times> exn option) option" where
  "reload_program_live E fs X ctx debug t =
     (let old = get_program debug t; t = (set_program debug None t)\<lparr>ti_started_init := False\<rparr> in
      case old of
        None \<Rightarrow> Some (t, None)
      | Some old \<Rightarrow>
          if pg_storage (tp_prog old) = None then Some (t, None)
          else case tenant_ref E fs debug t of
            None \<Rightarrow> None
          | Some (t, Inl e) \<Rightarrow> Some (t, Some e)
          | Some (t, Inr None) \<Rightarrow> Some (t, None)
          | Some (t, Inr (Some new)) \<Rightarrow>
              (case serialize_storage_state X ctx (old, new) of
                 ((old, new), e) \<Rightarrow> Some (set_program debug (Some new) t, e)))"

section \<open>The update\<close>

record update_result =
  ur_output :: string
  ur_success :: bool

fun contains_str :: "string \<Rightarrow> string \<Rightarrow> bool" where
  "contains_str pat [] \<longleftrightarrow> pat = []"
| "contains_str pat (c # cs) \<longleftrightarrow> starts_with pat (c # cs) \<or> contains_str pat cs"

definition stored_msg :: string where
  "stored_msg = ''Update successful (stored)'' @ [CHR 0x0A]"

definition not_stored_msg :: string where
  "not_stored_msg = ''Update successful (not stored)'' @ [CHR 0x0A]"

text \<open>The end of the update: debug programs and programs without a file are not stored.\<close>

definition store_update :: "'m init_env \<Rightarrow> (exn \<Rightarrow> string) \<Rightarrow> bool \<Rightarrow> string \<Rightarrow> string \<Rightarrow> files \<Rightarrow> files \<times> update_result" where
  "store_update E what debug filename binary fs =
     (if \<not> debug \<and> filename \<noteq> [] then
        if hd filename \<noteq> CHR ''/'' \<or> contains_str ''://'' filename then (fs, \<lparr>ur_output = not_stored_msg, ur_success = True\<rparr>)
        else case file_writer E filename binary fs of
          (fs, Inl e) \<Rightarrow> (fs, \<lparr>ur_output = what e, ur_success = False\<rparr>)
        | (fs, Inr False) \<Rightarrow>
            (fs, \<lparr>ur_output = take 799 (''Could not write '' @ [CHR 0x27] @ filename @ [CHR 0x27]), ur_success = False\<rparr>)
        | (fs, Inr True) \<Rightarrow> (fs, \<lparr>ur_output = stored_msg, ur_success = True\<rparr>)
      else (fs, \<lparr>ur_output = stored_msg, ur_success = True\<rparr>))"

text \<open>\<open>kvm_live_update\<close>; \<open>what\<close> is the text of an exception. None is a start-up that does not end.\<close>

definition kvm_live_update ::
    "'m init_env \<Rightarrow> 'm exec_ops \<Rightarrow> (exn \<Rightarrow> string) \<Rightarrow> nat option \<Rightarrow> string \<Rightarrow> bool \<Rightarrow> 'm tinst \<times> files \<Rightarrow>
       (('m tinst \<times> files) \<times> update_result) option" where
  "kvm_live_update E X what ctx data debug s =
     (if data = [] then Some (s, \<lparr>ur_output = ''Empty file received'', ur_success = False\<rparr>)
      else
        let p = program_local (ti_conf (fst s)) (snd s) data data; t = (fst s)\<lparr>ti_conf := pg_ten p\<rparr> in
        case tprog_wait_for_initialization E (tprog_new p (LocalTask debug)) of
          None \<Rightarrow> None
        | Some (tp, Inl e) \<Rightarrow> Some ((t, pg_fs (tp_prog tp)), \<lparr>ur_output = what e, ur_success = False\<rparr>)
        | Some (tp, Inr code) \<Rightarrow>
            (case commit_program_live X ctx tp t of
               (t, Some e) \<Rightarrow> Some ((t, pg_fs (tp_prog tp)), \<lparr>ur_output = what e, ur_success = False\<rparr>)
             | (t, None) \<Rightarrow>
                 (case store_update E what debug (request_program_filename (ti_conf t)) (pg_request (tp_prog tp)) (pg_fs (tp_prog tp)) of
                    (fs, r) \<Rightarrow> Some ((t, fs), r))))"

section \<open>The updater backend\<close>

text \<open>\<open>struct vmod_kvm_updater\<close>; the tenant is the key under which the table has it.\<close>

record updater =
  ku_max_binary_size :: int
  ku_tenant :: u32
  ku_is_debug :: bool

definition print_str :: "string option \<Rightarrow> string" where
  "print_str s = (case s of None \<Rightarrow> ''(null)'' | Some s \<Rightarrow> s)"

text \<open>
  \<open>do_live_update\<close>: an error is reported to Varnish. \<open>ws\<close> is whether the workspace has room for the
  updater. The inner director may fail to be allocated, which is reported as well, but does not change
  what is returned.
\<close>

definition do_live_update ::
    "string option \<Rightarrow> string option \<Rightarrow> int \<Rightarrow> bool \<Rightarrow> bool \<Rightarrow> 'm tenants \<Rightarrow> string + updater" where
  "do_live_update tenant key max_size debug ws ts =
     (case key of
        None \<Rightarrow> Inl ''KVM: Missing key''
      | Some k \<Rightarrow>
          (case kvm_tenant_find_key tenant k ts of
             None \<Rightarrow> Inl (''KVM: Could not find tenant: '' @ print_str tenant @ '', or wrong key: '' @ k)
           | Some t \<Rightarrow>
               if debug \<and> \<not> g_allow_debug (t_group (ti_conf t)) then Inl (''KVM: Tenant not allowed to live-debug: '' @ print_str tenant)
               else if \<not> ws then Inl ''KVM: Out of workspace for live update''
               else Inr \<lparr>ku_max_binary_size = max_size, ku_tenant = name_hash (the tenant), ku_is_debug = debug\<rparr>))"

definition vmod_live_update :: "string option \<Rightarrow> string option \<Rightarrow> int \<Rightarrow> bool \<Rightarrow> 'm tenants \<Rightarrow> string + updater" where
  "vmod_live_update tenant key max_size ws ts = do_live_update tenant key max_size False ws ts"

definition vmod_live_debug :: "string option \<Rightarrow> string option \<Rightarrow> int \<Rightarrow> bool \<Rightarrow> 'm tenants \<Rightarrow> string + updater" where
  "vmod_live_debug tenant key max_size ws ts = do_live_update tenant key max_size True ws ts"

text \<open>An update of one tenant of the table.\<close>

definition update_tenant ::
    "'m init_env \<Rightarrow> 'm exec_ops \<Rightarrow> (exn \<Rightarrow> string) \<Rightarrow> nat option \<Rightarrow> string \<Rightarrow> bool \<Rightarrow> u32 \<Rightarrow> 'm tenants \<times> files \<Rightarrow>
       (('m tenants \<times> files) \<times> update_result) option" where
  "update_tenant E X what ctx data debug h s =
     (case map_of (fst s) h of
        None \<Rightarrow> None
      | Some t \<Rightarrow>
          map_option (\<lambda>((t, fs), r). ((map (\<lambda>(k, u). if k = h then (k, t) else (k, u)) (fst s), fs), r))
            (kvm_live_update E X what ctx data debug (t, snd s)))"

text \<open>
  \<open>kvm_updater_be_gethdrs\<close>: the body arrives in pieces. The result is the return value, the response
  (status and length of the content) if one has been written, and the body of the response. \<open>ws_htc\<close>
  and \<open>ws_copy\<close> are whether the workspace has room for the connection and for the output.
\<close>

record updater_response =
  up_ret :: int
  up_response :: "(nat \<times> nat option) option"
  up_body :: "string option"

definition kvm_updater_be_gethdrs ::
    "'m init_env \<Rightarrow> 'm exec_ops \<Rightarrow> (exn \<Rightarrow> string) \<Rightarrow> nat option \<Rightarrow> bool \<Rightarrow> bool \<Rightarrow> updater \<Rightarrow> string list \<Rightarrow> 'm tenants \<times> files \<Rightarrow>
       (('m tenants \<times> files) \<times> updater_response) option" where
  "kvm_updater_be_gethdrs E X what ctx ws_htc ws_copy ku pieces s =
     (let data = concat pieces in
      if int (length data) > ku_max_binary_size ku \<and> ku_max_binary_size ku \<noteq> 0
      then Some (s, \<lparr>up_ret = - 1, up_response = Some (503, None), up_body = None\<rparr>)
      else if \<not> ws_htc then Some (s, \<lparr>up_ret = - 1, up_response = None, up_body = None\<rparr>)
      else
        map_option (\<lambda>(s, r).
            (s, if ws_copy
                then \<lparr>up_ret = 0, up_response = Some (201, Some (length (ur_output r))), up_body = Some (ur_output r)\<rparr>
                else \<lparr>up_ret = - 1, up_response = Some (503, None), up_body = None\<rparr>))
          (update_tenant E X what ctx data (ku_is_debug ku) (ku_tenant ku) s))"

text \<open>The fetch processor: one pull of at most \<open>lp\<close> bytes, and pulls of the given sizes until the end.\<close>

definition updater_pull :: "nat \<Rightarrow> string \<Rightarrow> string \<times> string \<times> vfp_status" where
  "updater_pull lp s = (let len = min (length s) lp in (take len s, drop len s, if length s - len \<noteq> 0 then VFP_OK else VFP_END))"

fun updater_fetch :: "nat list \<Rightarrow> string \<Rightarrow> string \<times> bool" where
  "updater_fetch [] s = ([], False)"
| "updater_fetch (lp # lps) s =
     (case updater_pull lp s of
        (out, rest, st) \<Rightarrow>
          if st = VFP_END then (out, True) else (case updater_fetch lps rest of (out', e) \<Rightarrow> (out @ out', e)))"

text \<open>\<open>vmod_live_update_file\<close>: the whole file is read. A file of no bytes is reported as empty by the update.\<close>

definition vmod_live_update_file ::
    "'m init_env \<Rightarrow> 'm exec_ops \<Rightarrow> (exn \<Rightarrow> string) \<Rightarrow> nat option \<Rightarrow> string option \<Rightarrow> string \<Rightarrow> 'm tenants \<times> files \<Rightarrow>
       (('m tenants \<times> files) \<times> bool) option" where
  "vmod_live_update_file E X what ctx tenant filename s =
     (case kvm_tenant_find tenant (fst s) of
        None \<Rightarrow> Some (s, False)
      | Some t \<Rightarrow>
          (case snd s filename of
             None \<Rightarrow> Some (s, False)
           | Some data \<Rightarrow>
               map_option (\<lambda>(s, r). (s, ur_success r)) (update_tenant E X what ctx data False (name_hash (the tenant)) s)))"

section \<open>Lemmas\<close>

text \<open>What a transfer of state leaves alone: everything but the storage VM and the counters.\<close>

definition tprog_core :: "'m tprog \<Rightarrow> 'm prog \<times> init_task option \<times> int res option" where
  "tprog_core tp = ((tp_prog tp)\<lparr>pg_storage_vm := None\<rparr>, tp_task tp, tp_future tp)"

lemma tprog_core_fields:
  assumes "tprog_core tp = tprog_core tp'"
  shows "pg_request (tp_prog tp) = pg_request (tp_prog tp')" and "pg_main (tp_prog tp) = pg_main (tp_prog tp')"
    and "wait_for_main_vm (tp_prog tp) = wait_for_main_vm (tp_prog tp')" and "pg_fs (tp_prog tp) = pg_fs (tp_prog tp')"
    and "pg_pool (tp_prog tp) = pg_pool (tp_prog tp')" and "tp_task tp = tp_task tp'"
proof -
  from assms have e: "(tp_prog tp)\<lparr>pg_storage_vm := None\<rparr> = (tp_prog tp')\<lparr>pg_storage_vm := None\<rparr>" by (simp add: tprog_core_def)
  from arg_cong [OF e, of pg_request] arg_cong [OF e, of pg_main] arg_cong [OF e, of pg_fs]
    arg_cong [OF e, of pg_complete] arg_cong [OF e, of pg_locked] arg_cong [OF e, of pg_pool]
  show "pg_request (tp_prog tp) = pg_request (tp_prog tp')" "pg_main (tp_prog tp) = pg_main (tp_prog tp')"
    "wait_for_main_vm (tp_prog tp) = wait_for_main_vm (tp_prog tp')" "pg_fs (tp_prog tp) = pg_fs (tp_prog tp')"
    "pg_pool (tp_prog tp) = pg_pool (tp_prog tp')"
    by (simp_all add: wait_for_main_vm_def)
  show "tp_task tp = tp_task tp'" using assms by (simp add: tprog_core_def)
qed

lemma transfer_storage_core:
  "transfer_storage X ctx ser deser old new = ((old', new'), r) \<Longrightarrow>
     tprog_core old' = tprog_core old \<and> tprog_core new' = tprog_core new \<and>
     tp_live_updates old' = tp_live_updates old \<and> tp_live_updates new' = tp_live_updates new"
  by (auto simp: transfer_storage_def tprog_core_def Let_def split: option.splits prod.splits)

lemma serialize_core:
  assumes "serialize_storage_state X ctx (old, new) = ((old', new'), e)"
  shows "tprog_core old' = tprog_core old \<and> tprog_core new' = tprog_core new \<and>
     tp_live_updates old' = tp_live_updates old \<and> tp_live_updates new' = tp_live_updates new"
proof -
  have c: "tprog_core (tp\<lparr>tp_transfer_bytes := n\<rparr>) = tprog_core tp" for tp :: "'m tprog" and n by (simp add: tprog_core_def)
  show ?thesis
    using assms transfer_storage_core
    by (auto simp: serialize_storage_state_def stmt_with_def stmt_skip_def stmt_throw_def tprog_core_def
        split: sum.splits if_splits prod.splits) (fastforce simp: tprog_core_def dest: transfer_storage_core)+
qed

lemma get_set_program [simp]:
  "get_program d (set_program d p t) = p" "get_program (\<not> d) (set_program d p t) = get_program (\<not> d) t"
  by (simp_all add: get_program_def set_program_def)

lemma get_program_conf [simp]: "get_program d (t\<lparr>ti_conf := c\<rparr>) = get_program d t"
  by (simp add: get_program_def)

lemma ti_conf_set_program [simp]: "ti_conf (set_program d p t) = ti_conf t"
  by (simp add: set_program_def)

text \<open>A program whose initialization has been waited for with success serves requests with its binary.\<close>

definition in_service :: "'m tprog \<Rightarrow> bool" where
  "in_service tp \<longleftrightarrow> tp_task tp = None \<and> wait_for_main_vm (tp_prog tp) = Some True \<and>
     (\<exists>pool. pg_pool (tp_prog tp) = Some pool \<and> serving pool)"

lemma in_service_core: "tprog_core tp = tprog_core tp' \<Longrightarrow> in_service tp = in_service tp'"
  using tprog_core_fields [of tp tp'] by (simp add: in_service_def)

lemma in_service_live_updates [simp]: "in_service (tp\<lparr>tp_live_updates := n\<rparr>) = in_service tp"
  by (simp add: in_service_def)

lemma local_wait_ok:
  assumes "tprog_wait_for_initialization E (tprog_new (program_local conf fs data st) (LocalTask debug)) = Some (tp, Inr code)"
  shows "in_service tp" and "pg_request (tp_prog tp) = data" and "tp_live_updates tp = 0"
proof -
  let ?p = "program_local conf fs data st :: 'a prog"
  from assms obtain p' where b: "begin_initialization (E\<lparr>ie_debug := debug\<rparr>) ?p = Some (p', None)" and tp: "tp_prog tp = p'" "tp_live_updates tp = 0" "tp_task tp = None"
    by (auto simp: tprog_wait_for_initialization_def run_task_def tprog_new_def local_task_def wait_for_initialization_def
        split: option.splits sum.splits if_splits)
  have "pg_locked ?p" "\<not> pg_unlocked_twice ?p" "pg_complete ?p = 0" by (simp_all add: program_local_def prog_new_def)
  note begin_initialization_ok [OF b this]
  with tp show "in_service tp" "pg_request (tp_prog tp) = data" "tp_live_updates tp = 0" by (auto simp: in_service_def)
qed

text \<open>The new program has been put in place: it serves requests with the new binary, in the place its main VM belongs to.\<close>

definition installed :: "string \<Rightarrow> 'm tinst \<Rightarrow> 'm tinst \<Rightarrow> bool" where
  "installed data t t' \<longleftrightarrow>
     (\<exists>tp. let d = main_is_debug tp in
        get_program d t' = Some tp \<and> get_program (\<not> d) t' = get_program (\<not> d) t \<and>
        pg_request (tp_prog tp) = data \<and> in_service tp \<and>
        tp_live_updates tp = (case get_program d t of None \<Rightarrow> 0 | Some cur \<Rightarrow> tp_live_updates cur + 1))"

text \<open>Both programs are as they were, but for the storage VMs.\<close>

definition programs_kept :: "'m tinst \<Rightarrow> 'm tinst \<Rightarrow> bool" where
  "programs_kept t t' \<longleftrightarrow> (\<forall>d. map_option tprog_core (get_program d t') = map_option tprog_core (get_program d t))"

lemma programs_kept_conf: "programs_kept t (t\<lparr>ti_conf := c\<rparr>)"
  by (simp add: programs_kept_def)

lemma all_bool_from: "\<lbrakk>P d; P (\<not> d)\<rbrakk> \<Longrightarrow> \<forall>b. P b"
  by (cases d) (auto simp: all_bool_eq)

lemma commit_cases:
  assumes c: "commit_program_live X ctx new t = (t', e)" and ok: "in_service new"
    and data: "pg_request (tp_prog new) = data" and fresh: "tp_live_updates new = 0"
  shows "ti_conf t' = ti_conf t \<and> (if e = None then installed data t t' else programs_kept t t')"
proof (cases "get_program (main_is_debug new) t")
  case None
  with c have "t' = set_program (main_is_debug new) (Some new) t" "e = None" by (simp_all add: commit_program_live_def)
  with None ok data fresh show ?thesis unfolding installed_def by (auto simp: Let_def intro!: exI [of _ new])
next
  case (Some cur)
  obtain cur' new' x where s: "serialize_storage_state X ctx (cur, new) = ((cur', new'), x)" by (metis surj_pair)
  note core = serialize_core [OF s]
  then have debug: "main_is_debug (new'\<lparr>tp_live_updates := n\<rparr>) = main_is_debug new" for n
    using tprog_core_fields(2) [of new' new] by (simp add: main_is_debug_def)
  show ?thesis
  proof (cases x)
    case None
    let ?tp = "new'\<lparr>tp_live_updates := tp_live_updates cur' + 1\<rparr>"
    from c Some s None have t': "t' = set_program (main_is_debug new) (Some ?tp) t" "e = None"
      by (simp_all add: commit_program_live_def)
    have "pg_request (tp_prog ?tp) = data" "in_service ?tp"
      using core tprog_core_fields [of new' new] in_service_core [of new' new] ok data by simp_all
    moreover have "tp_live_updates ?tp = tp_live_updates cur + 1" using core by simp
    ultimately have "installed data t t'"
      unfolding installed_def by (intro exI [of _ ?tp]) (simp add: debug t' Some)
    with t' show ?thesis by simp
  next
    case (Some y)
    with c \<open>get_program _ t = Some cur\<close> s have t': "t' = set_program (main_is_debug new) (Some cur') t" "e = Some y"
      by (simp_all add: commit_program_live_def)
    have "programs_kept t t'" unfolding programs_kept_def
      by (rule all_bool_from [of _ "main_is_debug new"]) (use t' core \<open>get_program _ t = Some cur\<close> in simp_all)
    with t' show ?thesis by simp
  qed
qed

lemma allow_own_binary_filename [simp]: "t_filename (allow_own_binary conf) = t_filename conf"
  by (simp add: allow_own_binary_def)

lemma store_update_fails: "store_update E what debug f b fs = (fs', r) \<Longrightarrow> \<not> ur_success r \<Longrightarrow> \<not> debug \<and> f \<noteq> []"
  by (auto simp: store_update_def split: if_splits)

lemma installed_conf: "installed data (t\<lparr>ti_conf := c\<rparr>) t' = installed data t t'"
  by (simp add: installed_def)

lemma programs_kept_conf_left: "programs_kept (t\<lparr>ti_conf := c\<rparr>) t' = programs_kept t t'"
  by (simp add: programs_kept_def)

text \<open>The shape of every update that returns.\<close>

lemma kvm_live_update_cases:
  assumes "kvm_live_update E X what ctx data debug (t, fs) = Some ((t', fs'), r)"
  obtains (failed) "\<not> ur_success r" "programs_kept t t'"
  | (committed) fs1 where "installed data t t'" "ti_conf t' = allow_own_binary (ti_conf t)" "data \<noteq> []"
      "store_update E what debug (t_filename (ti_conf t)) data fs1 = (fs', r)"
proof -
  let ?p = "program_local (ti_conf t) fs data data" and ?t = "t\<lparr>ti_conf := allow_own_binary (ti_conf t)\<rparr>"
  show ?thesis
  proof (cases "data = []")
    case True
    with assms show ?thesis by (intro failed) (auto simp: kvm_live_update_def programs_kept_def)
  next
    case False
    with assms obtain tp res where w: "tprog_wait_for_initialization E (tprog_new ?p (LocalTask debug)) = Some (tp, res)"
      by (auto simp: kvm_live_update_def Let_def split: option.splits)
    show ?thesis
    proof (cases res)
      case (Inl x)
      with assms False w show ?thesis by (intro failed) (auto simp: kvm_live_update_def Let_def programs_kept_conf)
    next
      case (Inr code)
      note ok = local_wait_ok [OF w [unfolded Inr]]
      obtain t1 e where c: "commit_program_live X ctx tp ?t = (t1, e)" by fastforce
      note cc = commit_cases [OF c ok]
      show ?thesis
      proof (cases e)
        case None
        obtain fs2 r2 where s: "store_update E what debug (request_program_filename (ti_conf t1)) (pg_request (tp_prog tp)) (pg_fs (tp_prog tp)) = (fs2, r2)"
          by fastforce
        with assms False w Inr c None have "t' = t1" "fs' = fs2" "r = r2" by (auto simp: kvm_live_update_def Let_def)
        with s cc None False ok show ?thesis
          by (intro committed [of "pg_fs (tp_prog tp)"]) (auto simp: installed_conf request_program_filename_def)
      next
        case (Some y)
        with assms False w Inr c have "t' = t1" "\<not> ur_success r" by (auto simp: kvm_live_update_def Let_def)
        with cc Some show ?thesis by (intro failed) (auto simp: programs_kept_conf_left)
      qed
    qed
  qed
qed

subsection \<open>A concrete update\<close>

definition update_demo :: "vm_mem init_env" where
  "update_demo = init_demo\<lparr>ie_write := (\<lambda>path c. Some (length c))\<rparr>"

lemma update_demo_starts:
  "\<exists>tp. tprog_wait_for_initialization update_demo (tprog_new (program_local demo_conf fs elf_demo st) (LocalTask False)) = Some (tp, Inr 0)"
proof -
  have e: "update_demo\<lparr>ie_debug := False\<rparr> = update_demo" by (simp add: update_demo_def init_demo_def)
  obtain p' mi where b: "begin_initialization update_demo (program_local demo_conf fs elf_demo st) = Some (p', None)"
    and m: "pg_main p' = Some mi" "mi_waiting mi"
    using init_demo_starts unfolding update_demo_def by blast
  from begin_initialization_ok(5) [OF b] have "\<not> pg_locked p'" by (simp add: program_local_def prog_new_def)
  with b m e show ?thesis
    by (simp add: tprog_wait_for_initialization_def run_task_def tprog_new_def local_task_def wait_for_initialization_def)
qed

lemma update_demo_stores: "\<exists>fs' r. store_update update_demo what debug f b fs = (fs', r) \<and> ur_success r"
  by (simp add: store_update_def file_writer_def update_demo_def init_demo_def)

lemma update_demo_succeeds:
  "\<exists>t' fs' r. kvm_live_update update_demo (exec_mem run_timeout) (\<lambda>e. []) None elf_demo False (tinst_new demo_conf, Map.empty) = Some ((t', fs'), r) \<and>
     ur_success r"
proof -
  obtain tp where w: "tprog_wait_for_initialization update_demo (tprog_new (program_local demo_conf Map.empty elf_demo elf_demo) (LocalTask False)) =
      Some (tp, Inr 0)" using update_demo_starts by blast
  let ?t = "(tinst_new demo_conf :: vm_mem tinst)\<lparr>ti_conf := allow_own_binary demo_conf\<rparr>"
  have "get_program b ?t = None" for b by (simp add: get_program_def tinst_new_def)
  then have c: "commit_program_live (exec_mem run_timeout) None tp ?t = (set_program (main_is_debug tp) (Some tp) ?t, None)"
    by (simp add: commit_program_live_def)
  obtain fs' r where s: "store_update update_demo (\<lambda>e. []) False
      (request_program_filename (allow_own_binary demo_conf)) (pg_request (tp_prog tp)) (pg_fs (tp_prog tp)) = (fs', r)" "ur_success r"
    using update_demo_stores by blast
  have "elf_demo \<noteq> []" "ti_conf (tinst_new demo_conf :: vm_mem tinst) = demo_conf" by (simp_all add: elf_demo_def tinst_new_def)
  with w c s show ?thesis by (simp add: kvm_live_update_def)
qed

section \<open>Properties\<close>






text \<open>The answer to an update is delivered by a processor that announces the end with the last bytes.\<close>

definition answer_pull :: "nat \<Rightarrow> string \<Rightarrow> (string \<times> string \<times> bool) option" where
  "answer_pull room s = (case updater_pull room s of (out, rest, st) \<Rightarrow> Some (rest, out, st = VFP_END))"

interpretation answer: prompt_processor answer_pull "\<lambda>s. s" "\<lambda>s. True"
  by unfold_locales (auto simp: answer_pull_def updater_pull_def Let_def min_def split: if_splits)

lemma updater_fetch_drain: "drain answer_pull s lps = Some (updater_fetch lps s)"
  by (induction lps s rule: updater_fetch.induct) (auto simp: answer_pull_def split: prod.splits)

text \<open>
  C33. The answer to an update is delivered completely: whatever the sizes of the pieces Varnish asks
  for, as long as together they are enough, the pulls end and give exactly the output that was
  announced.
\<close>

theorem update_answer_delivered:
  assumes "length out \<le> sum_list lps" and "lps \<noteq> []"
  shows "updater_fetch lps out = (out, True)"
  using answer.drain_exact [of out lps] assms by (simp add: updater_fetch_drain)

theorem update_answer_delivered_witness:
  "updater_fetch [4, 4, 20] ''Empty file received'' = (''Empty file received'', True)"
  by (rule update_answer_delivered) simp_all

text \<open>
  The status of the answer does not tell whether the update succeeded: every update that was
  attempted and whose output fits the workspace is answered with status 201.
\<close>

theorem failed_update_is_created:
  assumes "update_tenant E X what ctx (concat pieces) (ku_is_debug ku) (ku_tenant ku) s = Some (s', r)" and "ku_max_binary_size ku = 0"
  shows "kvm_updater_be_gethdrs E X what ctx True True ku pieces s =
    Some (s', \<lparr>up_ret = 0, up_response = Some (201, Some (length (ur_output r))), up_body = Some (ur_output r)\<rparr>)"
  using assms by (simp add: kvm_updater_be_gethdrs_def Let_def)

theorem failed_update_is_created_witness:
  "let ts = [(name_hash ''demo'', tinst_new demo_conf)] in
   update_tenant init_demo (exec_mem run_timeout) (\<lambda>e. []) None (concat []) False (name_hash ''demo'') (ts, Map.empty) =
     Some ((ts, Map.empty), \<lparr>ur_output = ''Empty file received'', ur_success = False\<rparr>) \<and>
   kvm_updater_be_gethdrs init_demo (exec_mem run_timeout) (\<lambda>e. []) None True True
     \<lparr>ku_max_binary_size = 0, ku_tenant = name_hash ''demo'', ku_is_debug = False\<rparr> [] (ts, Map.empty) =
     Some ((ts, Map.empty), \<lparr>up_ret = 0, up_response = Some (201, Some 19), up_body = Some ''Empty file received''\<rparr>)"
proof -
  let ?ku = "\<lparr>ku_max_binary_size = 0, ku_tenant = name_hash ''demo'', ku_is_debug = False\<rparr>"
  let ?ts = "[(name_hash ''demo'', tinst_new demo_conf)] :: vm_mem tenants"
  have u: "update_tenant init_demo (exec_mem run_timeout) (\<lambda>e. []) None (concat []) (ku_is_debug ?ku) (ku_tenant ?ku) (?ts, Map.empty) =
     Some ((?ts, Map.empty), \<lparr>ur_output = ''Empty file received'', ur_success = False\<rparr>)"
    by (simp add: update_tenant_def kvm_live_update_def)
  from failed_update_is_created [OF u] u show ?thesis by (simp add: Let_def)
qed

end
