(* ===== verification/Vmod.thy ===== *)
theory Vmod
  imports Live_Update Backend
begin

text \<open>
  The functions VCL calls (\<^verbatim>\<open>src/tinykvm/vmod_tinykvm.c\<close>, \<^verbatim>\<open>src/kvm/vmod_kvm.c\<close>, \<^verbatim>\<open>to_string.c\<close>) and the
  helpers they use (\<^verbatim>\<open>lib/libkvm/kvm_vcc_api.cpp\<close>, \<^verbatim>\<open>async_call.cpp\<close>). A call that fails the VCL task
  returns \<open>Inl\<close> with the message. An exception that leaves C++ code into C code ends the process, which
  is the value None.
\<close>

section \<open>Tenants\<close>

datatype vcl_method = VCL_INIT | VCL_FETCH | VCL_SYNTH | VCL_BACKEND_ERROR | VCL_OTHER

text \<open>The result of a VCL function: a message for \<open>VRT_fail\<close>, or a value.\<close>

type_synonym 'a vrt = "string + 'a"

definition quoted :: "string option \<Rightarrow> string" where
  "quoted s = [CHR 0x27] @ print_str s @ [CHR 0x27]"

text \<open>Replace the tenant under a key.\<close>

definition put_tenant :: "u32 \<Rightarrow> 'm tinst \<Rightarrow> 'm tenants \<Rightarrow> 'm tenants" where
  "put_tenant h t ts = map (\<lambda>(k, u). if k = h then (k, t) else (k, u)) ts"

definition kvm_tenant_async_start :: "'m init_env \<Rightarrow> files \<Rightarrow> bool \<Rightarrow> 'm tinst \<Rightarrow> ('m tinst \<times> int) option" where
  "kvm_tenant_async_start E fs debug t =
     (case begin_async_initialize E fs debug t of (t, Some e) \<Rightarrow> None | (t, None) \<Rightarrow> Some (t, 1))"

definition kvm_tenant_debug_allowed :: "'m tinst \<Rightarrow> bool" where
  "kvm_tenant_debug_allowed t = g_allow_debug (t_group (ti_conf t))"

definition kvm_tenant_gucci :: "bool \<Rightarrow> 'm tinst \<Rightarrow> bool" where
  "kvm_tenant_gucci debug t = (get_program debug t \<noteq> None)"

definition kvm_tenant_unload :: "'m init_env \<Rightarrow> files \<Rightarrow> 'm exec_ops \<Rightarrow> nat option \<Rightarrow> 'm tinst \<Rightarrow> ('m tinst \<times> int) option" where
  "kvm_tenant_unload E fs X ctx t =
     (case reload_program_live E fs X ctx False t of None \<Rightarrow> None | Some (t, Some e) \<Rightarrow> None | Some (t, None) \<Rightarrow> Some (t, 1))"

definition kvm_reserve_machine ::
    "'m init_env \<Rightarrow> files \<Rightarrow> nat \<Rightarrow> nat \<Rightarrow> nat option \<Rightarrow> bool \<Rightarrow> bool \<Rightarrow> 'm tinst \<times> nat option \<Rightarrow> (('m tinst \<times> nat option) \<times> nat option) option" where
  "kvm_reserve_machine E fs node i ctx ws_alloc debug s =
     (case ctx of None \<Rightarrow> Some (s, None) | Some c \<Rightarrow> vmreserve E fs node i c ws_alloc debug s)"

definition kvm_temporarily_reserve_machine ::
    "'m init_env \<Rightarrow> files \<Rightarrow> nat \<Rightarrow> nat \<Rightarrow> nat option \<Rightarrow> bool \<Rightarrow> bool \<Rightarrow> bool \<Rightarrow> 'm tinst \<Rightarrow> ('m tinst \<times> nat option) option" where
  "kvm_temporarily_reserve_machine E fs node i ctx has_ws debug soft_reset t =
     (case ctx of None \<Rightarrow> Some (t, None) | Some c \<Rightarrow> temporary_vmreserve E fs node i c has_ws debug soft_reset t)"

section \<open>Calls into a reserved VM\<close>

definition kvm_copy_to_machine :: "'m guest_ops \<Rightarrow> u64 \<Rightarrow> string \<Rightarrow> 'm machine \<Rightarrow> 'm machine \<times> int" where
  "kvm_copy_to_machine G dst src mi =
     (case go_write G dst src (mi_vm mi) of Inl e \<Rightarrow> (mi, -1) | Inr vm \<Rightarrow> (mi\<lparr>mi_vm := vm\<rparr>, 0))"

definition kvm_allocate_memory :: "'m vm_ops \<Rightarrow> u64 \<Rightarrow> 'm machine \<Rightarrow> 'm machine \<times> u64" where
  "kvm_allocate_memory V bytes mi = (case v_mmap_allocate V bytes (mi_vm mi) of (addr, vm) \<Rightarrow> (mi\<lparr>mi_vm := vm\<rparr>, addr))"

text \<open>\<open>struct vmod_kvm_synth\<close> as \<open>kvm_synth\<close> leaves it: status, content type and content.\<close>

record synth_out =
  sn_status :: u16
  sn_ctype :: string
  sn_content :: string

definition CT_BUF_SIZE :: nat where
  "CT_BUF_SIZE = 242"

text \<open>\<open>kvm_synth\<close>: the registers of the stopped guest describe the response. The result is an \<open>int\<close>.\<close>

definition kvm_synth :: "'m guest_ops \<Rightarrow> 'm exec_ops \<Rightarrow> nat option \<Rightarrow> 'm machine \<Rightarrow> synth_out \<Rightarrow> 'm machine \<times> synth_out \<times> int" where
  "kvm_synth G X ctx mi sn =
     (let mi = mi\<lparr>mi_ctx := ctx\<rparr>; r = x_regs X (mi_vm mi); tlen = unat (ucast (r_rdx r) :: u16);
          sn = sn\<lparr>sn_status := ucast (r_rdi r)\<rparr> in
      if tlen \<ge> CT_BUF_SIZE then (mi, sn, -1)
      else case go_read G (r_rsi r) tlen (mi_vm mi) of
        Inl e \<Rightarrow> (mi, sn, -1)
      | Inr ct \<Rightarrow>
          (case go_gather G 32 (r_rcx r) (r_r8 r) (mi_vm mi) of
             Inl e \<Rightarrow> (mi, sn\<lparr>sn_ctype := ct\<rparr>, -1)
           | Inr bufs \<Rightarrow> (mi, sn\<lparr>sn_ctype := ct, sn_content := concat bufs\<rparr>, sint (ucast (r_r8 r) :: u32))))"

text \<open>\<open>kvm_forkcall\<close> and \<open>kvm_callv\<close>; the guest's result is returned as an \<open>int\<close>.\<close>

definition kvm_forkcall :: "tenant_conf \<Rightarrow> 'm exec_ops \<Rightarrow> nat option \<Rightarrow> u64 \<Rightarrow> string \<Rightarrow> 'm machine \<Rightarrow> 'm machine \<times> int" where
  "kvm_forkcall conf X ctx addr farg mi =
     (let mi = mi\<lparr>mi_ctx := ctx\<rparr> in
      case x_run X (VCall addr [AStr farg] (conf_max_req_time conf (mi_is_debug mi))) mi of
        (mi, Some e) \<Rightarrow> (fst (x_run X VSmpWait mi), -1)
      | (mi, None) \<Rightarrow>
          (case x_run X VSmpWait mi of
             (mi, Some e) \<Rightarrow> (fst (x_run X VSmpWait mi), -1)
           | (mi, None) \<Rightarrow> (mi, sint (ucast (r_rdi (x_regs X (mi_vm mi))) :: u32))))"

definition kvm_callv :: "tenant_conf \<Rightarrow> 'm exec_ops \<Rightarrow> entries \<Rightarrow> nat option \<Rightarrow> int \<Rightarrow> string \<Rightarrow> 'm machine \<Rightarrow> 'm machine \<times> int" where
  "kvm_callv conf X es ctx index farg mi =
     (case entry_at es index of Inl e \<Rightarrow> (mi, -1) | Inr addr \<Rightarrow> kvm_forkcall conf X ctx addr farg mi)"

text \<open>The task of \<open>kvm_async_invocation\<close> on the reserved VM; whatever happens the VM is freed afterwards.\<close>

definition async_task :: "tenant_conf \<Rightarrow> 'm exec_ops \<Rightarrow> entries \<Rightarrow> string \<Rightarrow> string \<Rightarrow> 'm machine \<Rightarrow> 'm machine" where
  "async_task conf X es url argument mi =
     (let mi = mi\<lparr>mi_ctx := None\<rparr> in
      case entry_at es (entry_index BACKEND_GET) of
        Inl e \<Rightarrow> mi
      | Inr addr \<Rightarrow>
          if addr = 0 then mi
          else case x_run X (VCall addr [AStr url, AStr argument] (conf_max_req_time conf (mi_is_debug mi))) mi of
            (mi, Some e) \<Rightarrow> mi
          | (mi, None) \<Rightarrow> fst (x_run X VSmpWait mi))"

text \<open>The task on the slot of the pool, followed by the release of the slot.\<close>

definition async_run :: "tenant_conf \<Rightarrow> 'm exec_ops \<Rightarrow> 'm vm_ops \<Rightarrow> entries \<Rightarrow> string \<Rightarrow> string \<Rightarrow> nat \<Rightarrow> nat \<Rightarrow> 'm pool \<Rightarrow> 'm pool option" where
  "async_run conf X V es url argument node i pool =
     (case sl_mi (pl_vms pool ! i) of
        None \<Rightarrow> None
      | Some mi \<Rightarrow>
          vm_free_function V node i
            (pool\<lparr>pl_vms := (pl_vms pool)[i := (pl_vms pool ! i)\<lparr>sl_mi := Some (async_task conf X es url argument mi)\<rparr>]\<rparr>))"

definition kvm_async_invocation ::
    "'m init_env \<Rightarrow> files \<Rightarrow> 'm exec_ops \<Rightarrow> nat \<Rightarrow> nat \<Rightarrow> nat \<Rightarrow> chain_item \<Rightarrow> 'm tinst \<Rightarrow> ('m tinst \<times> bool) option" where
  "kvm_async_invocation E fs X node i ctx it t =
     (case tenant_ref E fs False t of
        None \<Rightarrow> None
      | Some (t, Inl e) \<Rightarrow> Some (t, False)
      | Some (t, Inr None) \<Rightarrow> Some (t, False)
      | Some (t, Inr (Some tp)) \<Rightarrow>
          (case tprog_reserve node i ctx False tp of
             None \<Rightarrow> None
           | Some (tp, Inl e) \<Rightarrow> Some (set_program False (Some tp) t, False)
           | Some (tp, Inr slot) \<Rightarrow>
               (case pg_pool (tp_prog tp) of
                  None \<Rightarrow> None
                | Some pool \<Rightarrow>
                    map_option (\<lambda>pool. (set_program False (Some (tp\<lparr>tp_prog := (tp_prog tp)\<lparr>pg_pool := Some pool\<rparr>\<rparr>)) t, True))
                      (async_run (ti_conf t) X (ie_vm E) (pg_entries (tp_prog tp)) (ci_url it) (ci_argument it) node slot pool))))"

section \<open>VCL functions on tenants\<close>

definition vmod_library :: "('j, 'm) tenv \<Rightarrow> vcl_method \<Rightarrow> string \<Rightarrow> 'm tenants \<Rightarrow> ('m tenants \<times> int vrt) option" where
  "vmod_library E method uri ts =
     (if method \<noteq> VCL_INIT then Some (ts, Inl ''compute: library() should only be called from vcl_init'')
      else map_option (\<lambda>(ts, r). (ts, Inr r)) (kvm_init_tenants_uri E uri False ts))"

text \<open>The arguments \<open>vmod_stats\<close> passes on; the pattern may be null.\<close>

definition stats_indent :: "int \<Rightarrow> int" where
  "stats_indent indent = (let indent = (if indent < -1 then -1 else indent) in if indent > 16 then 16 else indent)"

text \<open>\<open>vmod_invalidate_programs\<close>, with the match of the compiled expression; every program that matches is unloaded.\<close>

fun unload_matching ::
    "'m init_env \<Rightarrow> files \<Rightarrow> 'm exec_ops \<Rightarrow> nat option \<Rightarrow> (string \<Rightarrow> bool) \<Rightarrow> 'm tenants \<Rightarrow> ('m tenants \<times> int) option" where
  "unload_matching E fs X ctx matches [] = Some ([], 0)"
| "unload_matching E fs X ctx matches ((h, t) # ts) =
     (case (if matches (t_name (ti_conf t)) then kvm_tenant_unload E fs X ctx t else Some (t, 0)) of
        None \<Rightarrow> None
      | Some (t, n) \<Rightarrow> map_option (\<lambda>(ts, k). ((h, t) # ts, n + k)) (unload_matching E fs X ctx matches ts))"

definition vmod_invalidate_programs ::
    "'m init_env \<Rightarrow> files \<Rightarrow> 'm exec_ops \<Rightarrow> nat option \<Rightarrow> (string \<Rightarrow> (string \<Rightarrow> bool) option) \<Rightarrow> string option \<Rightarrow> 'm tenants \<Rightarrow>
       ('m tenants \<times> int) option" where
  "vmod_invalidate_programs E fs X ctx compile pattern ts =
     (case pattern of
        None \<Rightarrow> Some (ts, 0)
      | Some p \<Rightarrow> (case compile p of None \<Rightarrow> Some (ts, 0) | Some matches \<Rightarrow> unload_matching E fs X ctx matches ts))"

text \<open>\<open>vmod_configure\<close>: a program that is not known yet is created from a document around the given text.\<close>

definition configure_doc :: "string \<Rightarrow> string \<Rightarrow> string" where
  "configure_doc program json = [CHR 0x7B, CHR 0x22] @ program @ [CHR 0x22] @ '': '' @ json @ [CHR 0x7D]"

definition vmod_configure ::
    "('j, 'm) tenv \<Rightarrow> vcl_method \<Rightarrow> string option \<Rightarrow> string option \<Rightarrow> 'm tenants \<Rightarrow> ('m tenants \<times> int vrt) option" where
  "vmod_configure E method program json ts =
     (if method \<noteq> VCL_INIT then Some (ts, Inl ''compute: configure() should only be called from vcl_init'')
      else if json = None \<or> json = Some [] then Some (ts, Inl (''compute: No configuration provided for '' @ quoted program))
      else case kvm_tenant_find program ts of
        Some t \<Rightarrow> (case kvm_tenant_configure E (the json) t of (t, r) \<Rightarrow> Some (put_tenant (name_hash (the program)) t ts, Inr r))
      | None \<Rightarrow>
          let doc = configure_doc (print_str program) (the json) in
          if length doc \<ge> 4096 then Some (ts, Inl (''compute: Failed to create JSON for '' @ quoted program))
          else map_option (\<lambda>(ts, r). (ts, Inr r)) (kvm_init_tenants_str E doc False ts))"

definition vmod_main_arguments :: "string option \<Rightarrow> string option list \<Rightarrow> 'm tenants \<Rightarrow> 'm tenants \<times> int vrt" where
  "vmod_main_arguments program arguments ts =
     (if arguments = [] then (ts, Inr 0)
      else case kvm_tenant_find program ts of
        None \<Rightarrow> (ts, Inl (''compute: No such program '' @ quoted program))
      | Some t \<Rightarrow> (case kvm_tenant_arguments arguments t of (t, r) \<Rightarrow> (put_tenant (name_hash (the program)) t ts, Inr r)))"

definition vmod_start ::
    "'m init_env \<Rightarrow> files \<Rightarrow> vcl_method \<Rightarrow> string option \<Rightarrow> bool \<Rightarrow> 'm tenants \<Rightarrow> ('m tenants \<times> int vrt) option" where
  "vmod_start E fs method program debug ts =
     (if method \<noteq> VCL_INIT then Some (ts, Inl ''compute: start() should only be called from vcl_init'')
      else case kvm_tenant_find program ts of
        None \<Rightarrow> Some (ts, Inl (''compute: No such program '' @ quoted program @ '' for async start''))
      | Some t \<Rightarrow>
          map_option (\<lambda>(t, r). (put_tenant (name_hash (the program)) t ts, Inr r)) (kvm_tenant_async_start E fs debug t))"

definition vmod_tenant_is_ready :: "string option \<Rightarrow> 'm tenants \<Rightarrow> bool vrt" where
  "vmod_tenant_is_ready tenant ts =
     (if tenant = None \<or> tenant = Some [] then Inl ''kvm.tenant_is_ready() requires a tenant name''
      else case kvm_tenant_find tenant ts of
        None \<Rightarrow> Inl (''No such tenant: '' @ print_str tenant)
      | Some t \<Rightarrow> Inr (kvm_tenant_gucci False t))"

definition vmod_embed_tenants :: "('j, 'm) tenv \<Rightarrow> string option \<Rightarrow> 'm tenants \<Rightarrow> ('m tenants \<times> int vrt) option" where
  "vmod_embed_tenants E json ts =
     (if json = None \<or> json = Some [] then Some (ts, Inl ''kvm.embed_tenants() requires a JSON string'')
      else map_option (\<lambda>(ts, r). (ts, Inr r)) (kvm_init_tenants_str E (the json) True ts))"

definition vmod_load_tenants :: "('j, 'm) tenv \<Rightarrow> string option \<Rightarrow> 'm tenants \<Rightarrow> ('m tenants \<times> int vrt) option" where
  "vmod_load_tenants E filename ts =
     (if filename = None \<or> filename = Some [] then Some (ts, Inl ''kvm.load_tenants() requires a filename'')
      else map_option (\<lambda>(ts, r). (ts, Inr r)) (kvm_init_tenants_file E (the filename) True ts))"

definition vmod_fetch_tenants :: "('j, 'm) tenv \<Rightarrow> string option \<Rightarrow> 'm tenants \<Rightarrow> ('m tenants \<times> int vrt) option" where
  "vmod_fetch_tenants E url ts =
     (if url = None \<or> url = Some [] then Some (ts, Inl ''kvm.fetch_tenants() requires a URL'')
      else map_option (\<lambda>(ts, r). (ts, Inr r)) (kvm_init_tenants_uri E (the url) True ts))"

section \<open>Backends\<close>

text \<open>A program in the chain is the key of its tenant.\<close>

definition find_program :: "string option \<Rightarrow> 'm tenants \<Rightarrow> nat option" where
  "find_program program ts = (case kvm_tenant_find program ts of None \<Rightarrow> None | Some t \<Rightarrow> Some (unat (name_hash (the program))))"

definition kvm_method :: "vcl_method \<Rightarrow> (string \<times> string option) option \<Rightarrow> vcl_ctx" where
  "kvm_method method http = \<lparr>vc_backend_fetch = (method = VCL_FETCH), vc_http = http\<rparr>"

text \<open>\<open>vmod_program\<close>: the argument of the program takes the place of the URL, and the configuration that of the argument.\<close>

definition vmod_program ::
    "vcl_method \<Rightarrow> (string \<times> string option) option \<Rightarrow> bool \<Rightarrow> string option \<Rightarrow> string option \<Rightarrow> string option \<Rightarrow> 'm tenants \<Rightarrow>
       chain_item list \<Rightarrow> chain_item list option vrt \<times> chain_item list" where
  "vmod_program method http ws program arg json_config ts q =
     (if method \<noteq> VCL_FETCH then (Inl ''compute: program() should only be called from vcl_backend_fetch'', q)
      else case vmod_vm_backend (\<lambda>p. find_program (Some p) ts) ws (kvm_method method http) (or_empty program) arg json_config q of
        (b, q) \<Rightarrow> (Inr b, q))"

definition vmod_vm_debug_backend ::
    "vcl_method \<Rightarrow> (string \<times> string option) option \<Rightarrow> bool \<Rightarrow> string option \<Rightarrow> string \<Rightarrow> string option \<Rightarrow> string option \<Rightarrow> 'm tenants \<Rightarrow>
       chain_item list \<Rightarrow> chain_item list option vrt \<times> chain_item list" where
  "vmod_vm_debug_backend method http ws program key url arg ts q =
     (if method \<noteq> VCL_FETCH then (Inl ''vmod_kvm: vm_debug_backend() should onlybe called from vcl_backend_fetch'', q)
      else if \<not> ws then (Inl ''KVM: Out of workspace (kvm_backend)'', q)
      else case kvm_tenant_find_key program key ts of
        None \<Rightarrow> (Inl (''KVM: Program not found: '' @ print_str program), q)
      | Some t \<Rightarrow>
          if \<not> kvm_tenant_debug_allowed t then (Inl (''KVM: Program not allowed to live-debug: '' @ print_str program), q)
          else case kvm_init_chain (kvm_method method http) (unat (name_hash (the program))) url arg q of
            (None, q) \<Rightarrow> (Inr None, q)
          | (Some i, q) \<Rightarrow> (Inr (Some q), []))"

section \<open>Strings and synthetic responses\<close>

text \<open>\<open>struct kvm_http_response\<close>; a content size of None has not been set.\<close>

record http_response =
  hr_ctype :: string
  hr_content :: string
  hr_content_size :: "nat option"
  hr_status :: int

definition minimal_response :: "int \<Rightarrow> string \<Rightarrow> http_response" where
  "minimal_response status content =
     \<lparr>hr_ctype = ''text/plain'', hr_content = content, hr_content_size = Some (length content), hr_status = status\<rparr>"

text \<open>
  The value of \<open>to_string\<close>: the outcomes of the calls are those of the trace model of the chain, and
  \<open>res\<close> is the result each call writes. \<open>Inl\<close> is an early return, \<open>Inr\<close> the result of the last call.
\<close>

fun to_string_value :: "chain_env \<Rightarrow> (nat \<Rightarrow> bresult) \<Rightarrow> nat \<Rightarrow> chain_item list \<Rightarrow> bresult \<Rightarrow> http_response + bresult" where
  "to_string_value E res index [] r = Inr r"
| "to_string_value E res index (it # rest) r =
     (if \<not> ce_reserve E index then Inl (minimal_response 500 ''Unable to make reservation'')
      else if index > 0 \<and> \<not> ce_transfer E index then Inl (minimal_response 500 ''Unable to transfer in chain'')
      else if br_status (res index) \<ge> ci_break_status it then Inl (minimal_response (br_status (res index)) ''Error status in chain'')
      else to_string_value E res (index + 1) rest (res index))"

definition to_string_response ::
    "chain_env \<Rightarrow> (nat \<Rightarrow> bresult) \<Rightarrow> (bresult \<Rightarrow> http_response \<Rightarrow> http_response) \<Rightarrow> chain_item list \<Rightarrow> http_response" where
  "to_string_response E res callback chain =
     (if \<not> ce_ws_result E \<or> length chain > 1 \<and> \<not> ce_ws_post E then minimal_response 500 ''Out of workspace''
      else case to_string_value E res 0 chain error_result of
        Inl resp \<Rightarrow> resp
      | Inr r \<Rightarrow> callback r \<lparr>hr_ctype = br_type r, hr_content = [], hr_content_size = None, hr_status = br_status r\<rparr>)"

text \<open>The content callbacks: a copy in the workspace, and a buffer for the synthetic body.\<close>

definition to_string_callback :: "bool \<Rightarrow> bresult \<Rightarrow> http_response \<Rightarrow> http_response" where
  "to_string_callback ws r resp =
     (let content = concat (br_buffers r) in
      if \<not> ws then resp\<lparr>hr_content := [], hr_content_size := Some 0\<rparr>
      else resp\<lparr>hr_content := content, hr_content_size := Some (length content)\<rparr>)"

definition to_synth_callback :: "bresult \<Rightarrow> http_response \<Rightarrow> http_response" where
  "to_synth_callback r resp = resp\<lparr>hr_ctype := br_type r, hr_content := concat (br_buffers r)\<rparr>"

text \<open>The invocation both functions add to the chain, and what they take from the thread local queue.\<close>

definition string_chain ::
    "vcl_ctx \<Rightarrow> nat \<Rightarrow> string option \<Rightarrow> string option \<Rightarrow> int \<Rightarrow> int \<Rightarrow> chain_item list \<Rightarrow> chain_item list option \<times> chain_item list" where
  "string_chain ctx tenant url arg break_status soft_reset q =
     (case kvm_init_chain ctx tenant url arg q of
        (None, q) \<Rightarrow> (None, q)
      | (Some i, q) \<Rightarrow>
          (Some (q[i := (q ! i)\<lparr>ci_method := ''GET'', ci_content_type := [], ci_break_status := uint (word_of_int break_status :: u16),
                    ci_soft_reset := soft_reset\<rparr>]), []))"

definition kvm_vm_to_string ::
    "chain_env \<Rightarrow> (nat \<Rightarrow> bresult) \<Rightarrow> bool \<Rightarrow> vcl_ctx \<Rightarrow> string option \<Rightarrow> string option \<Rightarrow> string option \<Rightarrow> string option \<Rightarrow> int \<Rightarrow> int \<Rightarrow>
       'm tenants \<Rightarrow> chain_item list \<Rightarrow> string option vrt \<times> chain_item list" where
  "kvm_vm_to_string E res ws ctx program url arg on_error error_treshold soft_reset ts q =
     (case find_program program ts of
        None \<Rightarrow> (Inl (''KVM: Program not found: '' @ print_str program), q)
      | Some tenant \<Rightarrow>
          (case string_chain ctx tenant url arg error_treshold soft_reset q of
             (None, q) \<Rightarrow> (Inr on_error, q)
           | (Some chain, q) \<Rightarrow>
               let resp = to_string_response E res (to_string_callback ws) chain in
               (Inr (if hr_status resp < error_treshold then Some (hr_content resp) else on_error), q)))"

text \<open>
  \<open>kvm_vm_synth\<close>: the body, the status, and the two header fields it writes. The length is None when
  it is the value of an uninitialised member.
\<close>

record synth_response =
  sr_status :: int
  sr_body :: "string option"
  sr_content_length :: "nat option"
  sr_content_type :: string

definition synth_status :: "int \<Rightarrow> int \<Rightarrow> int" where
  "synth_status status resp =
     (let s = (if status \<ge> 200 \<and> status < 700 then status else resp) in if s < 200 \<or> s \<ge> 700 then 500 else s)"

definition kvm_vm_synth ::
    "chain_env \<Rightarrow> (nat \<Rightarrow> bresult) \<Rightarrow> vcl_method \<Rightarrow> (string \<times> string option) option \<Rightarrow> int \<Rightarrow> string option \<Rightarrow> string option \<Rightarrow> string option \<Rightarrow> int \<Rightarrow>
       'm tenants \<Rightarrow> chain_item list \<Rightarrow> synth_response option vrt \<times> chain_item list" where
  "kvm_vm_synth E res method http status program url arg soft_reset ts q =
     (if method \<noteq> VCL_SYNTH \<and> method \<noteq> VCL_BACKEND_ERROR
      then (Inl ''KVM: synth() must be called from vcl_synth or vcl_backend_error'', q)
      else case find_program program ts of
        None \<Rightarrow> (Inl (''KVM: Program not found: '' @ print_str program), q)
      | Some tenant \<Rightarrow>
          (case string_chain (kvm_method method http) tenant url arg 999 soft_reset q of
             (None, q) \<Rightarrow> (Inr None, q)
           | (Some chain, q) \<Rightarrow>
               let resp = to_string_response E res to_synth_callback chain in
               (Inr (Some \<lparr>sr_status = synth_status status (hr_status resp),
                           sr_body = (if hr_content_size resp = None then Some (hr_content resp) else None),
                           sr_content_length = hr_content_size resp, sr_content_type = hr_ctype resp\<rparr>), q)))"

section \<open>Lemmas\<close>

text \<open>The value of a chain: the last result if every step succeeds and every status is below its limit.\<close>

definition chain_succeeds :: "chain_env \<Rightarrow> (nat \<Rightarrow> bresult) \<Rightarrow> nat \<Rightarrow> chain_item list \<Rightarrow> bool" where
  "chain_succeeds E res index chain \<longleftrightarrow>
     (\<forall>k < length chain. ce_reserve E (index + k) \<and> (index + k > 0 \<longrightarrow> ce_transfer E (index + k)) \<and>
        br_status (res (index + k)) < ci_break_status (chain ! k))"

lemma chain_succeeds_Cons:
  "chain_succeeds E res index (it # rest) \<longleftrightarrow>
     ce_reserve E index \<and> (index > 0 \<longrightarrow> ce_transfer E index) \<and> br_status (res index) < ci_break_status it \<and>
     chain_succeeds E res (Suc index) rest"
proof
  assume a: "chain_succeeds E res index (it # rest)"
  have "ce_reserve E (Suc index + k) \<and> (Suc index + k > 0 \<longrightarrow> ce_transfer E (Suc index + k)) \<and>
      br_status (res (Suc index + k)) < ci_break_status (rest ! k)" if "k < length rest" for k
    using a [unfolded chain_succeeds_def, rule_format, of "Suc k"] that by simp
  with a [unfolded chain_succeeds_def, rule_format, of 0]
  show "ce_reserve E index \<and> (index > 0 \<longrightarrow> ce_transfer E index) \<and> br_status (res index) < ci_break_status it \<and>
     chain_succeeds E res (Suc index) rest" by (simp add: chain_succeeds_def)
next
  assume "ce_reserve E index \<and> (index > 0 \<longrightarrow> ce_transfer E index) \<and> br_status (res index) < ci_break_status it \<and>
     chain_succeeds E res (Suc index) rest"
  then show "chain_succeeds E res index (it # rest)"
    unfolding chain_succeeds_def by (auto simp: nth_Cons split: nat.splits)
qed

lemma to_string_value_ok:
  "chain_succeeds E res index chain \<Longrightarrow> chain \<noteq> [] \<Longrightarrow>
     to_string_value E res index chain r = Inr (res (index + length chain - 1))"
proof (induction chain arbitrary: index r)
  case (Cons it rest)
  then show ?case
    by (cases "rest = []") (auto simp: chain_succeeds_Cons not_le)
qed simp

text \<open>An early return has the status of a failure, or one that reached the limit of its program.\<close>

lemma to_string_value_early:
  assumes "to_string_value E res index chain r = Inl resp"
  shows "hr_content_size resp = Some (length (hr_content resp)) \<and> \<not> chain_succeeds E res index chain \<and>
    (hr_status resp = 500 \<or> (\<exists>k < length chain. hr_status resp = br_status (res (index + k)) \<and> hr_status resp \<ge> ci_break_status (chain ! k)))"
  using assms
proof (induction chain arbitrary: index r)
  case (Cons it rest)
  show ?case
  proof (cases "ce_reserve E index \<and> (index > 0 \<longrightarrow> ce_transfer E index) \<and> br_status (res index) < ci_break_status it")
    case True
    with Cons.prems have "to_string_value E res (Suc index) rest (res index) = Inl resp" by (auto split: if_splits)
    from Cons.IH [OF this] show ?thesis by (auto simp: chain_succeeds_Cons)
  next
    case False
    with Cons.prems show ?thesis by (auto simp: chain_succeeds_Cons minimal_response_def split: if_splits)
  qed
qed simp

subsection \<open>The thread local queue\<close>

text \<open>Every call of VCL that works on the queue of a worker thread, for a table of tenants.\<close>

inductive queue_step :: "'m tenants \<Rightarrow> chain_item list \<Rightarrow> chain_item list \<Rightarrow> bool" for ts where
  qs_chain: "vmod_chain (\<lambda>p. find_program (Some p) ts) ctx program url arg break_status q = (r, q') \<Longrightarrow> queue_step ts q q'"
| qs_program: "vmod_program method http ws pr arg conf ts q = (b, q') \<Longrightarrow> queue_step ts q q'"
| qs_debug: "vmod_vm_debug_backend method http ws pr key url arg ts q = (b, q') \<Longrightarrow> queue_step ts q q'"
| qs_string: "kvm_vm_to_string E res ws ctx pr url arg on_error limit soft ts q = (s, q') \<Longrightarrow> queue_step ts q q'"
| qs_synth: "kvm_vm_synth E res method http status pr url arg soft ts q = (sy, q') \<Longrightarrow> queue_step ts q q'"

text \<open>A chain fits its array, only its first item fetches, and the others name programs of the table.\<close>

definition chain_typed :: "'m tenants \<Rightarrow> chain_item list \<Rightarrow> bool" where
  "chain_typed ts q \<longleftrightarrow> length q \<le> KVM_PROGRAM_CHAIN_ENTRIES \<and>
     (\<forall>k < length q. if ci_special (q ! k) then k = 0 else \<exists>n. find_program (Some n) ts = Some (ci_tenant (q ! k)))"

lemma chain_typed_Nil [simp]: "chain_typed ts []"
  by (simp add: chain_typed_def)

lemma chain_typed_snoc:
  "\<lbrakk>chain_typed ts q; length q < KVM_PROGRAM_CHAIN_ENTRIES; \<not> ci_special it; find_program (Some n) ts = Some (ci_tenant it)\<rbrakk> \<Longrightarrow>
     chain_typed ts (q @ [it])"
  by (auto simp: chain_typed_def nth_append)

lemma chain_typed_upd:
  "\<lbrakk>chain_typed ts q; i < length q; ci_special it = ci_special (q ! i); ci_tenant it = ci_tenant (q ! i)\<rbrakk> \<Longrightarrow> chain_typed ts (q[i := it])"
  by (auto simp: chain_typed_def nth_list_update)

lemma init_chain_typed:
  assumes "kvm_init_chain ctx tenant url arg q = (r, q')" and "chain_typed ts q" and "find_program (Some n) ts = Some tenant"
  shows "chain_typed ts q' \<and> (\<forall>i. r = Some i \<longrightarrow> i < length q')"
  using assms chain_typed_snoc [of ts q _ n] chain_typed_snoc [of ts "[]" _ n]
  by (auto simp: kvm_init_chain_def Let_def KVM_PROGRAM_CHAIN_ENTRIES_def split: if_splits option.splits prod.splits)

lemma init_fetch_typed: "\<lbrakk>kvm_init_fetch url arg q = (r, q'); chain_typed ts q\<rbrakk> \<Longrightarrow> chain_typed ts q'"
  by (auto simp: kvm_init_fetch_def chain_typed_def KVM_PROGRAM_CHAIN_ENTRIES_def split: option.splits if_splits)

lemma string_chain_typed:
  assumes "string_chain ctx tenant url arg b s q = (c, q')" and "chain_typed ts q" and "find_program (Some n) ts = Some tenant"
  shows "chain_typed ts q'"
  using assms init_chain_typed by (fastforce simp: string_chain_def split: option.splits prod.splits)

lemma find_program_Some: "find_program pr ts = Some t \<Longrightarrow> \<exists>n. pr = Some n"
  by (cases pr) (simp_all add: find_program_def kvm_tenant_find_def)

lemma find_key_program:
  "kvm_tenant_find_key pr key ts = Some t \<Longrightarrow> \<exists>n. pr = Some n \<and> find_program (Some n) ts = Some (unat (name_hash n))"
  by (cases pr) (auto simp: find_program_def kvm_tenant_find_key_def kvm_tenant_find_def split: option.splits if_splits)

lemma queue_step_typed:
  assumes "queue_step ts q q'" and "chain_typed ts q"
  shows "chain_typed ts q'"
  using assms
proof cases
  case (qs_chain ctx program url arg b r)
  show ?thesis
  proof (cases "find_program (Some program) ts")
    case None
    with qs_chain assms(2) init_fetch_typed show ?thesis
      by (fastforce simp: vmod_chain_def split: if_splits option.splits prod.splits)
  next
    case (Some tenant)
    obtain i q1 where i: "kvm_init_chain ctx tenant url arg q = (i, q1)" by fastforce
    note it = init_chain_typed [OF i assms(2) Some]
    then have "chain_typed ts (q1[k := (q1 ! k)\<lparr>ci_break_status := b\<rparr>])" if "i = Some k" for k
      using that by (intro chain_typed_upd) auto
    with qs_chain assms(2) init_fetch_typed Some i it show ?thesis
      by (fastforce simp: vmod_chain_def split: if_splits option.splits prod.splits)
  qed
next
  case (qs_program mt http ws pr arg conf b)
  with assms(2) show ?thesis
    by (auto simp: vmod_program_def vmod_vm_backend_def split: if_splits option.splits prod.splits dest: init_chain_typed)
next
  case (qs_debug mt http ws pr key url arg b)
  with assms(2) show ?thesis
    by (auto simp: vmod_vm_debug_backend_def split: if_splits option.splits prod.splits dest!: find_key_program dest: init_chain_typed)
next
  case (qs_string E res ws ctx pr url arg on_error limit soft s)
  with assms(2) show ?thesis
    by (auto simp: kvm_vm_to_string_def Let_def split: option.splits prod.splits dest: find_program_Some string_chain_typed)
next
  case (qs_synth E res mt http status pr url arg soft sy)
  with assms(2) show ?thesis
    by (auto simp: kvm_vm_synth_def Let_def split: if_splits option.splits prod.splits dest: find_program_Some string_chain_typed)
qed

text \<open>A start-up that failed has unlocked the mutex.\<close>

lemma local_task_unlocked:
  assumes "local_task E p = Some (p', Inl e)"
  shows "\<not> pg_locked p'"
proof -
  from assms have "begin_initialization E p = Some (p', Some e)" by (auto simp: local_task_def split: option.splits)
  then obtain p1 where "p' = init_failed p1"
    unfolding begin_initialization_def by (auto split: option.split_asm prod.split_asm)
  then show ?thesis by (simp add: init_failed_def unlock_and_initialized_def)
qed

section \<open>Properties\<close>

text \<open>
  C34. The queue of a worker thread is well formed whatever VCL does with it: starting from an empty
  queue, after any sequence of calls it fits its array of sixteen items, only its first item is a
  fetch, and every other item names a program of the table.
\<close>

theorem vcl_queue_typed:
  assumes "(queue_step ts)\<^sup>*\<^sup>* [] q"
  shows "chain_typed ts q"
  using assms
proof (induction rule: rtranclp_induct)
  case (step q q')
  then show ?case by (blast intro: queue_step_typed)
qed simp

text \<open>The table of one program the concrete instances use.\<close>

definition tenants_demo :: "vm_mem tenants" where
  "tenants_demo = [(name_hash ''demo'', tinst_new demo_conf)]"

lemma find_program_demo: "find_program (Some ''demo'') tenants_demo = Some (unat (name_hash ''demo''))"
  by (simp add: find_program_def kvm_tenant_find_def tenants_demo_def)

lemma queue_demo:
  "\<exists>q. vmod_chain (\<lambda>p. find_program (Some p) tenants_demo) \<lparr>vc_backend_fetch = True, vc_http = Some (''GET'', None)\<rparr> ''demo'' None None 400 [] = (True, q) \<and>
     length q = 1"
  by (simp add: vmod_chain_def find_program_demo kvm_init_chain_def KVM_PROGRAM_CHAIN_ENTRIES_def)

theorem vcl_queue_typed_witness:
  "\<exists>q. (queue_step tenants_demo)\<^sup>*\<^sup>* [] q \<and> length q = 1 \<and> chain_typed tenants_demo q"
proof -
  obtain q where "vmod_chain (\<lambda>p. find_program (Some p) tenants_demo) \<lparr>vc_backend_fetch = True, vc_http = Some (''GET'', None)\<rparr>
      ''demo'' None None 400 [] = (True, q)" and l: "length q = 1" using queue_demo by blast
  then have "(queue_step tenants_demo)\<^sup>*\<^sup>* [] q" by (blast intro: qs_chain)
  with vcl_queue_typed [OF this] l show ?thesis by blast
qed



text \<open>
  A chain that was begun is run by the next request: when a request has put a program in the chain
  and its backend then cannot be made because its last program is not known, the queue of the thread
  keeps the item, and the next request on that thread runs it with its own data before its own program.
\<close>

theorem stale_chain_runs_for_next_request:
  assumes "vmod_chain lookup ctx first url arg break_status [] = (True, q)" and "lookup missing = None" and "lookup other = Some tenant"
    and "vc_backend_fetch ctx'"
  shows "vmod_vm_backend lookup True ctx missing url' arg' q = (None, q) \<and> q \<noteq> [] \<and>
    (\<exists>it. vmod_vm_backend lookup True ctx' other url'' arg'' q = (Some (q @ [it]), []) \<and> ci_tenant it = tenant)"
proof -
  from assms(1) have "length q = 1"
    by (auto simp: vmod_chain_def kvm_init_chain_def kvm_init_fetch_def KVM_PROGRAM_CHAIN_ENTRIES_def Let_def
        split: if_splits option.splits prod.splits)
  then have "q \<noteq> []" and "length q < KVM_PROGRAM_CHAIN_ENTRIES" by (auto simp: KVM_PROGRAM_CHAIN_ENTRIES_def)
  with assms(2-4) show ?thesis by (simp add: vmod_vm_backend_def kvm_init_chain_def Let_def)
qed

theorem stale_chain_runs_for_next_request_witness:
  "let lookup = (\<lambda>p. if p = ''demo'' then Some 7 else None); ctx = \<lparr>vc_backend_fetch = True, vc_http = Some (''GET'', None)\<rparr> in
   \<exists>q it. vmod_chain lookup ctx ''demo'' None None 400 [] = (True, q) \<and> vmod_vm_backend lookup True ctx ''x'' None None q = (None, q) \<and>
     vmod_vm_backend lookup True ctx ''demo'' None None q = (Some (q @ [it]), [])"
proof -
  let ?lookup = "\<lambda>p. if p = ''demo'' then Some 7 else (None :: nat option)"
  let ?ctx = "\<lparr>vc_backend_fetch = True, vc_http = Some (''GET'', None)\<rparr>"
  obtain q where q: "vmod_chain ?lookup ?ctx ''demo'' None None 400 [] = (True, q)"
    by (simp add: vmod_chain_def kvm_init_chain_def KVM_PROGRAM_CHAIN_ENTRIES_def)
  from stale_chain_runs_for_next_request [OF q, of "''x''" "''demo''" 7 ?ctx None None None None] q show ?thesis
    unfolding Let_def by auto
qed

text \<open>
  A synthetic response has no length: when the program answers, the member the \<open>Content-Length\<close> is
  printed from has never been written.
\<close>

theorem synth_length_unset:
  assumes "find_program program ts = Some tenant" and "method = VCL_SYNTH" and "http \<noteq> None" and "ce_ws_result E" and "ce_reserve E 0"
    and "br_status (res 0) < 999"
  shows "\<exists>r. kvm_vm_synth E res method http status program url arg soft ts [] = (Inr (Some r), []) \<and>
    sr_body r = Some (concat (br_buffers (res 0))) \<and> sr_content_length r = None"
  using assms
  by (auto simp: kvm_vm_synth_def string_chain_def kvm_init_chain_def KVM_PROGRAM_CHAIN_ENTRIES_def Let_def to_string_response_def
      minimal_response_def to_synth_callback_def kvm_method_def)

theorem synth_length_unset_witness:
  "\<exists>r. kvm_vm_synth (env_demo 200 5 True) (\<lambda>k. error_result\<lparr>br_status := 200, br_buffers := [''hel'', ''lo'']\<rparr>) VCL_SYNTH (Some (''GET'', None)) 200
     (Some ''demo'') None None 0 tenants_demo [] = (Inr (Some r), []) \<and> sr_body r = Some ''hello'' \<and> sr_content_length r = None"
  using synth_length_unset [OF find_program_demo, of VCL_SYNTH "Some (''GET'', None)" "env_demo 200 5 True"
      "\<lambda>k. error_result\<lparr>br_status := 200, br_buffers := [''hel'', ''lo'']\<rparr>" 200 None None 0]
  by (simp add: env_demo_def)

text \<open>
  Unloading a program whose new version does not start ends the process: a program with storage
  is loaded again at once, and the exception of its failed start-up is caught neither there nor in the
  C function VCL calls.
\<close>

theorem failed_reload_ends_process:
  assumes "ti_program t = Some old" and "pg_storage (tp_prog old) \<noteq> None" and "matches (t_name (ti_conf t))" and "compile p = Some matches"
    and "t_uri (ti_conf t) = []" and "t_sha256 (ti_conf t) = []" and "t_md5 (ti_conf t) = []" and "t_filename (ti_conf t) \<noteq> []"
    and "fs (t_filename (ti_conf t)) = Some c" and "c \<noteq> []" and "fs (storage_program_filename (ti_conf t)) = None"
    and "local_task (E\<lparr>ie_debug := False\<rparr>) (program_local (ti_conf t) fs c []) = Some (p', Inl e)"
  shows "vmod_invalidate_programs E fs X ctx compile (Some p) ((h, t) # ts) = None"
proof -
  let ?t = "(set_program False None t)\<lparr>ti_started_init := False\<rparr>"
  let ?p = "program_local (ti_conf t) fs c [] :: 'a prog"
  let ?t1 = "?t\<lparr>ti_started_init := True, ti_conf := pg_ten ?p, ti_program := Some (tprog_new ?p (LocalTask False))\<rparr>"
  have conf: "ti_conf ?t = ti_conf t" "ti_program ?t = None" "\<not> ti_started_init ?t" by (simp_all add: set_program_def)
  have "load_local fs (ti_conf t) = Inr (c, [])"
    using assms(8-11) by (simp add: load_local_def mmap_file_def bind_res_def request_program_filename_def)
  moreover have "file_verified E fs (ti_conf t) = Inr False"
    using assms(6,7) by (simp add: file_verified_def)
  ultimately have "begin_async_initialize E fs False ?t = (?t1, None)"
    using assms(5,8,9) conf by (simp add: begin_async_initialize_def begin_initialize_def Let_def)
  moreover have "tprog_wait_for_initialization E (tprog_new ?p (LocalTask False)) =
      Some ((tprog_new ?p (LocalTask False))\<lparr>tp_prog := p', tp_task := None, tp_future := None\<rparr>, Inl e)"
    using assms(12) local_task_unlocked [OF assms(12)]
    by (simp add: tprog_wait_for_initialization_def run_task_def tprog_new_def wait_for_initialization_def)
  then have "\<exists>t2. tenant_wait_for_initialization E ?t1 = Some (t2, Some e)"
    by (simp add: tenant_wait_for_initialization_def)
  ultimately obtain t2 where "wait_guarded_initialize E fs ?t = Some (t2, Inl e)"
    by (auto simp: wait_guarded_initialize_def)
  then have "tenant_ref E fs False ?t = Some (t2, Inl e)" using conf by (simp add: tenant_ref_def get_program_def)
  with assms(1,2) have "kvm_tenant_unload E fs X ctx t = None"
    by (simp add: kvm_tenant_unload_def reload_program_live_def get_program_def Let_def)
  with assms(3,4) show ?thesis by (simp add: vmod_invalidate_programs_def)
qed

definition conf_broken :: tenant_conf where
  "conf_broken = demo_conf\<lparr>t_group := (t_group demo_conf)\<lparr>g_max_concurrency := 0\<rparr>\<rparr>"

definition tprog_old :: "vm_mem tprog" where
  "tprog_old = tprog_new ((prog_new conf_broken Map.empty)\<lparr>pg_storage := Some ''elf''\<rparr>) (LocalTask False)"

lemma conf_broken_fields:
  "t_uri conf_broken = []" "t_sha256 conf_broken = []" "t_md5 conf_broken = []" "t_filename conf_broken = ''/prog/demo''"
  "storage_program_filename conf_broken = ''/prog/demo_storage''" "pg_storage (tp_prog tprog_old) = Some ''elf''"
  by (simp_all add: conf_broken_def demo_conf_def storage_program_filename_def tprog_old_def tprog_new_def)

lemma conf_broken_fails:
  "\<exists>p' e. local_task (init_demo\<lparr>ie_debug := False\<rparr>) (program_local conf_broken fs elf st) = Some (p', Inl e)"
  by (simp add: local_task_def begin_initialization_def begin_initialization_body_def oseq_def olift_def stmt_throw_if_def
      conf_broken_def program_local_def prog_new_def allow_own_binary_def)

theorem failed_reload_ends_process_witness:
  "vmod_invalidate_programs init_demo [''/prog/demo'' \<mapsto> ''elf''] (exec_mem run_timeout) None (\<lambda>p. Some (\<lambda>n. True)) (Some ''.*'')
     [(name_hash ''demo'', (tinst_new conf_broken)\<lparr>ti_program := Some tprog_old\<rparr>)] = None"
proof -
  let ?t = "(tinst_new conf_broken)\<lparr>ti_program := Some tprog_old\<rparr>"
  have c: "ti_conf ?t = conf_broken" "ti_program ?t = Some tprog_old" by (simp_all add: tinst_new_def)
  obtain p' e where "local_task (init_demo\<lparr>ie_debug := False\<rparr>) (program_local conf_broken [''/prog/demo'' \<mapsto> ''elf''] ''elf'' []) = Some (p', Inl e)"
    using conf_broken_fails by blast
  with failed_reload_ends_process [OF c(2), of "\<lambda>n. True" "\<lambda>p. Some (\<lambda>n. True)" "''.*''" "[''/prog/demo'' \<mapsto> ''elf'']" "''elf''" init_demo]
  show ?thesis by (simp only: c conf_broken_fields) simp
qed

end
