(* ===== verification/Fetch.thy ===== *)
theory Fetch
  imports Syscalls Backend
begin

text \<open>
  Outgoing requests (\<^verbatim>\<open>lib/libkvm/system_calls_fetch.cpp\<close>, \<^verbatim>\<open>self_request.cpp\<close>): the fetch system call of
  a guest, which copies the response into guest memory, and the self request at the head of a chain.
  Both share a counter that limits how many requests Varnish has to itself at a time. Libcurl is a
  parameter: from a request it makes the pieces it hands to the callbacks, a code, a status and a type.
\<close>

section \<open>Data\<close>

definition CURL_REQ_URL_MAX_LENGTH :: nat where
  "CURL_REQ_URL_MAX_LENGTH = 1024"

definition CURL_RESP_HEADERS_MIN_LENGTH :: u32 where
  "CURL_RESP_HEADERS_MIN_LENGTH = 64"

definition CONTENT_TYPE_LEN :: nat where
  "CONTENT_TYPE_LEN = 128"

definition CURL_FIELDS_NUM :: nat where
  "CURL_FIELDS_NUM = 12"

definition CURL_BUFFER_MAX :: u64 where
  "CURL_BUFFER_MAX = 256 * 1024 * 1024"

definition CURLE_URL_MALFORMAT :: u32 where
  "CURLE_URL_MALFORMAT = 3"

definition CURLE_WRITE_ERROR :: u32 where
  "CURLE_WRITE_ERROR = 23"

text \<open>\<open>struct opresult\<close> and its bytes.\<close>

record opresult =
  op_status :: u32
  op_post_buflen :: u32
  op_post_addr :: u64
  op_headers :: u64
  op_headers_length :: u32
  op_unused1 :: u32
  op_content_addr :: u64
  op_content_length :: u32
  op_ct_length :: u32
  op_ctype :: string

definition OPRESULT_SIZE :: nat where
  "OPRESULT_SIZE = 176"

definition dec_opresult :: "string \<Rightarrow> opresult" where
  "dec_opresult s =
     \<lparr>op_status = le_word (take 4 s), op_post_buflen = le_word (take 4 (drop 4 s)), op_post_addr = le_word (take 8 (drop 8 s)),
      op_headers = le_word (take 8 (drop 16 s)), op_headers_length = le_word (take 4 (drop 24 s)), op_unused1 = le_word (take 4 (drop 28 s)),
      op_content_addr = le_word (take 8 (drop 32 s)), op_content_length = le_word (take 4 (drop 40 s)),
      op_ct_length = le_word (take 4 (drop 44 s)), op_ctype = take CONTENT_TYPE_LEN (drop 48 s)\<rparr>"

definition enc_opresult :: "opresult \<Rightarrow> string" where
  "enc_opresult r =
     le_bytes 4 (op_status r) @ le_bytes 4 (op_post_buflen r) @ le_bytes 8 (op_post_addr r) @ le_bytes 8 (op_headers r) @
     le_bytes 4 (op_headers_length r) @ le_bytes 4 (op_unused1 r) @ le_bytes 8 (op_content_addr r) @
     le_bytes 4 (op_content_length r) @ le_bytes 4 (op_ct_length r) @ op_ctype r"

text \<open>\<open>struct curl_options\<close>.\<close>

record curl_options =
  cu_interface :: u64
  cu_follow_location :: bool
  cu_dummy_fetch :: bool
  cu_tcp_fast_open :: bool
  cu_dont_verify_host :: bool

definition dec_options :: "string \<Rightarrow> curl_options" where
  "dec_options s =
     (let flag = (\<lambda>i. s ! i \<noteq> CHR 0x00) in
      \<lparr>cu_interface = le_word (take 8 s), cu_follow_location = flag 16, cu_dummy_fetch = flag 17, cu_tcp_fast_open = flag 18,
       cu_dont_verify_host = flag 19\<rparr>)"

text \<open>
  What is set on the cURL handle. The body of a POST is what the read callback returns for the sizes
  libcurl asks it for.
\<close>

record curl_request =
  cq_url :: string
  cq_unix :: string
  cq_headers :: "string list"
  cq_want_headers :: bool
  cq_interface :: "string option"
  cq_follow :: bool
  cq_fast_open :: bool
  cq_no_verify :: bool
  cq_no_body :: bool
  cq_post :: "(u32 \<times> (nat list \<Rightarrow> string)) option"

text \<open>What libcurl does with it: the pieces for the write and header callbacks, and how it ends.\<close>

record curl_outcome =
  co_chunks :: "string list"
  co_header_lines :: "string list"
  co_code :: u32
  co_status :: u32
  co_ctype :: "string option"

record 'm fetch_env =
  fe_guest :: "'m guest_ops"
  fe_mmap_allocate :: "u64 \<Rightarrow> 'm \<Rightarrow> u64 \<times> 'm"
  fe_mmap_relax :: "u64 \<Rightarrow> u64 \<Rightarrow> u64 \<Rightarrow> 'm \<Rightarrow> 'm"
  fe_max_concurrency :: int
  fe_uri :: string
  fe_prefix :: string
  fe_set_unix :: "string \<Rightarrow> bool"
  fe_set_url :: "string \<Rightarrow> bool"
  fe_perform :: "curl_request \<Rightarrow> curl_outcome"

text \<open>The guest, the counter of self requests and the result register.\<close>

record 'm fetch_state =
  fx_vm :: 'm
  fx_count :: int
  fx_rax :: u64

section \<open>The callbacks\<close>

text \<open>The write callback over the pieces: the next address, the guest, and whether all were taken.\<close>

fun write_chunks :: "'m guest_ops \<Rightarrow> u64 \<Rightarrow> string list \<Rightarrow> u64 \<Rightarrow> 'm \<Rightarrow> u64 \<times> 'm \<times> bool" where
  "write_chunks G max_addr [] dst vm = (dst, vm, True)"
| "write_chunks G max_addr (c # cs) dst vm =
     (if dst + of_nat (length c) > max_addr then (dst, vm, False)
      else case go_write G dst c vm of
        Inl e \<Rightarrow> (dst, vm, False)
      | Inr vm \<Rightarrow> write_chunks G max_addr cs (dst + of_nat (length c)) vm)"

text \<open>The read callback over the sizes libcurl asks for. The number of bytes left is never lowered.\<close>

fun read_post :: "'m guest_ops \<Rightarrow> 'm \<Rightarrow> nat \<Rightarrow> u64 \<Rightarrow> nat list \<Rightarrow> string" where
  "read_post G vm bytes src [] = []"
| "read_post G vm bytes src (n # ns) =
     (case go_read G src (min bytes n) vm of
        Inl e \<Rightarrow> []
      | Inr s \<Rightarrow> s @ read_post G vm bytes (src + of_nat (min bytes n)) ns)"

section \<open>The system call\<close>

fun read_fields :: "'m guest_ops \<Rightarrow> 'm \<Rightarrow> (u64 \<times> u16) list \<Rightarrow> string list res" where
  "read_fields G vm [] = Inr []"
| "read_fields G vm ((addr, len) # fs) =
     bind_res (if addr \<noteq> 0 \<and> len \<noteq> 0 then go_read G addr (unat len) vm else Inr []) (\<lambda>f.
       bind_res (read_fields G vm fs) (\<lambda>r. Inr (f # r)))"

definition fetch_fields :: "'m guest_ops \<Rightarrow> u64 \<Rightarrow> 'm \<Rightarrow> string list res" where
  "fetch_fields G fields_buffer vm =
     (if fields_buffer = 0 then Inr (replicate CURL_FIELDS_NUM [])
      else bind_res (go_read G fields_buffer (CURL_FIELDS_NUM * 10) vm) (\<lambda>s.
        read_fields G vm (zip (dec_array 8 CURL_FIELDS_NUM s) (dec_array 2 CURL_FIELDS_NUM (drop (CURL_FIELDS_NUM * 8) s)))))"

text \<open>The request header fields: up to the first empty one, and the content type the guest gives.\<close>

definition fetch_headers :: "string list \<Rightarrow> opresult \<Rightarrow> string list" where
  "fetch_headers flds opres =
     map cstr (takeWhile (\<lambda>f. f \<noteq> []) flds) @
     (if 0 < op_ct_length opres \<and> unat (op_ct_length opres) < CONTENT_TYPE_LEN
      then [cstr (''Content-Type: '' @ take (unat (op_ct_length opres)) (op_ctype opres))] else [])"

text \<open>The options of a request; reading them may throw.\<close>

definition fetch_options :: "'m guest_ops \<Rightarrow> u64 \<Rightarrow> 'm \<Rightarrow> curl_request \<Rightarrow> curl_request res" where
  "fetch_options G options_buffer vm q =
     (if options_buffer = 0 then Inr (q\<lparr>cq_follow := True\<rparr>)
      else bind_res (go_read G options_buffer 24 vm) (\<lambda>s.
        let cu = dec_options s;
            q = q\<lparr>cq_follow := cu_follow_location cu, cq_fast_open := cu_tcp_fast_open cu, cq_no_verify := cu_dont_verify_host cu,
                  cq_no_body := cu_dummy_fetch cu\<rparr>
        in if cu_interface cu = 0 then Inr q
           else bind_res (go_cstring G (cu_interface cu) vm) (\<lambda>ifname. Inr (q\<lparr>cq_interface := Some ifname\<rparr>))))"

definition set_ctype :: "string option \<Rightarrow> opresult \<Rightarrow> opresult" where
  "set_ctype ctype opres =
     (case ctype of
        None \<Rightarrow> opres\<lparr>op_ct_length := 0\<rparr>
      | Some ct \<Rightarrow>
          let ctlen = min (length ct + 1) CONTENT_TYPE_LEN in
          opres\<lparr>op_ct_length := of_nat ctlen, op_ctype := take ctlen (ct @ [CHR 0x00]) @ drop ctlen (op_ctype opres)\<rparr>)"

text \<open>The response headers: a buffer of the guest's own is filled as far as it goes.\<close>

definition fetch_resp_headers :: "'m fetch_env \<Rightarrow> string \<Rightarrow> opresult \<Rightarrow> 'm \<Rightarrow> (opresult \<times> 'm) res" where
  "fetch_resp_headers E headers opres vm =
     (if headers = [] then Inr (opres, vm)
      else
        let len_with_zero = of_nat (length headers + 1) :: u32;
            (opres, len_with_zero, vm) =
              (if op_headers opres = 0 then
                 case fe_mmap_allocate E (ucast len_with_zero) vm of
                   (addr, vm) \<Rightarrow> (opres\<lparr>op_headers := addr, op_headers_length := of_nat (length headers)\<rparr>, len_with_zero, vm)
               else
                 let l = min len_with_zero (op_headers_length opres) in
                 (opres\<lparr>op_headers_length := (if l > 0 then l - 1 else 0)\<rparr>, l, vm))
        in bind_res (go_write (fe_guest E) (op_headers opres) (take (unat len_with_zero) (headers @ [CHR 0x00])) vm) (\<lambda>vm. Inr (opres, vm)))"

text \<open>The end of a transfer that succeeded: the result structure goes back to the guest.\<close>

definition fetch_finish :: "'m fetch_env \<Rightarrow> u64 \<Rightarrow> bool \<Rightarrow> u64 \<Rightarrow> curl_outcome \<Rightarrow> opresult \<Rightarrow> 'm \<Rightarrow> 'm \<times> bool" where
  "fetch_finish E op_buffer managed dst co opres vm =
     (let opres = opres\<lparr>op_content_length := ucast (dst - op_content_addr opres)\<rparr>;
          vm = (if managed then fe_mmap_relax E (op_content_addr opres) CURL_BUFFER_MAX (ucast (op_content_length opres)) vm else vm);
          opres = set_ctype (co_ctype co) (opres\<lparr>op_status := co_status co\<rparr>);
          headers = (if op_headers_length opres \<ge> CURL_RESP_HEADERS_MIN_LENGTH then concat (co_header_lines co) else [])
      in case fetch_resp_headers E headers opres vm of
           Inl e \<Rightarrow> (vm, False)
         | Inr (opres, vm) \<Rightarrow>
             (case go_write (fe_guest E) op_buffer (enc_opresult opres) vm of
                Inl e \<Rightarrow> (vm, False)
              | Inr vm \<Rightarrow> (vm, True)))"

definition relax_all :: "'m fetch_env \<Rightarrow> bool \<Rightarrow> opresult \<Rightarrow> 'm \<Rightarrow> 'm" where
  "relax_all E managed opres vm = (if managed then fe_mmap_relax E (op_content_addr opres) CURL_BUFFER_MAX 0 vm else vm)"

text \<open>
  The \<open>try\<close> block from the options on: the guest, and the result register. What it throws is caught:
  the buffer is given back and the result is minus one.
\<close>

definition fetch_transfer ::
    "'m fetch_env \<Rightarrow> u64 \<Rightarrow> u64 \<Rightarrow> bool \<Rightarrow> string \<Rightarrow> string \<Rightarrow> string list \<Rightarrow> opresult \<Rightarrow> 'm \<Rightarrow> 'm \<times> u64" where
  "fetch_transfer E op_buffer options_buffer managed url unix_path flds opres vm =
     (let is_post = (op_post_addr opres \<noteq> 0 \<and> op_post_buflen opres \<noteq> 0);
          q = \<lparr>cq_url = cstr url, cq_unix = unix_path, cq_headers = fetch_headers flds opres,
               cq_want_headers = (op_headers_length opres \<ge> CURL_RESP_HEADERS_MIN_LENGTH), cq_interface = None, cq_follow = False,
               cq_fast_open = False, cq_no_verify = False, cq_no_body = False,
               cq_post = (if is_post then Some (op_post_buflen opres,
                            read_post (fe_guest E) vm (unat (op_post_buflen opres)) (op_post_addr opres)) else None)\<rparr>
      in case fetch_options (fe_guest E) options_buffer vm q of
           Inl e \<Rightarrow> (relax_all E managed opres vm, -1)
         | Inr q \<Rightarrow>
             let co = fe_perform E q; addr = op_content_addr opres;
                 max_addr = max addr (addr + ucast (op_content_length opres));
                 (dst, vm, ok) = write_chunks (fe_guest E) max_addr (co_chunks co) addr vm;
                 res = (if ok then co_code co else CURLE_WRITE_ERROR)
             in if res = 0 then
                  (case fetch_finish E op_buffer managed dst co opres vm of
                     (vm, True) \<Rightarrow> (vm, 0)
                   | (vm, False) \<Rightarrow> (relax_all E managed opres vm, -1))
                else (relax_all E managed opres vm, - ucast res))"

text \<open>
  The part of the \<open>try\<close> block before the transfer and the end of the function. A request over the
  limit throws after it has taken its count back, and the end of the function takes it back again. The
  two errors while the handle is set up return at once.
\<close>

definition fetch_counted ::
    "'m fetch_env \<Rightarrow> u64 \<Rightarrow> u64 \<Rightarrow> bool \<Rightarrow> string \<Rightarrow> string \<Rightarrow> string list \<Rightarrow> opresult \<Rightarrow> 'm fetch_state \<Rightarrow> 'm fetch_state" where
  "fetch_counted E op_buffer options_buffer managed url unix_path flds opres s =
     (let is_self = (unix_path \<noteq> []) in
      if is_self \<and> fx_count s \<ge> fe_max_concurrency E
      then s\<lparr>fx_vm := relax_all E managed opres (fx_vm s), fx_rax := -1, fx_count := fx_count s + 1 - 1 - 1\<rparr>
      else
        let s = (if is_self then s\<lparr>fx_count := fx_count s + 1\<rparr> else s) in
        if is_self \<and> \<not> fe_set_unix E unix_path \<or> \<not> fe_set_url E (cstr url) then s\<lparr>fx_rax := -1\<rparr>
        else case fetch_transfer E op_buffer options_buffer managed url unix_path flds opres (fx_vm s) of
          (vm, rax) \<Rightarrow> s\<lparr>fx_vm := vm, fx_rax := rax, fx_count := (if is_self then fx_count s - 1 else fx_count s)\<rparr>)"

definition syscall_curl_fetch_helper :: "'m fetch_env \<Rightarrow> string \<Rightarrow> u64 \<Rightarrow> u64 \<Rightarrow> u64 \<Rightarrow> string \<Rightarrow> 'm fetch_state stmt" where
  "syscall_curl_fetch_helper E url op_buffer fields_buffer options_buffer unix_path s =
     (case go_read (fe_guest E) op_buffer OPRESULT_SIZE (fx_vm s) of
        Inl e \<Rightarrow> (s, Some e)
      | Inr bytes \<Rightarrow>
          (case fetch_fields (fe_guest E) fields_buffer (fx_vm s) of
             Inl e \<Rightarrow> (s, Some e)
           | Inr flds \<Rightarrow>
               let opres = dec_opresult bytes; managed = (op_content_addr opres = 0);
                   (opres, vm) = (if managed then case fe_mmap_allocate E CURL_BUFFER_MAX (fx_vm s) of
                       (addr, vm) \<Rightarrow> (opres\<lparr>op_content_addr := addr, op_content_length := ucast CURL_BUFFER_MAX\<rparr>, vm)
                     else (opres, fx_vm s));
                   s = s\<lparr>fx_vm := vm\<rparr>
               in if url = [] then (s\<lparr>fx_rax := - ucast CURLE_URL_MALFORMAT\<rparr>, None)
                  else (fetch_counted E op_buffer options_buffer managed url unix_path flds opres s, None)))"

text \<open>\<open>syscall_fetch\<close>: a path becomes a self request.\<close>

definition syscall_fetch :: "'m fetch_env \<Rightarrow> regs \<Rightarrow> 'm fetch_state stmt" where
  "syscall_fetch E r s =
     (case go_string (fe_guest E) (r_rdi r) (unat (r_rsi r)) CURL_REQ_URL_MAX_LENGTH (fx_vm s) of
        Inl e \<Rightarrow> (s, Some e)
      | Inr url \<Rightarrow>
          let is_self = (url \<noteq> [] \<and> hd url = CHR ''/'') in
          (case go_read (fe_guest E) (r_rdx r) OPRESULT_SIZE (fx_vm s) of
             Inl e \<Rightarrow> (s, Some e)
           | Inr bytes \<Rightarrow>
               syscall_curl_fetch_helper E (if is_self then fe_prefix E @ url else url) (r_rdx r) (r_rcx r) (r_r8 r)
                 (if is_self then fe_uri E else []) s))"

section \<open>Self requests of a chain\<close>

text \<open>
  \<open>set_error_result\<close> and the result of a request that was answered. The status has sixteen bits, as
  has the length of the type; \<open>ws\<close> says whether the workspace has room for the type.
\<close>

definition status16 :: "u32 \<Rightarrow> int" where
  "status16 status = sint (ucast status :: 16 word)"

definition set_error_result :: "u32 \<Rightarrow> bresult \<Rightarrow> bresult" where
  "set_error_result status r = r\<lparr>br_status := status16 status, br_content_length := 0, br_bufcount := 0, br_type := []\<rparr>"

definition self_result :: "curl_outcome \<Rightarrow> bool \<Rightarrow> bresult \<Rightarrow> bresult" where
  "self_result co ws r =
     (let chunk = concat (co_chunks co) in
      r\<lparr>br_type := (case co_ctype co of None \<Rightarrow> [] | Some ct \<Rightarrow> if ws then take (length ct mod 2 ^ 16) ct else []),
        br_status := status16 (co_status co), br_content_length := of_nat (length chunk), br_buffers := chunk # tl (br_buffers r),
        br_bufcount := 1, br_stream := None\<rparr>)"

definition self_url :: "'m fetch_env \<Rightarrow> string \<Rightarrow> string" where
  "self_url E path = take 2047 (cstr (fe_prefix E) @ path)"

definition self_query :: "'m fetch_env \<Rightarrow> string \<Rightarrow> string list \<Rightarrow> curl_request" where
  "self_query E path headers =
     \<lparr>cq_url = self_url E path, cq_unix = fe_uri E, cq_headers = map cstr headers, cq_want_headers = False, cq_interface = None,
      cq_follow = True, cq_fast_open = False, cq_no_verify = False, cq_no_body = False, cq_post = None\<rparr>"

text \<open>
  \<open>kvm_self_request\<close>: the result, the return value and the counter. \<open>parse\<close> makes the header fields of
  the JSON argument; its exception leaves the function into C code and ends the process, which is None.
  The URL is cut to the size of its buffer.
\<close>

definition kvm_self_request ::
    "'m fetch_env \<Rightarrow> (string \<Rightarrow> string list res) \<Rightarrow> bool \<Rightarrow> string \<Rightarrow> string \<Rightarrow> bresult \<Rightarrow> int \<Rightarrow> (bresult \<times> int \<times> int) option" where
  "kvm_self_request E parse ws path arg r active =
     (if path = [] \<or> hd path \<noteq> CHR ''/'' then Some (set_error_result 500 r, -1, active)
      else
        let over = (active \<ge> fe_max_concurrency E); active = active + 1 in
        if over then Some (set_error_result 500 r, -1, active - 1)
        else if self_url E path = [] then Some (set_error_result 500 r, -1, active - 1)
        else case (if arg = [] then Inr [] else parse arg) of
          Inl e \<Rightarrow> None
        | Inr headers \<Rightarrow>
            if fe_uri E \<noteq> [] \<and> \<not> fe_set_unix E (fe_uri E) then Some (set_error_result 500 r, -1, active - 1)
            else
              let co = fe_perform E (self_query E path headers)
              in if co_code co \<noteq> 0 then Some (set_error_result (co_status co) r, -1, active - 1)
                 else Some (self_result co ws r, 0, active - 1))"

text \<open>\<open>kvm_set_self_request\<close>: a slash at the end of the path of the socket is dropped.\<close>

definition kvm_set_self_request :: "string \<Rightarrow> string \<Rightarrow> int \<Rightarrow> 'm fetch_env \<Rightarrow> 'm fetch_env" where
  "kvm_set_self_request uri prefix max_concurrency E =
     E\<lparr>fe_uri := (if uri \<noteq> [] \<and> last uri = CHR ''/'' then butlast uri else uri), fe_prefix := prefix, fe_max_concurrency := max_concurrency\<rparr>"

text \<open>\<open>vmod_init_self_requests\<close>, with the message of its failures.\<close>

definition vmod_init_self_requests ::
    "bool \<Rightarrow> string option \<Rightarrow> string option \<Rightarrow> int \<Rightarrow> 'm fetch_env \<Rightarrow> string + 'm fetch_env" where
  "vmod_init_self_requests in_init unix_path uri max_concurrency E =
     (if \<not> in_init then Inl ''compute: self_request() should only be called from vcl_init''
      else if unix_path = None \<or> unix_path = Some [] then Inl ''compute: self_request() Unix path cannot be empty''
      else if uri = None \<or> uri = Some [] then Inl ''compute: self_request() URI cannot be empty''
      else if max_concurrency < 1 then Inl ''compute: self_request() max concurrency cannot be < 1''
      else Inr (kvm_set_self_request (the unix_path) (the uri) max_concurrency E))"


section \<open>Lemmas\<close>

lemma dec_enc_opresult [simp]: "length (op_ctype r) = CONTENT_TYPE_LEN \<Longrightarrow> dec_opresult (enc_opresult r) = r"
  by (simp add: dec_opresult_def enc_opresult_def CONTENT_TYPE_LEN_def)

lemma length_enc_opresult [simp]: "length (op_ctype r) = CONTENT_TYPE_LEN \<Longrightarrow> length (enc_opresult r) = OPRESULT_SIZE"
  by (simp add: enc_opresult_def CONTENT_TYPE_LEN_def OPRESULT_SIZE_def)

lemma set_ctype_length [simp]:
  "length (op_ctype r) = CONTENT_TYPE_LEN \<Longrightarrow> length (op_ctype (set_ctype ct r)) = CONTENT_TYPE_LEN"
  by (auto simp: set_ctype_def Let_def CONTENT_TYPE_LEN_def split: option.splits)

lemma set_ctype_fields [simp]:
  "op_status (set_ctype ct r) = op_status r" "op_content_length (set_ctype ct r) = op_content_length r"
  "op_headers_length (set_ctype ct r) = op_headers_length r"
  by (simp_all add: set_ctype_def Let_def split: option.splits)

lemma unat_u64_of_nat: "n < 2 ^ 64 \<Longrightarrow> unat (of_nat n :: u64) = n"
  by (simp add: unsigned_of_nat take_bit_nat_eq_self)

lemma ucast_u32_0: "(ucast (c :: u32) :: u64) = 0 \<longleftrightarrow> c = 0"
proof -
  have "ucast (ucast c :: u64) = c" by (rule bit_word_eqI) (simp add: bit_ucast_iff)
  then show ?thesis by auto
qed

lemma ucast_of_small: "n < 2 ^ 32 \<Longrightarrow> (ucast (of_nat n :: u64) :: u32) = of_nat n"
  by (simp add: unsigned_of_nat take_bit_nat_eq_self)

lemma unat_u64_lt: "unat (a :: u64) < 2 ^ 64"
  using unsigned_less [of a] by simp

lemma unat_u64_plus: "unat (a :: u64) + n < 2 ^ 64 \<Longrightarrow> unat (a + of_nat n) = unat a + n"
  by (simp add: unat_plus_if' unat_u64_of_nat)

text \<open>Writing two pieces one after the other is writing both.\<close>

lemma mem_write_append:
  assumes "length s + length t < 2 ^ 64"
  shows "mem_write (a + of_nat (length s)) t (mem_write a s m) = mem_write a (s @ t) m"
proof (rule ext)
  fix x
  define d where "d = x - a"
  have x: "x - (a + of_nat (length s)) = d - of_nat (length s)" by (simp add: d_def)
  have l: "unat (of_nat (length s) :: u64) = length s" using assms by (simp add: unat_u64_of_nat)
  show "mem_write (a + of_nat (length s)) t (mem_write a s m) x = mem_write a (s @ t) m x"
  proof (cases "length s \<le> unat d")
    case True
    then have "unat (d - of_nat (length s)) = unat d - length s" using l by (simp add: unat_sub_if')
    with True show ?thesis unfolding mem_write_def x d_def [symmetric] by (auto simp: nth_append)
  next
    case False
    then have "unat (d - of_nat (length s)) = 2 ^ 64 - length s + unat d"
      using False l assms by (simp add: unat_sub_if')
    then have "\<not> unat (d - of_nat (length s)) < length t" using assms by simp
    with False show ?thesis unfolding mem_write_def x d_def [symmetric] by (simp add: nth_append)
  qed
qed

text \<open>A guest never takes a write that runs over the end of its address space.\<close>

definition bounded_law :: "'m guest_ops \<Rightarrow> bool" where
  "bounded_law G \<longleftrightarrow> (\<forall>a s vm vm'. go_write G a s vm = Inr vm' \<longrightarrow> unat a + length s < 2 ^ 64)"

lemma mem_guest_laws: "write_law mem_guest (\<lambda>m. m)" "bounded_law mem_guest"
  by (auto simp: write_law_def bounded_law_def mem_guest_def split: if_splits)

lemma write_chunks_spec:
  assumes "write_law G mem" and "bounded_law G"
  shows "write_chunks G max_addr cs dst vm = (dst', vm', ok) \<Longrightarrow>
     \<exists>k\<le>length cs. (ok \<longrightarrow> k = length cs) \<and> dst' = dst + of_nat (length (concat (take k cs))) \<and>
       unat dst + length (concat (take k cs)) < 2 ^ 64 \<and> (k = 0 \<or> unat dst + length (concat (take k cs)) \<le> unat max_addr) \<and>
       mem vm' = mem_write dst (concat (take k cs)) (mem vm)"
proof (induction cs arbitrary: dst vm)
  case Nil
  then show ?case by (auto simp: mem_write_def unat_u64_lt [simplified])
next
  case (Cons c cs)
  show ?case
  proof (cases "dst + of_nat (length c) > max_addr \<or> (\<exists>e. go_write G dst c vm = Inl e)")
    case True
    with Cons.prems have "dst' = dst \<and> vm' = vm \<and> \<not> ok" by (auto split: if_splits)
    then show ?thesis by (auto intro!: exI [of _ 0] simp: mem_write_def unat_u64_lt [simplified])
  next
    case False
    then obtain vm1 where w: "go_write G dst c vm = Inr vm1" and le: "dst + of_nat (length c) \<le> max_addr"
      by (cases "go_write G dst c vm") auto
    have m1: "mem vm1 = mem_write dst c (mem vm)" and b: "unat dst + length c < 2 ^ 64"
      using assms w unfolding write_law_def bounded_law_def by blast+
    have u: "unat (dst + of_nat (length c)) = unat dst + length c"
      using b by (rule unat_u64_plus)
    have "write_chunks G max_addr cs (dst + of_nat (length c)) vm1 = (dst', vm', ok)"
      using Cons.prems w le by (simp add: linorder_not_less split: if_splits)
    from Cons.IH [OF this] obtain k where k: "k \<le> length cs" "ok \<longrightarrow> k = length cs"
      "dst' = dst + of_nat (length c) + of_nat (length (concat (take k cs)))"
      "unat dst + length c + length (concat (take k cs)) < 2 ^ 64"
      "k = 0 \<or> unat dst + length c + length (concat (take k cs)) \<le> unat max_addr"
      "mem vm' = mem_write (dst + of_nat (length c)) (concat (take k cs)) (mem vm1)"
      unfolding u by blast
    have "mem vm' = mem_write dst (c @ concat (take k cs)) (mem vm)"
      unfolding k(6) m1 using k(4) by (intro mem_write_append) simp
    then show ?thesis using k le u by (intro exI [of _ "Suc k"]) (auto simp: word_le_nat_alt algebra_simps)
  qed
qed

text \<open>The end of a transfer into a buffer of the guest, without response headers.\<close>

lemma fetch_finish_plain:
  assumes "fetch_finish E op_buffer False dst co opres vm = (vm', True)" and "op_headers_length opres < CURL_RESP_HEADERS_MIN_LENGTH"
    and "length (op_ctype opres) = CONTENT_TYPE_LEN"
  obtains r where "go_write (fe_guest E) op_buffer (enc_opresult r) vm = Inr vm'" "length (op_ctype r) = CONTENT_TYPE_LEN"
    "op_status r = co_status co" "op_content_length r = ucast (dst - op_content_addr opres)"
  using assms by (auto simp: fetch_finish_def fetch_resp_headers_def Let_def not_le [symmetric] split: sum.splits)

lemma fetch_options_keep:
  "fetch_options G options_buffer vm q = Inr q' \<Longrightarrow> cq_url q' = cq_url q \<and> cq_unix q' = cq_unix q \<and> cq_headers q' = cq_headers q"
  by (auto simp: fetch_options_def Let_def bind_res_def split: if_splits sum.splits)

text \<open>A transfer that reports success: libcurl, the write callback and the end of it have succeeded.\<close>

lemma fetch_transfer_ok:
  assumes "fetch_transfer E op_buffer options_buffer managed url unix_path flds opres vm = (vm', 0)"
  obtains q dst vm1 where "cq_url q = cstr url" "cq_unix q = unix_path" "cq_headers q = fetch_headers flds opres"
    "co_code (fe_perform E q) = 0"
    "write_chunks (fe_guest E) (max (op_content_addr opres) (op_content_addr opres + ucast (op_content_length opres)))
       (co_chunks (fe_perform E q)) (op_content_addr opres) vm = (dst, vm1, True)"
    "fetch_finish E op_buffer managed dst (fe_perform E q) opres vm1 = (vm', True)"
proof -
  obtain q where opt: "cq_url q = cstr url" "cq_unix q = unix_path" "cq_headers q = fetch_headers flds opres" and
    rest: "(let co = fe_perform E q; addr = op_content_addr opres; max_addr = max addr (addr + ucast (op_content_length opres));
             (dst, vm, ok) = write_chunks (fe_guest E) max_addr (co_chunks co) addr vm;
             res = (if ok then co_code co else CURLE_WRITE_ERROR)
         in if res = 0 then
              (case fetch_finish E op_buffer managed dst co opres vm of
                 (vm, True) \<Rightarrow> (vm, 0)
               | (vm, False) \<Rightarrow> (relax_all E managed opres vm, -1))
            else (relax_all E managed opres vm, - ucast res)) = (vm', 0 :: u64)"
    using assms unfolding fetch_transfer_def by (auto simp: Let_def split: sum.splits dest!: fetch_options_keep)
  obtain dst vm1 ok where w: "write_chunks (fe_guest E) (max (op_content_addr opres) (op_content_addr opres + ucast (op_content_length opres)))
      (co_chunks (fe_perform E q)) (op_content_addr opres) vm = (dst, vm1, ok)"
    by (metis prod_cases3)
  define res where "res = (if ok then co_code (fe_perform E q) else CURLE_WRITE_ERROR)"
  obtain vm2 fin where f: "fetch_finish E op_buffer managed dst (fe_perform E q) opres vm1 = (vm2, fin)" by fastforce
  have r: "res = 0" using rest ucast_u32_0 [of res] by (auto simp: Let_def w res_def [symmetric] split: if_splits)
  then have ok: "ok" "co_code (fe_perform E q) = 0" by (auto simp: res_def CURLE_WRITE_ERROR_def split: if_splits)
  then have "fin \<and> vm2 = vm'" using rest by (auto simp: Let_def w f split: bool.splits)
  with opt ok w f show ?thesis using that [of q dst vm1] by simp
qed


text \<open>A guest that fetches five bytes in two pieces into a page of its own.\<close>

definition fetch_demo :: "(u64 \<Rightarrow> char) fetch_env" where
  "fetch_demo =
     \<lparr>fe_guest = mem_guest, fe_mmap_allocate = (\<lambda>n m. (0x8000, m)), fe_mmap_relax = (\<lambda>a n k m. m), fe_max_concurrency = 2,
      fe_uri = ''/run/v.sock'', fe_prefix = ''http://127.0.0.1'', fe_set_unix = (\<lambda>p. True), fe_set_url = (\<lambda>u. True),
      fe_perform = (\<lambda>q. \<lparr>co_chunks = [''hel'', ''lo''], co_header_lines = [], co_code = 0, co_status = 200, co_ctype = None\<rparr>)\<rparr>"

definition opres_demo :: opresult where
  "opres_demo =
     \<lparr>op_status = 0, op_post_buflen = 0, op_post_addr = 0, op_headers = 0, op_headers_length = 0, op_unused1 = 0,
      op_content_addr = 0x2000, op_content_length = 64, op_ct_length = 0, op_ctype = replicate 128 CHR 0x00\<rparr>"

definition transfer_demo :: "(u64 \<Rightarrow> char) \<times> u64" where
  "transfer_demo = fetch_transfer fetch_demo 0x1000 0 False ''http://a/'' [] [] opres_demo (\<lambda>a. CHR 0x00)"

lemma opres_demo_ok: "length (op_ctype opres_demo) = CONTENT_TYPE_LEN" "op_headers_length opres_demo < CURL_RESP_HEADERS_MIN_LENGTH"
  by (simp_all add: opres_demo_def CURL_RESP_HEADERS_MIN_LENGTH_def CONTENT_TYPE_LEN_def)

lemma transfer_demo_ok: "snd transfer_demo = 0"
proof -
  have g: "fe_guest fetch_demo = mem_guest" "fe_perform fetch_demo q =
    \<lparr>co_chunks = [''hel'', ''lo''], co_header_lines = [], co_code = 0, co_status = 200, co_ctype = None\<rparr>" for q
    by (simp_all add: fetch_demo_def)
  have a: "op_content_addr opres_demo = 0x2000" "op_content_length opres_demo = 64" by (simp_all add: opres_demo_def)
  have w: "\<exists>vm'. go_write mem_guest 0x1000 (enc_opresult r) vm = Inr vm'" if "length (op_ctype r) = CONTENT_TYPE_LEN" for r vm
    using that by (simp add: mem_guest_def OPRESULT_SIZE_def)
  have f: "\<exists>vm'. fetch_finish fetch_demo 0x1000 False dst co opres_demo vm = (vm', True)" for dst co vm
    using opres_demo_ok w [of "set_ctype (co_ctype co) (opres_demo\<lparr>op_content_length := ucast (dst - op_content_addr opres_demo),
      op_status := co_status co\<rparr>)" vm]
    by (auto simp: fetch_finish_def fetch_resp_headers_def Let_def g linorder_not_le [symmetric])
  have "write_chunks mem_guest (max 0x2000 (0x2000 + ucast (64 :: u32))) [''hel'', ''lo''] 0x2000 vm =
      (0x2005, mem_write 0x2003 ''lo'' (mem_write 0x2000 ''hel'' vm), True)" for vm
    by (simp add: mem_guest_def)
  then show ?thesis
    using f [of "0x2005" "fe_perform fetch_demo undefined" "mem_write 0x2003 ''lo'' (mem_write 0x2000 ''hel'' (\<lambda>a. CHR 0x00))"]
    by (auto simp: transfer_demo_def fetch_transfer_def fetch_options_def Let_def g a split: prod.splits bool.splits)
qed


text \<open>
  A self request over the limit lowers the counter. When as many self requests are under way as
  are allowed, the next one is refused, but the counter then stands one below the requests that are
  under way, so that the one after it is carried out in spite of the limit.
\<close>

theorem refused_fetch_erodes_limit:
  assumes "fx_count s = fe_max_concurrency E" and "unix_path \<noteq> []" and "fe_set_unix E unix_path" and "fe_set_url E (cstr url)"
    and "fetch_counted E op_buffer options_buffer managed url unix_path flds opres s = s'"
    and "fetch_transfer E op_buffer options_buffer managed url unix_path flds opres (fx_vm s') = (vm, rax)"
  shows "fx_rax s' = -1 \<and> fx_count s' = fe_max_concurrency E - 1 \<and>
     fetch_counted E op_buffer options_buffer managed url unix_path flds opres s' =
       s'\<lparr>fx_vm := vm, fx_rax := rax, fx_count := fe_max_concurrency E - 1\<rparr>"
  using assms by (auto simp: fetch_counted_def Let_def)

definition full_demo :: "(u64 \<Rightarrow> char) fetch_state" where
  "full_demo = \<lparr>fx_vm = (\<lambda>a. CHR 0x00), fx_count = 2, fx_rax = 0\<rparr>"

theorem refused_fetch_erodes_limit_witness:
  "fx_rax (fetch_counted fetch_demo 0x1000 0 False ''http://127.0.0.1/x'' ''/run/v.sock'' [] opres_demo full_demo) = -1"
  using refused_fetch_erodes_limit [of full_demo fetch_demo "''/run/v.sock''" "''http://127.0.0.1/x''", OF _ _ _ _ refl,
    where op_buffer = "0x1000" and options_buffer = 0 and managed = False and flds = "[]" and opres = opres_demo]
  by (cases "fetch_transfer fetch_demo 0x1000 0 False ''http://127.0.0.1/x'' ''/run/v.sock'' [] opres_demo
    (fx_vm (fetch_counted fetch_demo 0x1000 0 False ''http://127.0.0.1/x'' ''/run/v.sock'' [] opres_demo full_demo))")
    (simp add: full_demo_def fetch_demo_def)

lemma self_request_cases:
  assumes "kvm_self_request E parse ws path arg r active = Some (r', ret, active')"
  obtains (failed) status where "r' = set_error_result status r" "ret = -1" "active' = active"
  | (answered) headers where "arg = [] \<and> headers = [] \<or> parse arg = Inr headers" "active < fe_max_concurrency E" "hd path = CHR ''/''"
      "co_code (fe_perform E (self_query E path headers)) = 0" "r' = self_result (fe_perform E (self_query E path headers)) ws r"
      "ret = 0" "active' = active"
proof (cases "if arg = [] then Inr [] else parse arg")
  case (Inl e)
  with assms have "r' = set_error_result 500 r" "ret = -1" "active' = active"
    by (auto simp: kvm_self_request_def Let_def split: if_splits)
  then show ?thesis by (rule failed)
next
  case (Inr headers)
  then have h: "arg = [] \<and> headers = [] \<or> parse arg = Inr headers" by (auto split: if_splits)
  define co where "co = fe_perform E (self_query E path headers)"
  define early where "early \<longleftrightarrow> path = [] \<or> hd path \<noteq> CHR ''/'' \<or> active \<ge> fe_max_concurrency E \<or> self_url E path = [] \<or>
    fe_uri E \<noteq> [] \<and> \<not> fe_set_unix E (fe_uri E)"
  have k: "kvm_self_request E parse ws path arg r active =
    (if early then Some (set_error_result 500 r, -1, active)
     else if co_code co \<noteq> 0 then Some (set_error_result (co_status co) r, -1, active) else Some (self_result co ws r, 0, active))"
    using Inr by (simp add: kvm_self_request_def Let_def early_def co_def)
  show ?thesis
  proof (cases "early \<or> co_code co \<noteq> 0")
    case True
    then have "r' = set_error_result (if early then 500 else co_status co) r" "ret = -1" "active' = active"
      using assms k by (auto split: if_splits)
    then show ?thesis by (rule failed)
  next
    case False
    then have "active < fe_max_concurrency E" "hd path = CHR ''/''" "co_code co = 0" by (auto simp: early_def)
    moreover from False have "r' = self_result co ws r" "ret = 0" "active' = active" using assms k by auto
    ultimately show ?thesis by (rule answered [OF h, folded co_def])
  qed
qed

text \<open>
  C37. A self request at the head of a chain. Whenever it returns, the counter is as before; it returns
  zero only for a path, under the limit, when libcurl has succeeded, and then the result is the whole
  response as one buffer, with its length; otherwise it returns minus one and a result without content.
\<close>

theorem self_request_balanced:
  assumes "kvm_self_request E parse ws path arg r active = Some (r', ret, active')"
  shows "active' = active \<and>
    (if ret = 0 then active < fe_max_concurrency E \<and> hd path = CHR ''/'' \<and>
       (\<exists>headers. (arg = [] \<and> headers = [] \<or> parse arg = Inr headers) \<and>
          (let co = fe_perform E (self_query E path headers)
           in co_code co = 0 \<and> br_bufcount r' = 1 \<and> hd (br_buffers r') = concat (co_chunks co) \<and>
              br_content_length r' = of_nat (length (hd (br_buffers r'))) \<and> br_status r' = status16 (co_status co)))
     else ret = -1 \<and> br_bufcount r' = 0 \<and> br_content_length r' = 0)"
  using assms
proof (cases rule: self_request_cases)
  case (failed status)
  then show ?thesis by (simp add: set_error_result_def)
next
  case (answered headers)
  then show ?thesis by (intro conjI) (simp_all, rule exI [of _ headers], simp add: Let_def self_result_def)
qed

theorem self_request_balanced_witness:
  "\<exists>r'. kvm_self_request fetch_demo (\<lambda>a. Inr [a]) True ''/x'' [] error_result 1 = Some (r', 0, 1) \<and> hd (br_buffers r') = ''hello''"
proof -
  obtain r' ret active' where k: "kvm_self_request fetch_demo (\<lambda>a. Inr [a]) True ''/x'' [] error_result 1 = Some (r', ret, active')"
    and ret: "ret = 0"
    by (auto simp: kvm_self_request_def fetch_demo_def self_url_def Let_def cstr_def)
  from self_request_balanced [OF k] k ret show ?thesis by (auto simp: Let_def fetch_demo_def)
qed

end
