(* ===== verification/Epoll.thy ===== *)
theory Epoll
  imports Backend
begin

text \<open>
  The socket server of a program (\<^verbatim>\<open>lib/libkvm/server/epoll.cpp\<close>): it accepts connections, reads what
  they send into buffers in the memory of a VM of its own, and resumes that VM with a list of events.
  The operating system is an explicit input: what \<open>epoll_wait\<close> reports, and for each report what the
  calls on the socket return.
\<close>

section \<open>Data\<close>

definition MAX_READ_BUFFER :: nat where
  "MAX_READ_BUFFER = 2 ^ 20"

definition MAX_READ_BUFFERS :: nat where
  "MAX_READ_BUFFERS = 32"

definition MAX_WRITE_BUFFERS :: nat where
  "MAX_WRITE_BUFFERS = 32"

definition CALLBACK_TIMEOUT :: float32 where
  "CALLBACK_TIMEOUT = 0x41000000"

record socket_event =
  se_fd :: "32 word"
  se_event :: u32
  se_remote :: u64
  se_arg :: u64
  se_data :: u64
  se_data_len :: u64

definition event_new :: "32 word \<Rightarrow> u32 \<Rightarrow> socket_event" where
  "event_new fd event = \<lparr>se_fd = fd, se_event = event, se_remote = 0, se_arg = 0, se_data = 0, se_data_len = 0\<rparr>"

definition EVENT_SIZE :: nat where
  "EVENT_SIZE = 40"

definition enc_event :: "socket_event \<Rightarrow> string" where
  "enc_event e = le_bytes 4 (se_fd e) @ le_bytes 4 (se_event e) @ le_bytes 8 (se_remote e) @ le_bytes 8 (se_arg e) @
     le_bytes 8 (se_data e) @ le_bytes 8 (se_data_len e)"

definition dec_event :: "string \<Rightarrow> socket_event" where
  "dec_event s = \<lparr>se_fd = le_word (take 4 s), se_event = le_word (take 4 (drop 4 s)), se_remote = le_word (take 8 (drop 8 s)),
     se_arg = le_word (take 8 (drop 16 s)), se_data = le_word (take 8 (drop 24 s)), se_data_len = le_word (take 8 (drop 32 s))\<rparr>"

text \<open>
  The virtual machine, its table of file descriptors, and how \<open>readv\<close> puts bytes into guest memory;
  \<open>ee_view\<close> is the content of guest memory.
\<close>

record 'm epoll_env =
  ee_guest :: "'m guest_ops"
  ee_exec :: "'m exec_ops"
  ee_vm :: "'m vm_ops"
  ee_fds_manage :: "int \<Rightarrow> 'm \<Rightarrow> 32 word \<times> 'm"
  ee_fds_free :: "32 word \<Rightarrow> 'm \<Rightarrow> 'm"
  ee_fds_translate :: "32 word \<Rightarrow> 'm \<Rightarrow> int res"
  ee_store :: "u64 \<Rightarrow> string \<Rightarrow> 'm \<Rightarrow> 'm"
  ee_view :: "'m \<Rightarrow> u64 \<Rightarrow> char"

text \<open>
  \<open>EpollServer\<close>, with the queue of events. \<open>es_closed\<close> are the descriptors that have been closed, in
  order, \<open>es_handed\<close> is what has been handed to the VM: of each event the socket and the bytes it points
  at, and \<open>es_exceptions\<close> counts the exceptions that the loop has printed.
\<close>

record 'm epoll =
  es_mi :: "'m machine"
  es_buffers :: "u64 list"
  es_current :: nat
  es_fd_to_vfd :: "int \<rightharpoonup> 32 word"
  es_running :: bool
  es_queue :: "socket_event list"
  es_closed :: "int list"
  es_handed :: "(32 word \<times> string) list"
  es_exceptions :: nat

text \<open>What the operating system answers: to a read, to an accepted connection, and to \<open>epoll_wait\<close>.\<close>

datatype read_result = ReadData string | ReadEof | ReadAgain | ReadFailed

record accepted =
  ac_fd :: int
  ac_nonblock :: bool
  ac_add :: bool

datatype ep_report =
    Listening "accepted list"
  | Signalled
  | Socket int bool bool bool "read_result list"

section \<open>Resuming the VM\<close>

definition event_bytes :: "'m epoll_env \<Rightarrow> 'm \<Rightarrow> socket_event \<Rightarrow> 32 word \<times> string" where
  "event_bytes E vm e = (se_fd e, mem_read (ee_view E vm) (se_data e) (unat (se_data_len e)))"

definition skip_out_insn :: "'m exec_ops \<Rightarrow> 'm \<Rightarrow> 'm" where
  "skip_out_insn X vm = (let r = x_regs X vm in x_set_regs X (r\<lparr>r_rip := r_rip r + 2\<rparr>) vm)"

text \<open>\<open>EpollServer::resume\<close>: the events go to the address in RDI and their number to RAX.\<close>

definition epoll_resume :: "'m epoll_env \<Rightarrow> socket_event list \<Rightarrow> 'm machine stmt" where
  "epoll_resume E evs mi =
     (let X = ee_exec E; r = x_regs X (mi_vm mi) in
      case go_write (ee_guest E) (r_rdi r) (concat (map enc_event evs)) (mi_vm mi) of
        Inl e \<Rightarrow> (mi, Some e)
      | Inr vm \<Rightarrow>
          (case x_run X (VResume CALLBACK_TIMEOUT)
                  (mi\<lparr>mi_vm := x_set_regs X (r\<lparr>r_rax := of_nat (length evs)\<rparr>) vm, mi_waiting := False\<rparr>) of
             (mi, Some e) \<Rightarrow> (mi, Some e)
           | (mi, None) \<Rightarrow>
               if mi_waiting mi then (mi\<lparr>mi_vm := skip_out_insn X (mi_vm mi)\<rparr>, None)
               else (mi, Some (RuntimeError ''EpollServer: VM is not waiting for requests''))))"

text \<open>\<open>flush\<close>. When the VM cannot be resumed the queue and the position are left as they are.\<close>

definition epoll_flush :: "'m epoll_env \<Rightarrow> 'm epoll stmt" where
  "epoll_flush E s =
     (if es_queue s = [] then (s\<lparr>es_current := 0\<rparr>, None)
      else case epoll_resume E (es_queue s) (es_mi s) of
        (mi, Some e) \<Rightarrow> (s\<lparr>es_mi := mi\<rparr>, Some e)
      | (mi, None) \<Rightarrow>
          (s\<lparr>es_handed := es_handed s @ map (event_bytes E (mi_vm (es_mi s))) (es_queue s), es_mi := mi, es_queue := [], es_current := 0\<rparr>,
           None))"

section \<open>Sockets\<close>

definition push_event :: "socket_event \<Rightarrow> 'm epoll \<Rightarrow> 'm epoll" where
  "push_event e s = s\<lparr>es_queue := es_queue s @ [e]\<rparr>"

definition set_vm :: "'m \<Rightarrow> 'm epoll \<Rightarrow> 'm epoll" where
  "set_vm vm s = s\<lparr>es_mi := (es_mi s)\<lparr>mi_vm := vm\<rparr>\<rparr>"

definition epoll_close :: "int \<Rightarrow> 'm epoll \<Rightarrow> 'm epoll" where
  "epoll_close fd s = s\<lparr>es_closed := es_closed s @ [fd]\<rparr>"

text \<open>\<open>epoll_add\<close>: a socket that cannot be added is closed.\<close>

definition epoll_add :: "accepted \<Rightarrow> 'm epoll \<Rightarrow> 'm epoll \<times> bool" where
  "epoll_add a s = (if ac_add a then (s, True) else (epoll_close (ac_fd a) s, False))"

text \<open>
  \<open>manage\<close>: the peer and the argument of a new connection are put into the next read buffer. With no
  buffer left, \<open>at\<close> throws.
\<close>

definition epoll_manage :: "'m epoll_env \<Rightarrow> accepted \<Rightarrow> 'm epoll \<Rightarrow> 'm epoll \<times> bool res" where
  "epoll_manage E a s =
     (if \<not> ac_nonblock a then (s, Inr False)
      else case ee_fds_manage E (ac_fd a) (mi_vm (es_mi s)) of
        (vfd, vm) \<Rightarrow>
          if es_current s \<ge> length (es_buffers s) then (set_vm vm s, Inl (OutOfRange ''vector::at''))
          else
            let stack = es_buffers s ! es_current s + 0x1000; s = (set_vm vm s)\<lparr>es_current := es_current s + 1\<rparr> in
            case x_push (ee_exec E) (''(unknown)'' @ [CHR 0x00]) stack vm of
              Inl e \<Rightarrow> (s, Inl e)
            | Inr (remote, vm) \<Rightarrow>
                (case x_push (ee_exec E) [CHR 0x00] remote vm of
                   Inl e \<Rightarrow> (set_vm vm s, Inl e)
                 | Inr (arg, vm) \<Rightarrow>
                     let s = push_event ((event_new vfd 0)\<lparr>se_remote := remote, se_arg := arg\<rparr>) (set_vm vm s);
                         (s, added) = epoll_add a (s\<lparr>es_fd_to_vfd := (es_fd_to_vfd s)(ac_fd a \<mapsto> vfd)\<rparr>)
                     in (s, Inr added)))"

text \<open>
  What a read puts into the current buffer, with its event: the event has the code of a writable
  socket.
\<close>

definition read_event :: "'m epoll_env \<Rightarrow> 32 word \<Rightarrow> string \<Rightarrow> 'm epoll \<Rightarrow> 'm epoll" where
  "read_event E vfd d s =
     (let addr = es_buffers s ! es_current s in
      push_event ((event_new vfd 2)\<lparr>se_data := addr, se_data_len := of_nat (length d)\<rparr>)
        ((set_vm (ee_store E addr d (mi_vm (es_mi s))) s)\<lparr>es_current := es_current s + 1\<rparr>))"

text \<open>
  The loop of \<open>fd_readable\<close> over the answers to its reads, and the result of the last one. It ends when
  a read gives nothing or when it has read as much as one buffer holds; with no more answers, reading
  would block.
\<close>

fun fd_readable :: "'m epoll_env \<Rightarrow> int \<Rightarrow> read_result list \<Rightarrow> nat \<Rightarrow> 'm epoll \<Rightarrow> 'm epoll \<times> read_result res" where
  "fd_readable E fd [] tot s =
     (case (if es_current s \<ge> length (es_buffers s) then epoll_flush E s else (s, None)) of
        (s, Some e) \<Rightarrow> (s, Inl e)
      | (s, None) \<Rightarrow> if es_current s \<ge> length (es_buffers s) then (s, Inl (OutOfRange ''vector::at'')) else (s, Inr ReadAgain))"
| "fd_readable E fd (r # rs) tot s =
     (case (if es_current s \<ge> length (es_buffers s) then epoll_flush E s else (s, None)) of
        (s, Some e) \<Rightarrow> (s, Inl e)
      | (s, None) \<Rightarrow>
          if es_current s \<ge> length (es_buffers s) then (s, Inl (OutOfRange ''vector::at''))
          else
            (case r of
               ReadData d \<Rightarrow>
                 (case es_fd_to_vfd s fd of
                    None \<Rightarrow> (set_vm (ee_store E (es_buffers s ! es_current s) d (mi_vm (es_mi s))) s, Inl (OutOfRange ''unordered_map::at''))
                  | Some vfd \<Rightarrow>
                      if tot + length d < MAX_READ_BUFFER then fd_readable E fd rs (tot + length d) (read_event E vfd d s)
                      else (read_event E vfd d s, Inr r))
             | _ \<Rightarrow> (s, Inr r)))"

definition fd_writable :: "int \<Rightarrow> 'm epoll stmt" where
  "fd_writable fd s =
     (case es_fd_to_vfd s fd of
        None \<Rightarrow> (s, Some (OutOfRange ''unordered_map::at''))
      | Some vfd \<Rightarrow> (push_event (event_new vfd 2) s, None))"

text \<open>\<open>hangup\<close>: the socket is closed before it is looked up.\<close>

definition epoll_hangup :: "'m epoll_env \<Rightarrow> int \<Rightarrow> 'm epoll stmt" where
  "epoll_hangup E fd s =
     (let s = epoll_close fd s in
      case es_fd_to_vfd s fd of
        None \<Rightarrow> (s, Some (OutOfRange ''unordered_map::at''))
      | Some vfd \<Rightarrow>
          (push_event (event_new vfd 3) ((set_vm (ee_fds_free E vfd (mi_vm (es_mi s))) s)\<lparr>es_fd_to_vfd := (es_fd_to_vfd s)(fd := None)\<rparr>),
           None))"

section \<open>The loop\<close>

text \<open>Accepting connections. An exception of \<open>manage\<close> leaves the thread, which ends the process.\<close>

fun epoll_accept :: "'m epoll_env \<Rightarrow> accepted list \<Rightarrow> 'm epoll \<Rightarrow> 'm epoll option" where
  "epoll_accept E [] s = Some s"
| "epoll_accept E (a # as) s =
     (case epoll_manage E a s of
        (s, Inl e) \<Rightarrow> None
      | (s, Inr True) \<Rightarrow> epoll_accept E as s
      | (s, Inr False) \<Rightarrow> epoll_accept E as (epoll_close (ac_fd a) s))"

text \<open>
  A report about a socket: readable, writable, hung up. After a read that has taken everything there is,
  and after one that failed, the rest of the report is skipped. Exceptions are printed.
\<close>

definition caught :: "'m epoll \<times> exn option \<Rightarrow> 'm epoll" where
  "caught r = (case r of (s, None) \<Rightarrow> s | (s, Some e) \<Rightarrow> s\<lparr>es_exceptions := es_exceptions s + 1\<rparr>)"

definition epoll_rest :: "'m epoll_env \<Rightarrow> int \<Rightarrow> bool \<Rightarrow> bool \<Rightarrow> 'm epoll \<Rightarrow> 'm epoll" where
  "epoll_rest E fd writable hup s =
     (let s = (if writable then caught (fd_writable fd s) else s) in if hup then caught (epoll_hangup E fd s) else s)"

definition epoll_socket :: "'m epoll_env \<Rightarrow> int \<Rightarrow> bool \<Rightarrow> bool \<Rightarrow> bool \<Rightarrow> read_result list \<Rightarrow> 'm epoll \<Rightarrow> 'm epoll" where
  "epoll_socket E fd readable writable hup reads s =
     (let rest = epoll_rest E fd writable hup;
          close = (\<lambda>s. case epoll_hangup E fd s of (s, None) \<Rightarrow> s | (s, Some e) \<Rightarrow> rest (caught (s, Some e)))
      in if readable then
           (case fd_readable E fd reads 0 s of
              (s, Inl e) \<Rightarrow> rest (caught (s, Some e))
            | (s, Inr ReadAgain) \<Rightarrow> s
            | (s, Inr ReadEof) \<Rightarrow> close s
            | (s, Inr ReadFailed) \<Rightarrow> close s
            | (s, Inr (ReadData d)) \<Rightarrow> rest s)
         else rest s)"

fun epoll_report :: "'m epoll_env \<Rightarrow> ep_report \<Rightarrow> 'm epoll \<Rightarrow> 'm epoll option" where
  "epoll_report E (Listening as) s = epoll_accept E as s"
| "epoll_report E Signalled s = Some (s\<lparr>es_running := False\<rparr>)"
| "epoll_report E (Socket fd readable writable hup reads) s = Some (epoll_socket E fd readable writable hup reads s)"

fun epoll_reports :: "'m epoll_env \<Rightarrow> ep_report list \<Rightarrow> 'm epoll \<Rightarrow> 'm epoll option" where
  "epoll_reports E [] s = Some s"
| "epoll_reports E (r # rs) s = (case epoll_report E r s of None \<Rightarrow> None | Some s \<Rightarrow> epoll_reports E rs s)"

definition epoll_iterate :: "'m epoll_env \<Rightarrow> ep_report list \<Rightarrow> 'm epoll \<Rightarrow> 'm epoll option" where
  "epoll_iterate E rs s =
     (case epoll_reports E rs s of
        None \<Rightarrow> None
      | Some s \<Rightarrow> (case epoll_flush E s of (s, None) \<Rightarrow> Some s | (s, Some e) \<Rightarrow> None))"

text \<open>\<open>epoll_main_loop\<close> over what the calls of \<open>epoll_wait\<close> report; None ends the process.\<close>

fun epoll_main_loop :: "'m epoll_env \<Rightarrow> ep_report list list \<Rightarrow> 'm epoll \<Rightarrow> 'm epoll option" where
  "epoll_main_loop E [] s = Some s"
| "epoll_main_loop E (rs # rss) s =
     (if \<not> es_running s then Some s
      else case epoll_iterate E rs s of None \<Rightarrow> None | Some s \<Rightarrow> epoll_main_loop E rss s)"

section \<open>Starting the server\<close>

text \<open>The outcomes of the calls that open the sockets, and the descriptors they open.\<close>

record ep_setup =
  eo_socket :: bool
  eo_reuseaddr :: bool
  eo_bind :: bool
  eo_listen :: bool
  eo_add_listen :: bool
  eo_eventfd :: bool
  eo_add_event :: bool

datatype host_fd = EpollFd | ListenFd | EventFd

definition epoll_open :: "ep_setup \<Rightarrow> tenant_conf \<Rightarrow> host_fd list \<times> exn option" where
  "epoll_open Z t =
     (let fail = (\<lambda>fds m. (fds, Some (RuntimeError m))); is_unix = (g_server_port (t_group t) = 0) in
      if \<not> eo_socket Z then fail [EpollFd] ''Failed to create socket''
      else if \<not> eo_reuseaddr Z then fail [EpollFd] ''Failed to set socket options''
      else if is_unix \<and> g_server_address (t_group t) = [] then fail [EpollFd, ListenFd] (''Invalid server address: '' @ [CHR 0x27, CHR 0x27])
      else if \<not> eo_bind Z then fail [EpollFd] ''Failed to bind socket''
      else if \<not> eo_listen Z then fail [EpollFd] ''Failed to listen on socket''
      else if \<not> eo_add_listen Z then fail [EpollFd] ''Failed to add socket to epoll''
      else if \<not> eo_eventfd Z then fail [EpollFd] ''Failed to create eventfd''
      else if \<not> eo_add_event Z then fail [EpollFd] ''Failed to add eventfd to epoll''
      else ([EpollFd, ListenFd, EventFd], None))"

text \<open>The VM of the server is forked, called, and has to wait; RSI then has the number of buffers.\<close>

definition epoll_start_vm :: "'m epoll_env \<Rightarrow> entries \<Rightarrow> tenant_conf \<Rightarrow> 'm machine \<Rightarrow> u64 \<Rightarrow> ('m machine \<times> nat) res" where
  "epoll_start_vm E es t main system_id =
     bind_res (entry_at es (entry_index SOCKET_PAUSE_RESUME_API)) (\<lambda>entry.
       if entry = 0 then Inl (RuntimeError ''EpollServer: Pause-resume API not waiting for requests'')
       else case x_run (ee_exec E) (VCall entry [AInt system_id] CALLBACK_TIMEOUT) ((machine_fork (ee_vm E) t main)\<lparr>mi_waiting := False\<rparr>) of
         (mi, Some e) \<Rightarrow> Inl e
       | (mi, None) \<Rightarrow>
           if mi_waiting mi
           then let mi = mi\<lparr>mi_vm := skip_out_insn (ee_exec E) (mi_vm mi)\<rparr>
                in Inr (mi, min MAX_READ_BUFFERS (max 1 (unat (r_rsi (x_regs (ee_exec E) (mi_vm mi))))))
           else Inl (RuntimeError ''VM is not waiting for requests''))"

definition epoll_server ::
    "'m epoll_env \<Rightarrow> ep_setup \<Rightarrow> bool \<Rightarrow> entries \<Rightarrow> tenant_conf \<Rightarrow> 'm machine \<Rightarrow> u64 \<Rightarrow> host_fd list \<times> 'm epoll res" where
  "epoll_server E Z has_storage es t main system_id =
     (if \<not> has_storage then ([], Inl (RuntimeError ''EpollServer requires a storage VM''))
      else case epoll_open Z t of
        (fds, Some e) \<Rightarrow> (fds, Inl e)
      | (fds, None) \<Rightarrow>
          (fds, bind_res (epoll_start_vm E es t main system_id) (\<lambda>(mi, needed_buffers).
             let (allocation, mi) = allocate_post_data (ee_vm E) (of_nat (MAX_READ_BUFFER * needed_buffers)) mi in
             if allocation = 0 then Inl (RuntimeError ''Failed to allocate read buffers'')
             else Inr \<lparr>es_mi = mi, es_buffers = map (\<lambda>i. allocation + of_nat (i * MAX_READ_BUFFER)) [0..<needed_buffers], es_current = 0,
                       es_fd_to_vfd = Map.empty, es_running = True, es_queue = [], es_closed = [], es_handed = [], es_exceptions = 0\<rparr>)))"

text \<open>
  \<open>stop\<close> and the destructor. The thread is either at the condition of its loop (\<open>reports\<close> is None) or
  waits for a report, which it still handles; None is that the process ends there.
\<close>

definition epoll_stop ::
    "'m epoll_env \<Rightarrow> ep_report list option \<Rightarrow> host_fd list \<times> 'm epoll \<Rightarrow> (host_fd list \<times> 'm epoll) option" where
  "epoll_stop E reports srv =
     (case srv of (fds, s) \<Rightarrow>
        let s = s\<lparr>es_running := False\<rparr> in
        case (case reports of None \<Rightarrow> Some s | Some rs \<Rightarrow> epoll_iterate E rs s) of
          None \<Rightarrow> None
        | Some s \<Rightarrow> Some (filter (\<lambda>f. f \<notin> {EpollFd, ListenFd, EventFd}) fds, s))"

definition epoll_destroy ::
    "'m epoll_env \<Rightarrow> ep_report list option \<Rightarrow> host_fd list \<times> 'm epoll \<Rightarrow> (host_fd list \<times> 'm epoll) option" where
  "epoll_destroy E reports srv = (if es_running (snd srv) then epoll_stop E reports srv else Some srv)"

section \<open>Writing to sockets\<close>

text \<open>
  \<open>syscall_sockets_write\<close>: \<open>writev\<close> gives an error number or the number of bytes, and \<open>again\<close> are the
  error numbers of a full socket. The result replaces the descriptor in the event.
\<close>

fun sockets_write_loop ::
    "'m epoll_env \<Rightarrow> (32 word \<Rightarrow> bool) \<Rightarrow> (int \<Rightarrow> string \<Rightarrow> 32 word + nat) \<Rightarrow> u64 \<Rightarrow> socket_event list \<Rightarrow> 'm stmt" where
  "sockets_write_loop E again writev addr [] vm = (vm, None)"
| "sockets_write_loop E again writev addr (e # evs) vm =
     (let put = (\<lambda>w. case go_write (ee_guest E) addr (le_bytes 4 (w :: 32 word)) vm of
                   Inl ex \<Rightarrow> (vm, Some ex)
                 | Inr vm \<Rightarrow> sockets_write_loop E again writev (addr + of_nat EVENT_SIZE) evs vm)
      in if se_event e \<noteq> 2 then sockets_write_loop E again writev (addr + of_nat EVENT_SIZE) evs vm
         else case go_gather (ee_guest E) 256 (se_data e) (se_data_len e) vm of
           Inl ex \<Rightarrow> (vm, Some ex)
         | Inr buffers \<Rightarrow>
             (case ee_fds_translate E (se_fd e) vm of
                Inl ex \<Rightarrow> (vm, Some ex)
              | Inr fd \<Rightarrow>
                  (case writev fd (concat buffers) of
                     Inr written \<Rightarrow> put (of_nat written)
                   | Inl errno \<Rightarrow>
                       if again errno then sockets_write_loop E again writev (addr + of_nat EVENT_SIZE) evs vm else put (- errno))))"

fun dec_events :: "nat \<Rightarrow> string \<Rightarrow> socket_event list" where
  "dec_events 0 s = []"
| "dec_events (Suc n) s = dec_event (take EVENT_SIZE s) # dec_events n (drop EVENT_SIZE s)"

definition syscall_sockets_write ::
    "'m epoll_env \<Rightarrow> (32 word \<Rightarrow> bool) \<Rightarrow> (int \<Rightarrow> string \<Rightarrow> 32 word + nat) \<Rightarrow> regs \<Rightarrow> 'm \<Rightarrow> (regs \<times> 'm) \<times> exn option" where
  "syscall_sockets_write E again writev r vm =
     (let cnt = min MAX_WRITE_BUFFERS (max 1 (unat (r_rsi r))) in
      case go_read (ee_guest E) (r_rdi r) (cnt * EVENT_SIZE) vm of
        Inl e \<Rightarrow> ((r, vm), Some e)
      | Inr bytes \<Rightarrow> (case sockets_write_loop E again writev (r_rdi r) (dec_events cnt bytes) vm of (vm, e) \<Rightarrow> ((r, vm), e)))"

section \<open>The WebSocket server\<close>

text \<open>
  \<open>WebSocketServer\<close> (\<^verbatim>\<open>server/websocket.cpp\<close>). The part that would create threads and listen is commented
  out in the source, so that only the checks are left. \<open>WebSocketThread\<close> prepares a VM as the socket
  server does, with one buffer and with the pause API being optional.
\<close>

record 'm ws_thread =
  ws_mi :: "'m machine"
  ws_read_vaddr :: u64
  ws_pause_resume :: bool
  ws_running :: bool

definition websocket_thread :: "'m epoll_env \<Rightarrow> bool \<Rightarrow> entries \<Rightarrow> tenant_conf \<Rightarrow> 'm machine \<Rightarrow> u64 \<Rightarrow> 'm ws_thread res" where
  "websocket_thread E has_storage es t main system_id =
     (if \<not> has_storage then Inl (RuntimeError ''WebSocketThread requires a storage VM'')
      else
        let (addr, mi) = allocate_post_data (ee_vm E) (of_nat MAX_READ_BUFFER) (machine_fork (ee_vm E) t main) in
        if addr = 0 then Inl (RuntimeError ''Failed to allocate read buffer'')
        else bind_res (entry_at es (entry_index SOCKET_PAUSE_RESUME_API)) (\<lambda>entry.
          if entry = 0 then Inr \<lparr>ws_mi = mi, ws_read_vaddr = addr, ws_pause_resume = False, ws_running = True\<rparr>
          else case x_run (ee_exec E) (VCall entry [AInt system_id] CALLBACK_TIMEOUT) (mi\<lparr>mi_waiting := False\<rparr>) of
            (mi, Some e) \<Rightarrow> Inl e
          | (mi, None) \<Rightarrow>
              if mi_waiting mi
              then Inr \<lparr>ws_mi = mi\<lparr>mi_vm := skip_out_insn (ee_exec E) (mi_vm mi)\<rparr>, ws_read_vaddr = addr, ws_pause_resume = True,
                        ws_running = True\<rparr>
              else Inl (RuntimeError ''VM is not waiting for requests'')))"

definition ws_thread_stop :: "'m ws_thread \<Rightarrow> 'm ws_thread" where
  "ws_thread_stop w = w\<lparr>ws_running := False\<rparr>"

record 'm ws_server =
  wss_running :: bool
  wss_threads :: "'m ws_thread list"

definition websocket_server :: "tenant_conf \<Rightarrow> nat \<Rightarrow> 'm ws_server res" where
  "websocket_server t threads =
     (if threads = 0 then Inl (RuntimeError ''WebSocketServer requires at least one thread'')
      else if g_ws_server_port (t_group t) = 0 then Inl (RuntimeError ''WebSocketServer requires a valid port'')
      else Inr \<lparr>wss_running = True, wss_threads = []\<rparr>)"

definition ws_server_stop :: "'m ws_server \<Rightarrow> 'm ws_server" where
  "ws_server_stop w = w\<lparr>wss_threads := map ws_thread_stop (wss_threads w), wss_running := False\<rparr>"

section \<open>What the guest receives\<close>

text \<open>The bytes of one socket that have been handed to the VM, and with those that wait in the queue.\<close>

definition bytes_of :: "32 word \<Rightarrow> (32 word \<times> string) list \<Rightarrow> string" where
  "bytes_of v xs = concat (map snd (filter (\<lambda>(f, _). f = v) xs))"

definition pending :: "'m epoll_env \<Rightarrow> 'm epoll \<Rightarrow> (32 word \<times> string) list" where
  "pending E s = map (event_bytes E (mi_vm (es_mi s))) (es_queue s)"

definition stream :: "'m epoll_env \<Rightarrow> 'm epoll \<Rightarrow> 32 word \<Rightarrow> string" where
  "stream E s v = bytes_of v (es_handed s @ pending E s)"

text \<open>The bytes that the reads of a report take from their socket, and those of a whole run.\<close>

fun taken :: "read_result list \<Rightarrow> nat \<Rightarrow> string" where
  "taken [] tot = []"
| "taken (r # rs) tot =
     (case r of
        ReadData d \<Rightarrow> d @ (if tot + length d < MAX_READ_BUFFER then taken rs (tot + length d) else [])
      | _ \<Rightarrow> [])"

fun report_bytes :: "ep_report \<Rightarrow> 'm epoll \<Rightarrow> 32 word \<Rightarrow> string" where
  "report_bytes (Socket fd readable writable hup reads) s v = (if readable \<and> es_fd_to_vfd s fd = Some v then taken reads 0 else [])"
| "report_bytes _ s v = []"

fun received :: "'m epoll_env \<Rightarrow> ep_report list \<Rightarrow> 'm epoll \<Rightarrow> 32 word \<Rightarrow> string" where
  "received E [] s v = []"
| "received E (r # rs) s v =
     report_bytes r s v @ (case epoll_report E r s of None \<Rightarrow> [] | Some s \<Rightarrow> received E rs s v)"

fun run_received :: "'m epoll_env \<Rightarrow> ep_report list list \<Rightarrow> 'm epoll \<Rightarrow> 32 word \<Rightarrow> string" where
  "run_received E [] s v = []"
| "run_received E (rs # rss) s v =
     (if \<not> es_running s then []
      else received E rs s v @ (case epoll_iterate E rs s of None \<Rightarrow> [] | Some s \<Rightarrow> run_received E rss s v))"

text \<open>A read returns no more than fits the buffer, and something unless it has ended.\<close>

definition reads_wf :: "read_result list \<Rightarrow> bool" where
  "reads_wf rs \<longleftrightarrow> list_all (\<lambda>r. case r of ReadData d \<Rightarrow> 0 < length d \<and> length d \<le> MAX_READ_BUFFER | _ \<Rightarrow> True) rs"

fun report_wf :: "ep_report \<Rightarrow> bool" where
  "report_wf (Socket fd readable writable hup reads) = reads_wf reads"
| "report_wf _ = True"

text \<open>
  What is relied on: the buffers that \<open>readv\<close> is given are the guest's memory, pushing a string writes it
  just below the given address, and the table of descriptors is apart from guest memory.
\<close>

definition epoll_laws :: "'m epoll_env \<Rightarrow> bool" where
  "epoll_laws E \<longleftrightarrow>
     (\<forall>a d vm. ee_view E (ee_store E a d vm) = mem_write a d (ee_view E vm)) \<and>
     (\<forall>s sp vm sp' vm'. x_push (ee_exec E) s sp vm = Inr (sp', vm') \<longrightarrow> length s + 8 \<le> unat sp \<longrightarrow>
        unat sp' + length s \<le> unat sp \<and> unat sp \<le> unat sp' + length s + 7 \<and> ee_view E vm' = mem_write sp' s (ee_view E vm)) \<and>
     (\<forall>fd vm v vm'. ee_fds_manage E fd vm = (v, vm') \<longrightarrow> ee_view E vm' = ee_view E vm) \<and>
     (\<forall>v vm. ee_view E (ee_fds_free E v vm) = ee_view E vm)"

text \<open>The read buffers lie one after the other, and queued data is in a buffer below the current one.\<close>

definition epoll_inv :: "'m epoll \<Rightarrow> bool" where
  "epoll_inv s \<longleftrightarrow>
     (\<exists>a n. es_buffers s = map (\<lambda>i. a + of_nat (i * MAX_READ_BUFFER)) [0..<n] \<and> 0 < n \<and> unat a + n * MAX_READ_BUFFER \<le> 2 ^ 64) \<and>
     es_current s \<le> length (es_buffers s) \<and>
     (\<forall>e\<in>set (es_queue s). se_data_len e = 0 \<or>
        (\<exists>i<es_current s. se_data e = es_buffers s ! i \<and> unat (se_data_len e) \<le> MAX_READ_BUFFER))"

section \<open>Lemmas\<close>

lemma bytes_of_append [simp]: "bytes_of v (xs @ ys) = bytes_of v xs @ bytes_of v ys"
  by (simp add: bytes_of_def)

lemma bytes_of_Nil [simp]: "bytes_of v [] = []"
  by (simp add: bytes_of_def)

lemma bytes_of_one: "bytes_of v [(f, d)] = (if f = v then d else [])"
  by (simp add: bytes_of_def)

text \<open>A write changes no byte below it.\<close>

lemma mem_write_above:
  assumes "unat x < unat p" and "unat p + length d \<le> 2 ^ 64"
  shows "mem_write p d m x = m x"
proof -
  have "unat (x - p) = unat x + 2 ^ 64 - unat p" using assms(1) by (simp add: unat_sub_if')
  then have "\<not> unat (x - p) < length d" using assms by simp
  then show ?thesis by (simp add: mem_write_def)
qed

lemma mem_read_above:
  assumes "unat a + n \<le> unat p" and "unat p + length d \<le> 2 ^ 64"
  shows "mem_read (mem_write p d m) a n = mem_read m a n"
proof -
  have "mem_write p d m (a + of_nat i) = m (a + of_nat i)" if "i < n" for i
  proof (rule mem_write_above)
    have "unat (a + of_nat i) \<le> unat a + unat (of_nat i :: u64)" by (simp add: unat_plus_if')
    also have "unat (of_nat i :: u64) \<le> i" by (simp add: unsigned_of_nat)
    finally show "unat (a + of_nat i) < unat p" using that assms(1) by simp
  qed (rule assms(2))
  then show ?thesis by (simp add: mem_read_def)
qed

text \<open>The addresses of the read buffers.\<close>

lemma buffer_addr:
  assumes "epoll_inv s" and "i < length (es_buffers s)"
  shows "unat (es_buffers s ! i) + MAX_READ_BUFFER \<le> 2 ^ 64"
    and "\<And>j. j < i \<Longrightarrow> unat (es_buffers s ! j) + MAX_READ_BUFFER \<le> unat (es_buffers s ! i)"
proof -
  obtain a n where b: "es_buffers s = map (\<lambda>i. a + of_nat (i * MAX_READ_BUFFER)) [0..<n]" and l: "unat a + n * MAX_READ_BUFFER \<le> 2 ^ 64"
    using assms(1) by (auto simp: epoll_inv_def)
  have at: "unat (es_buffers s ! k) = unat a + k * MAX_READ_BUFFER" if "k < n" for k
  proof -
    have "(k + 1) * MAX_READ_BUFFER \<le> n * MAX_READ_BUFFER" using that by (intro mult_le_mono1) simp
    then have k: "unat a + k * MAX_READ_BUFFER < 2 ^ 64" using l by (simp add: MAX_READ_BUFFER_def)
    then have "unat (of_nat (k * MAX_READ_BUFFER) :: u64) = k * MAX_READ_BUFFER"
      by (simp add: unsigned_of_nat take_bit_nat_eq_self del: of_nat_mult)
    then show ?thesis using k that by (simp add: b unat_plus_if' del: of_nat_mult)
  qed
  have i: "i < n" using assms(2) b by simp
  have "(i + 1) * MAX_READ_BUFFER \<le> n * MAX_READ_BUFFER" using i by (intro mult_le_mono1) simp
  then show "unat (es_buffers s ! i) + MAX_READ_BUFFER \<le> 2 ^ 64" using l i by (simp add: at)
  fix j assume "j < i"
  then have "(j + 1) * MAX_READ_BUFFER \<le> i * MAX_READ_BUFFER" by (intro mult_le_mono1) simp
  with \<open>j < i\<close> i show "unat (es_buffers s ! j) + MAX_READ_BUFFER \<le> unat (es_buffers s ! i)" by (simp add: at)
qed

text \<open>What is written from the current read buffer on leaves the queued data as it is.\<close>

lemma pending_write:
  assumes inv: "epoll_inv s" and cur: "es_current s < length (es_buffers s)"
    and p: "unat (es_buffers s ! es_current s) \<le> unat p" "unat p + length d \<le> 2 ^ 64"
    and view: "ee_view E vm = mem_write p d (ee_view E (mi_vm (es_mi s)))" and e: "e \<in> set (es_queue s)"
  shows "event_bytes E vm e = event_bytes E (mi_vm (es_mi s)) e"
proof (cases "se_data_len e = 0")
  case True
  then show ?thesis by (simp add: event_bytes_def mem_read_def)
next
  case False
  then obtain i where i: "i < es_current s" "se_data e = es_buffers s ! i" "unat (se_data_len e) \<le> MAX_READ_BUFFER"
    using inv e by (auto simp: epoll_inv_def)
  have "unat (se_data e) + unat (se_data_len e) \<le> unat p"
    using buffer_addr(2) [OF inv cur i(1)] i p(1) by simp
  then show ?thesis using p(2) by (simp add: event_bytes_def view mem_read_above)
qed

lemma flush_stream:
  assumes "epoll_flush E s = (s', None)"
  shows "stream E s' v = stream E s v" "es_queue s' = []" "es_current s' = 0" "es_buffers s' = es_buffers s"
    "es_fd_to_vfd s' = es_fd_to_vfd s" "es_exceptions s' = es_exceptions s" "es_running s' = es_running s"
  using assms by (auto simp: epoll_flush_def stream_def pending_def split: if_splits prod.splits option.splits)

lemma flush_inv: "\<lbrakk>epoll_flush E s = (s', None); epoll_inv s\<rbrakk> \<Longrightarrow> epoll_inv s'"
  using flush_stream [of E s s'] by (auto simp: epoll_inv_def)

text \<open>Space for a read: the current buffer, if need be after a flush.\<close>

lemma make_room:
  assumes "(if es_current s \<ge> length (es_buffers s) then epoll_flush E s else (s, None)) = (s', None)" and "epoll_inv s"
  shows "epoll_inv s'" "es_current s' < length (es_buffers s')" "stream E s' v = stream E s v" "es_fd_to_vfd s' = es_fd_to_vfd s"
    "es_exceptions s' = es_exceptions s" "es_running s' = es_running s"
proof -
  have n: "0 < length (es_buffers s)" using assms(2) by (auto simp: epoll_inv_def)
  show "epoll_inv s'" "stream E s' v = stream E s v" "es_fd_to_vfd s' = es_fd_to_vfd s" "es_exceptions s' = es_exceptions s"
    "es_running s' = es_running s"
    using assms flush_stream [of E s s'] flush_inv [of E s s'] by (auto split: if_splits)
  show "es_current s' < length (es_buffers s')"
    using assms flush_stream [of E s s'] n by (auto split: if_splits)
qed

lemma push_event_simps [simp]:
  "es_queue (push_event e s) = es_queue s @ [e]" "es_mi (push_event e s) = es_mi s" "es_buffers (push_event e s) = es_buffers s"
  "es_current (push_event e s) = es_current s" "es_fd_to_vfd (push_event e s) = es_fd_to_vfd s" "es_handed (push_event e s) = es_handed s"
  "es_exceptions (push_event e s) = es_exceptions s" "es_running (push_event e s) = es_running s"
  by (simp_all add: push_event_def)

lemma set_vm_simps [simp]:
  "es_queue (set_vm vm s) = es_queue s" "mi_vm (es_mi (set_vm vm s)) = vm" "es_buffers (set_vm vm s) = es_buffers s"
  "es_current (set_vm vm s) = es_current s" "es_fd_to_vfd (set_vm vm s) = es_fd_to_vfd s" "es_handed (set_vm vm s) = es_handed s"
  "es_exceptions (set_vm vm s) = es_exceptions s" "es_running (set_vm vm s) = es_running s" "epoll_inv (set_vm vm s) = epoll_inv s"
  by (simp_all add: set_vm_def epoll_inv_def)

lemma set_vm_current: "set_vm vm (s\<lparr>es_current := c\<rparr>) = (set_vm vm s)\<lparr>es_current := c\<rparr>"
  by (cases s) (simp add: set_vm_def)

lemma epoll_close_simps [simp]:
  "es_queue (epoll_close fd s) = es_queue s" "es_mi (epoll_close fd s) = es_mi s" "es_buffers (epoll_close fd s) = es_buffers s"
  "es_current (epoll_close fd s) = es_current s" "es_fd_to_vfd (epoll_close fd s) = es_fd_to_vfd s"
  "es_exceptions (epoll_close fd s) = es_exceptions s" "es_running (epoll_close fd s) = es_running s"
  "epoll_inv (epoll_close fd s) = epoll_inv s" "stream E (epoll_close fd s) v = stream E s v"
  by (simp_all add: epoll_close_def epoll_inv_def stream_def pending_def)

lemma stream_push: "stream E (push_event e s) v = stream E s v @ bytes_of v [event_bytes E (mi_vm (es_mi s)) e]"
  by (simp add: stream_def pending_def)

lemma stream_push_empty: "se_data_len e = 0 \<Longrightarrow> stream E (push_event e s) v = stream E s v"
  by (simp add: stream_push event_bytes_def bytes_of_one mem_read_def)

lemma inv_push_empty: "se_data_len e = 0 \<Longrightarrow> epoll_inv (push_event e s) = epoll_inv s"
  by (simp add: epoll_inv_def)

lemma stream_set_vm:
  "(\<And>e. e \<in> set (es_queue s) \<Longrightarrow> event_bytes E vm e = event_bytes E (mi_vm (es_mi s)) e) \<Longrightarrow> stream E (set_vm vm s) v = stream E s v"
  by (simp add: stream_def pending_def cong: map_cong)

lemma stream_view: "ee_view E vm = ee_view E (mi_vm (es_mi s)) \<Longrightarrow> stream E (set_vm vm s) v = stream E s v"
  by (rule stream_set_vm) (simp add: event_bytes_def)

lemma inv_current: "\<lbrakk>epoll_inv s; es_current s < length (es_buffers s)\<rbrakk> \<Longrightarrow> epoll_inv (s\<lparr>es_current := es_current s + 1\<rparr>)"
  by (auto simp: epoll_inv_def intro: less_SucI)

lemma stream_upd [simp]:
  "stream E (s\<lparr>es_current := c\<rparr>) v = stream E s v" "stream E (s\<lparr>es_fd_to_vfd := m\<rparr>) v = stream E s v"
  "stream E (s\<lparr>es_running := r\<rparr>) v = stream E s v" "stream E (s\<lparr>es_exceptions := n\<rparr>) v = stream E s v"
  by (simp_all add: stream_def pending_def)

lemma inv_upd [simp]:
  "epoll_inv (s\<lparr>es_fd_to_vfd := m\<rparr>) = epoll_inv s" "epoll_inv (s\<lparr>es_running := r\<rparr>) = epoll_inv s"
  "epoll_inv (s\<lparr>es_exceptions := n\<rparr>) = epoll_inv s"
  by (simp_all add: epoll_inv_def)

lemma read_event_ok:
  assumes laws: "epoll_laws E" and inv: "epoll_inv s" and cur: "es_current s < length (es_buffers s)" and d: "length d \<le> MAX_READ_BUFFER"
  shows "epoll_inv (read_event E vfd d s)" "stream E (read_event E vfd d s) v = stream E s v @ (if vfd = v then d else [])"
    "es_fd_to_vfd (read_event E vfd d s) = es_fd_to_vfd s" "es_exceptions (read_event E vfd d s) = es_exceptions s"
    "es_running (read_event E vfd d s) = es_running s"
proof -
  let ?a = "es_buffers s ! es_current s" and ?s = "(set_vm (ee_store E (es_buffers s ! es_current s) d (mi_vm (es_mi s))) s)"
  have len: "unat (of_nat (length d) :: u64) = length d"
    using d by (simp add: MAX_READ_BUFFER_def unsigned_of_nat take_bit_nat_eq_self)
  have view: "ee_view E (ee_store E ?a d (mi_vm (es_mi s))) = mem_write ?a d (ee_view E (mi_vm (es_mi s)))"
    using laws by (simp add: epoll_laws_def)
  have "unat ?a + length d \<le> 2 ^ 64" using buffer_addr(1) [OF inv cur] d by simp
  then have keep: "stream E ?s v = stream E s v"
    by (intro stream_set_vm pending_write [OF inv cur _ _ view]) auto
  have "mem_read (ee_view E (ee_store E ?a d (mi_vm (es_mi s)))) ?a (length d) = d"
    unfolding view using d by (intro mem_read_write) (simp add: MAX_READ_BUFFER_def)
  then show "stream E (read_event E vfd d s) v = stream E s v @ (if vfd = v then d else [])"
    using keep by (simp add: read_event_def Let_def stream_push event_bytes_def event_new_def len bytes_of_one)
  have "epoll_inv (?s\<lparr>es_current := es_current ?s + 1\<rparr>)" using inv cur by (intro inv_current) simp_all
  then show "epoll_inv (read_event E vfd d s)"
    using d len by (auto simp: read_event_def Let_def epoll_inv_def event_new_def)
qed (simp_all add: read_event_def Let_def)

lemma readable_ok:
  assumes laws: "epoll_laws E"
  shows "\<lbrakk>fd_readable E fd rs tot s = (s', Inr r); epoll_inv s; reads_wf rs\<rbrakk> \<Longrightarrow>
    epoll_inv s' \<and> es_fd_to_vfd s' = es_fd_to_vfd s \<and> es_exceptions s' = es_exceptions s \<and> es_running s' = es_running s \<and>
    (\<forall>v. stream E s' v = stream E s v @ (if es_fd_to_vfd s fd = Some v then taken rs tot else []))"
proof (induction rs arbitrary: s tot)
  case Nil
  obtain s1 e where m: "(if es_current s \<ge> length (es_buffers s) then epoll_flush E s else (s, None)) = (s1, e)" by fastforce
  with Nil.prems(1) have "e = None" "s' = s1" by (auto split: option.splits if_splits)
  then show ?case using make_room [OF m [unfolded \<open>e = None\<close>] Nil.prems(2)] by simp
next
  case (Cons x rs)
  obtain s1 e where m: "(if es_current s \<ge> length (es_buffers s) then epoll_flush E s else (s, None)) = (s1, e)" by fastforce
  have e: "e = None" using Cons.prems(1) unfolding fd_readable.simps(2) m by (auto split: option.splits)
  note room = make_room [OF m [unfolded e] Cons.prems(2)]
  have step: "(case x of
       ReadData d \<Rightarrow>
         (case es_fd_to_vfd s1 fd of
            None \<Rightarrow> (set_vm (ee_store E (es_buffers s1 ! es_current s1) d (mi_vm (es_mi s1))) s1, Inl (OutOfRange ''unordered_map::at''))
          | Some vfd \<Rightarrow>
              if tot + length d < MAX_READ_BUFFER then fd_readable E fd rs (tot + length d) (read_event E vfd d s1)
              else (read_event E vfd d s1, Inr x))
     | _ \<Rightarrow> (s1, Inr x)) = (s', Inr r)"
    using Cons.prems(1) room(2) unfolding fd_readable.simps(2) m e by simp
  show ?case
  proof (cases x)
    case (ReadData d)
    have d: "length d \<le> MAX_READ_BUFFER" and wf: "reads_wf rs" using Cons.prems(3) ReadData by (auto simp: reads_wf_def)
    obtain vfd where vfd: "es_fd_to_vfd s1 fd = Some vfd" using step ReadData by (auto split: option.splits)
    note ok = read_event_ok [OF laws room(1,2) d, of vfd]
    show ?thesis
    proof (cases "tot + length d < MAX_READ_BUFFER")
      case True
      then have "fd_readable E fd rs (tot + length d) (read_event E vfd d s1) = (s', Inr r)" using step ReadData vfd by simp
      from Cons.IH [OF this ok(1) wf] show ?thesis using ok room vfd True ReadData by auto
    next
      case False
      then have "s' = read_event E vfd d s1" using step ReadData vfd by simp
      then show ?thesis using ok room vfd False ReadData by auto
    qed
  qed (use step room in auto)
qed

text \<open>A step that keeps the invariant, the streams and what else has to stay.\<close>

definition epoll_keeps :: "'m epoll_env \<Rightarrow> 'm epoll \<Rightarrow> 'm epoll \<Rightarrow> bool" where
  "epoll_keeps E s s' \<longleftrightarrow> (epoll_inv s \<longrightarrow> epoll_inv s') \<and> (\<forall>v. stream E s' v = stream E s v) \<and> es_exceptions s' = es_exceptions s"

text \<open>Pushing a short string into a read buffer.\<close>

lemma push_law:
  assumes "epoll_laws E" and "x_push (ee_exec E) d sp vm = Inr (sp', vm')" and "length d + 8 \<le> unat sp"
  shows "unat sp' + length d \<le> unat sp \<and> unat sp \<le> unat sp' + length d + 7 \<and> ee_view E vm' = mem_write sp' d (ee_view E vm)"
  using assms unfolding epoll_laws_def by blast

lemma push_keeps:
  assumes "epoll_laws E" and inv: "epoll_inv s" and cur: "es_current s < length (es_buffers s)"
    and push: "x_push (ee_exec E) d sp (mi_vm (es_mi s)) = Inr (sp', vm')"
    and sp: "unat (es_buffers s ! es_current s) + length d + 8 \<le> unat sp" "unat sp \<le> 2 ^ 64"
  shows "stream E (set_vm vm' s) v = stream E s v" "unat sp \<le> unat sp' + length d + 7" "unat sp' \<le> unat sp"
proof -
  have law: "unat sp' + length d \<le> unat sp" "unat sp \<le> unat sp' + length d + 7"
    "ee_view E vm' = mem_write sp' d (ee_view E (mi_vm (es_mi s)))"
    using push_law [OF assms(1) push] sp by auto
  then show "unat sp \<le> unat sp' + length d + 7" "unat sp' \<le> unat sp" by simp_all
  show "stream E (set_vm vm' s) v = stream E s v"
    using law sp by (intro stream_set_vm pending_write [OF inv cur _ _ law(3)]) auto
qed

lemma manage_ok:
  assumes laws: "epoll_laws E" and m: "epoll_manage E a s = (s', Inr b)" and inv: "epoll_inv s"
  shows "epoll_keeps E s s'"
proof (cases "ac_nonblock a")
  case False
  with m show ?thesis by (simp add: epoll_manage_def epoll_keeps_def)
next
  case True
  obtain vfd vm where vfd: "ee_fds_manage E (ac_fd a) (mi_vm (es_mi s)) = (vfd, vm)" by fastforce
  define s0 where "s0 = set_vm vm s"
  define stack where "stack = es_buffers s ! es_current s + 0x1000"
  have view: "ee_view E vm = ee_view E (mi_vm (es_mi s))" using laws vfd by (simp add: epoll_laws_def)
  have cur: "es_current s < length (es_buffers s)" using m True vfd by (auto simp: epoll_manage_def split: if_splits)
  obtain remote vm1 where p1: "x_push (ee_exec E) (''(unknown)'' @ [CHR 0x00]) stack vm = Inr (remote, vm1)"
    using m True vfd cur by (auto simp: epoll_manage_def Let_def stack_def split: sum.splits)
  obtain arg vm2 where p2: "x_push (ee_exec E) [CHR 0x00] remote vm1 = Inr (arg, vm2)"
    using m True vfd cur p1 by (auto simp: epoll_manage_def Let_def stack_def split: sum.splits)
  have "unat (es_buffers s ! es_current s) + MAX_READ_BUFFER \<le> 2 ^ 64" by (rule buffer_addr(1) [OF inv cur])
  then have st: "unat stack = unat (es_buffers s ! es_current s) + 0x1000"
    by (simp add: stack_def unat_plus_if' MAX_READ_BUFFER_def)
  have inv0: "epoll_inv s0" "es_current s0 < length (es_buffers s0)" using inv cur by (simp_all add: s0_def)
  have b: "unat stack \<le> 2 ^ 64" "unat remote \<le> 2 ^ 64"
    using unsigned_less [of stack, where 'a = nat] unsigned_less [of remote, where 'a = nat] by simp_all
  have k1: "stream E (set_vm vm1 s0) v = stream E s0 v" "unat stack \<le> unat remote + 17" for v
    using push_keeps [OF laws inv0, of "''(unknown)'' @ [CHR 0x00]" stack remote vm1] p1 st b by (simp_all add: s0_def)
  have k2: "stream E (set_vm vm2 (set_vm vm1 s0)) v = stream E (set_vm vm1 s0) v" for v
    using push_keeps [OF laws, of "set_vm vm1 s0" "[CHR 0x00]" remote arg vm2] p2 st b k1(2) inv0 by (simp add: s0_def)
  define s1 where "s1 = push_event ((event_new vfd 0)\<lparr>se_remote := remote, se_arg := arg\<rparr>) ((set_vm vm2 s)\<lparr>es_current := es_current s + 1\<rparr>)"
  have "set_vm vm2 (set_vm vm1 s0) = set_vm vm2 s" by (simp add: set_vm_def s0_def)
  then have "stream E (set_vm vm2 s) v = stream E s v" for v using k1(1) k2 stream_view [OF view] by (simp add: s0_def)
  then have s1: "stream E s1 v = stream E s v" for v by (simp add: s1_def stream_push_empty event_new_def)
  have "epoll_inv ((set_vm vm2 s)\<lparr>es_current := es_current (set_vm vm2 s) + 1\<rparr>)" using inv cur by (intro inv_current) simp_all
  then have "epoll_inv s1" by (simp add: s1_def inv_push_empty event_new_def)
  moreover have "s' = fst (epoll_add a (s1\<lparr>es_fd_to_vfd := (es_fd_to_vfd s)(ac_fd a \<mapsto> vfd)\<rparr>))"
    using m True vfd cur p1 p2 unfolding s1_def set_vm_current [symmetric]
    by (auto simp: epoll_manage_def Let_def stack_def set_vm_def push_event_def split: prod.splits)
  moreover have "es_exceptions s1 = es_exceptions s" by (simp add: s1_def)
  ultimately show ?thesis using s1 by (auto simp: epoll_keeps_def epoll_add_def)
qed

lemma writable_ok: "fd_writable fd s = (s', None) \<Longrightarrow> epoll_keeps E s s' \<and> es_fd_to_vfd s' = es_fd_to_vfd s"
  by (auto simp: fd_writable_def epoll_keeps_def stream_push_empty inv_push_empty event_new_def split: option.splits)

lemma hangup_ok:
  assumes "epoll_laws E" and h: "epoll_hangup E fd s = (s', None)"
  shows "epoll_keeps E s s'"
proof -
  obtain vfd where v: "es_fd_to_vfd s fd = Some vfd" using h by (auto simp: epoll_hangup_def Let_def split: option.splits)
  let ?s = "set_vm (ee_fds_free E vfd (mi_vm (es_mi s))) (epoll_close fd s)"
  have "stream E ?s w = stream E (epoll_close fd s) w" for w
    using assms(1) by (intro stream_view) (simp add: epoll_laws_def)
  then show ?thesis
    using h v by (auto simp: epoll_hangup_def Let_def epoll_keeps_def stream_push_empty inv_push_empty event_new_def)
qed

lemma caught_exceptions: "es_exceptions (caught (s, e)) = es_exceptions s + (if e = None then 0 else 1)"
  by (simp add: caught_def split: option.splits)

text \<open>No step lowers the number of exceptions, so a run without any has none in its steps.\<close>

lemma flush_exceptions: "es_exceptions (fst (epoll_flush E s)) = es_exceptions s"
  by (auto simp: epoll_flush_def split: prod.splits option.splits)

lemma read_event_exceptions: "es_exceptions (read_event E vfd d s) = es_exceptions s"
  by (simp add: read_event_def Let_def)

lemma readable_exceptions: "es_exceptions (fst (fd_readable E fd rs tot s)) = es_exceptions s"
proof (induction rs arbitrary: s tot)
  case Nil
  show ?case using flush_exceptions [of E s] by (auto split: prod.splits option.splits if_splits)
next
  case (Cons r rs)
  then show ?case
    using flush_exceptions [of E s] by (auto simp: read_event_exceptions split: prod.splits option.splits read_result.splits)
qed

lemma writable_exceptions: "es_exceptions (fst (fd_writable fd s)) = es_exceptions s"
  by (simp add: fd_writable_def split: option.splits)

lemma hangup_exceptions: "es_exceptions (fst (epoll_hangup E fd s)) = es_exceptions s"
  by (simp add: epoll_hangup_def Let_def split: option.splits)

lemma caught_le: "es_exceptions (fst r) \<le> es_exceptions (caught r)"
  by (cases r) (simp add: caught_exceptions)

lemma rest_exceptions: "es_exceptions s \<le> es_exceptions (epoll_rest E fd writable hup s)"
  using caught_le [of "fd_writable fd s"] caught_le [of "epoll_hangup E fd s"] caught_le [of "epoll_hangup E fd (caught (fd_writable fd s))"]
  by (auto simp: epoll_rest_def Let_def writable_exceptions hangup_exceptions)

lemma rest_ok:
  assumes "epoll_laws E" and "es_exceptions (epoll_rest E fd writable hup s) = es_exceptions s"
  shows "epoll_keeps E s (epoll_rest E fd writable hup s)"
proof -
  obtain s1 e1 where w: "(if writable then fd_writable fd s else (s, None)) = (s1, e1)" by fastforce
  obtain s2 e2 where h: "(if hup then epoll_hangup E fd (caught (s1, e1)) else (caught (s1, e1), None)) = (s2, e2)" by fastforce
  have r: "epoll_rest E fd writable hup s = caught (s2, e2)"
    using w h by (auto simp: epoll_rest_def Let_def caught_def split: if_splits)
  have x1: "es_exceptions s1 = es_exceptions s" using w writable_exceptions [of fd s] by (auto split: if_splits)
  have x2: "es_exceptions s2 = es_exceptions (caught (s1, e1))" using h hangup_exceptions [of E fd "caught (s1, e1)"] by (auto split: if_splits)
  have "e1 = None" "e2 = None" using assms(2) r x1 x2 by (auto simp: caught_exceptions split: if_splits)
  then have "epoll_keeps E s s1" "epoll_keeps E s1 s2"
    using w h writable_ok [of fd s s1 E] hangup_ok [OF assms(1), of fd s1 s2] by (auto simp: epoll_keeps_def caught_def split: if_splits)
  then show ?thesis using r \<open>e2 = None\<close> by (auto simp: epoll_keeps_def caught_def)
qed

lemma socket_ok:
  assumes laws: "epoll_laws E" and inv: "epoll_inv s" and wf: "reads_wf reads"
    and x: "es_exceptions (epoll_socket E fd readable writable hup reads s) = es_exceptions s"
  shows "epoll_inv (epoll_socket E fd readable writable hup reads s) \<and>
    (\<forall>v. stream E (epoll_socket E fd readable writable hup reads s) v = stream E s v @ report_bytes (Socket fd readable writable hup reads) s v)"
proof (cases readable)
  case False
  then show ?thesis using rest_ok [OF laws, of fd writable hup s] x inv by (simp add: epoll_socket_def epoll_keeps_def)
next
  case True
  obtain s1 r where r: "fd_readable E fd reads 0 s = (s1, r)" by fastforce
  have x1: "es_exceptions s1 = es_exceptions s" using readable_exceptions [of E fd reads 0 s] r by simp
  show ?thesis
  proof (cases r)
    case (Inl e)
    then have "es_exceptions s + 1 \<le> es_exceptions (epoll_socket E fd readable writable hup reads s)"
      using rest_exceptions [of "caught (s1, Some e)" E fd writable hup] True r x1 by (simp add: epoll_socket_def caught_exceptions)
    with x show ?thesis by simp
  next
    case (Inr last)
    have ok: "epoll_inv s1" "\<And>v. stream E s1 v = stream E s v @ report_bytes (Socket fd readable writable hup reads) s v"
      using readable_ok [OF laws r [unfolded Inr] inv wf] True by auto
    have "epoll_keeps E s1 (epoll_socket E fd readable writable hup reads s)"
    proof (cases "last = ReadAgain \<or> (\<exists>d. last = ReadData d)")
      case True
      then show ?thesis
        using \<open>readable\<close> r Inr x x1 rest_ok [OF laws, of fd writable hup s1] by (auto simp: epoll_socket_def epoll_keeps_def)
    next
      case False
      obtain s2 e2 where h: "epoll_hangup E fd s1 = (s2, e2)" by fastforce
      have x2: "es_exceptions s2 = es_exceptions s1" using h hangup_exceptions [of E fd s1] by simp
      have s: "epoll_socket E fd readable writable hup reads s =
          (case e2 of None \<Rightarrow> s2 | Some e \<Rightarrow> epoll_rest E fd writable hup (caught (s2, Some e)))"
        using False \<open>readable\<close> r Inr h by (cases last) (auto simp: epoll_socket_def)
      then have "e2 = None"
        using x x1 x2 rest_exceptions [of "caught (s2, e2)" E fd writable hup] by (auto simp: caught_exceptions split: option.splits)
      then show ?thesis using s hangup_ok [OF laws, of fd s1 s2] h by simp
    qed
    then show ?thesis using ok by (simp add: epoll_keeps_def)
  qed
qed

lemma accept_ok:
  assumes "epoll_laws E"
  shows "\<lbrakk>epoll_accept E as s = Some s'; epoll_inv s\<rbrakk> \<Longrightarrow> epoll_keeps E s s'"
proof (induction as arbitrary: s)
  case Nil
  then show ?case by (simp add: epoll_keeps_def)
next
  case (Cons a as)
  obtain s1 b where m: "epoll_manage E a s = (s1, Inr b)"
    using Cons.prems(1) by (auto split: prod.splits sum.splits)
  have k: "epoll_keeps E s s1" by (rule manage_ok [OF assms m Cons.prems(2)])
  have "epoll_accept E as (if b then s1 else epoll_close (ac_fd a) s1) = Some s'"
    using Cons.prems(1) m by (auto split: bool.splits)
  from Cons.IH [OF this] k Cons.prems(2) show ?case by (auto simp: epoll_keeps_def split: if_splits)
qed

lemma manage_exceptions: "es_exceptions (fst (epoll_manage E a s)) = es_exceptions s"
  by (auto simp: epoll_manage_def epoll_add_def Let_def split: prod.splits sum.splits)

lemma accept_exceptions: "epoll_accept E as s = Some s' \<Longrightarrow> es_exceptions s' = es_exceptions s"
proof (induction as arbitrary: s)
  case (Cons a as)
  then show ?case using manage_exceptions [of E a s] by (auto split: prod.splits sum.splits bool.splits)
qed simp

lemma socket_exceptions: "es_exceptions s \<le> es_exceptions (epoll_socket E fd readable writable hup reads s)"
proof -
  obtain s1 r where r: "fd_readable E fd reads 0 s = (s1, r)" by fastforce
  obtain s2 e2 where h: "epoll_hangup E fd s1 = (s2, e2)" by fastforce
  have x: "es_exceptions s1 = es_exceptions s" "es_exceptions s2 = es_exceptions s1"
    using readable_exceptions [of E fd reads 0 s] hangup_exceptions [of E fd s1] r h by simp_all
  have hup: "es_exceptions s \<le> es_exceptions (case epoll_hangup E fd s1 of (s, None) \<Rightarrow> s
      | (s, Some e) \<Rightarrow> epoll_rest E fd writable hup (caught (s, Some e)))"
    using h x rest_exceptions [of "caught (s2, e2)" E fd writable hup] by (cases e2) (simp_all add: caught_exceptions)
  have rest: "es_exceptions s \<le> es_exceptions (epoll_rest E fd writable hup (caught (s1, e)))" for e
    using x rest_exceptions [of "caught (s1, e)" E fd writable hup] by (simp add: caught_exceptions)
  show ?thesis
  proof (cases readable)
    case False
    then show ?thesis using rest_exceptions [of s E fd writable hup] by (simp add: epoll_socket_def)
  next
    case True
    show ?thesis
    proof (cases r)
      case (Inl e)
      then show ?thesis using True r rest [of "Some e"] by (simp add: epoll_socket_def)
    next
      case (Inr last)
      then show ?thesis using True r hup rest_exceptions [of s1 E fd writable hup] x by (cases last) (simp_all add: epoll_socket_def)
    qed
  qed
qed

lemma report_exceptions: "epoll_report E r s = Some s' \<Longrightarrow> es_exceptions s \<le> es_exceptions s'"
  using socket_exceptions by (cases r) (auto dest: accept_exceptions)

lemma reports_exceptions: "epoll_reports E rs s = Some s' \<Longrightarrow> es_exceptions s \<le> es_exceptions s'"
proof (induction rs arbitrary: s)
  case (Cons r rs)
  obtain s1 where "epoll_report E r s = Some s1" "epoll_reports E rs s1 = Some s'" using Cons.prems by (auto split: option.splits)
  then show ?case using report_exceptions [of E r s s1] Cons.IH [of s1] by simp
qed simp

lemma report_ok:
  assumes "epoll_laws E" and "epoll_report E r s = Some s'" and "epoll_inv s" and "report_wf r" and "es_exceptions s' = es_exceptions s"
  shows "epoll_inv s' \<and> (\<forall>v. stream E s' v = stream E s v @ report_bytes r s v)"
proof (cases r)
  case (Listening as)
  then show ?thesis using accept_ok [OF assms(1), of as s s'] assms by (auto simp: epoll_keeps_def)
next
  case Signalled
  then show ?thesis using assms by auto
next
  case (Socket fd readable writable hup reads)
  then show ?thesis using socket_ok [OF assms(1,3), of reads fd readable writable hup] assms by auto
qed

lemma reports_ok:
  assumes laws: "epoll_laws E"
  shows "\<lbrakk>epoll_reports E rs s = Some s'; epoll_inv s; list_all report_wf rs; es_exceptions s' = es_exceptions s\<rbrakk> \<Longrightarrow>
    epoll_inv s' \<and> (\<forall>v. stream E s' v = stream E s v @ received E rs s v)"
proof (induction rs arbitrary: s)
  case Nil
  then show ?case by simp
next
  case (Cons r rs)
  obtain s1 where s1: "epoll_report E r s = Some s1" "epoll_reports E rs s1 = Some s'"
    using Cons.prems(1) by (auto split: option.splits)
  have x: "es_exceptions s1 = es_exceptions s" "es_exceptions s' = es_exceptions s1"
    using report_exceptions [OF s1(1)] reports_exceptions [OF s1(2)] Cons.prems(4) by simp_all
  have "epoll_inv s1" "\<forall>v. stream E s1 v = stream E s v @ report_bytes r s v"
    using report_ok [OF laws s1(1) Cons.prems(2) _ x(1)] Cons.prems(3) by auto
  then show ?case using Cons.IH [OF s1(2) _ _ x(2)] Cons.prems(3) s1(1) by simp
qed

lemma iterate_ok:
  assumes "epoll_laws E" and i: "epoll_iterate E rs s = Some s'" and "epoll_inv s" and "list_all report_wf rs"
    and x: "es_exceptions s' = es_exceptions s"
  shows "epoll_inv s' \<and> es_queue s' = [] \<and> (\<forall>v. stream E s' v = stream E s v @ received E rs s v)"
proof -
  obtain s1 where s1: "epoll_reports E rs s = Some s1" "epoll_flush E s1 = (s', None)"
    using i by (auto simp: epoll_iterate_def split: option.splits prod.splits)
  have "es_exceptions s1 = es_exceptions s" using flush_stream(6) [OF s1(2)] x by simp
  from reports_ok [OF assms(1) s1(1) assms(3,4) this] show ?thesis
    using flush_inv [OF s1(2)] flush_stream [OF s1(2)] by simp
qed

lemma iterate_exceptions: "epoll_iterate E rs s = Some s' \<Longrightarrow> es_exceptions s \<le> es_exceptions s'"
proof -
  assume "epoll_iterate E rs s = Some s'"
  then obtain s1 where "epoll_reports E rs s = Some s1" "epoll_flush E s1 = (s', None)"
    by (auto simp: epoll_iterate_def split: option.splits prod.splits)
  then show ?thesis using reports_exceptions [of E rs s s1] flush_stream(6) [of E s1 s'] by simp
qed

lemma main_loop_exceptions: "epoll_main_loop E rss s = Some s' \<Longrightarrow> es_exceptions s \<le> es_exceptions s'"
proof (induction rss arbitrary: s)
  case (Cons rs rss)
  show ?case
  proof (cases "es_running s")
    case True
    then obtain s1 where "epoll_iterate E rs s = Some s1" "epoll_main_loop E rss s1 = Some s'"
      using Cons.prems by (auto split: option.splits)
    then show ?thesis using iterate_exceptions [of E rs s s1] Cons.IH [of s1] by simp
  qed (use Cons.prems in simp)
qed simp

lemma main_loop_ok:
  assumes laws: "epoll_laws E"
  shows "\<lbrakk>epoll_main_loop E rss s = Some s'; epoll_inv s; es_queue s = []; list_all (list_all report_wf) rss;
    es_exceptions s' = es_exceptions s\<rbrakk> \<Longrightarrow>
    es_queue s' = [] \<and> (\<forall>v. stream E s' v = stream E s v @ run_received E rss s v)"
proof (induction rss arbitrary: s)
  case Nil
  then show ?case by simp
next
  case (Cons rs rss)
  show ?case
  proof (cases "es_running s")
    case False
    then show ?thesis using Cons.prems by simp
  next
    case True
    then obtain s1 where s1: "epoll_iterate E rs s = Some s1" "epoll_main_loop E rss s1 = Some s'"
      using Cons.prems(1) by (auto split: option.splits)
    have x: "es_exceptions s1 = es_exceptions s" "es_exceptions s' = es_exceptions s1"
      using iterate_exceptions [OF s1(1)] main_loop_exceptions [OF s1(2)] Cons.prems(5) by simp_all
    have "list_all report_wf rs" using Cons.prems(4) by simp
    from iterate_ok [OF laws s1(1) Cons.prems(2) this x(1)]
    show ?thesis using Cons.IH [OF s1(2) _ _ _ x(2)] Cons.prems(4) s1(1) True by simp
  qed
qed

text \<open>A server that has started, with its buffers inside the address space.\<close>

lemma server_ok:
  assumes "epoll_server E Z has_storage es t main system_id = (fds, Inr s)"
    and room: "\<And>n vm a vm'. v_mmap_allocate (ee_vm E) n vm = (a, vm') \<Longrightarrow> unat a + unat n \<le> 2 ^ 64"
    and runs: "\<And>c mi mi' e. x_run (ee_exec E) c mi = (mi', e) \<Longrightarrow> mi_post_size mi' = mi_post_size mi"
  shows "epoll_inv s" "es_queue s = []" "es_handed s = []" "es_exceptions s = 0" "es_running s"
proof -
  obtain mi n where vm: "epoll_start_vm E es t main system_id = Inr (mi, n)"
    using assms(1) by (auto simp: epoll_server_def bind_res_def split: if_splits prod.splits option.splits sum.splits)
  then have n: "0 < n" "n \<le> 32"
    by (auto simp: epoll_start_vm_def bind_res_def Let_def MAX_READ_BUFFERS_def split: sum.splits if_splits prod.splits option.splits)
  from vm have fresh: "mi_post_size mi = 0"
    by (auto simp: epoll_start_vm_def bind_res_def Let_def machine_fork_def split: sum.splits if_splits prod.splits option.splits dest!: runs)
  have size: "unat (of_nat (MAX_READ_BUFFER * n) :: u64) = n * MAX_READ_BUFFER"
    using n by (simp add: MAX_READ_BUFFER_def unsigned_of_nat take_bit_nat_eq_self del: of_nat_mult)
  have "(0 :: u64) < of_nat (MAX_READ_BUFFER * n)" using n size by (simp add: word_less_nat_alt MAX_READ_BUFFER_def del: of_nat_mult)
  then obtain a vm1 where a: "v_mmap_allocate (ee_vm E) (of_nat (MAX_READ_BUFFER * n)) (mi_vm mi) = (a, vm1)"
    and al: "allocate_post_data (ee_vm E) (of_nat (MAX_READ_BUFFER * n)) mi =
      (a, mi\<lparr>mi_vm := vm1, mi_post_data := a, mi_post_size := of_nat (MAX_READ_BUFFER * n)\<rparr>)"
    using fresh by (cases "v_mmap_allocate (ee_vm E) (of_nat (MAX_READ_BUFFER * n)) (mi_vm mi)")
      (simp add: allocate_post_data_def Let_def)
  have "unat a + n * MAX_READ_BUFFER \<le> 2 ^ 64" using room [OF a] size by simp
  moreover have s: "s = \<lparr>es_mi = mi\<lparr>mi_vm := vm1, mi_post_data := a, mi_post_size := of_nat (MAX_READ_BUFFER * n)\<rparr>,
      es_buffers = map (\<lambda>i. a + of_nat (i * MAX_READ_BUFFER)) [0..<n], es_current = 0, es_fd_to_vfd = Map.empty, es_running = True,
      es_queue = [], es_closed = [], es_handed = [], es_exceptions = 0\<rparr>"
    using assms(1) vm al by (auto simp: epoll_server_def split: if_splits prod.splits option.splits)
  ultimately show "epoll_inv s" using n unfolding epoll_inv_def by auto
  show "es_queue s = []" "es_handed s = []" "es_exceptions s = 0" "es_running s" using s by simp_all
qed


text \<open>A guest that waits after every call, with its memory and a table that numbers sockets from 3.\<close>

definition epoll_demo :: "vm_mem epoll_env" where
  "epoll_demo =
     \<lparr>ee_guest = guest_mem\<lparr>go_write := (\<lambda>a s vm. Inr (mem_write a s (fst vm), snd vm))\<rparr>,
      ee_exec = exec_mem (\<lambda>c mi. (mi\<lparr>mi_waiting := True\<rparr>, None)),
      ee_vm = \<lparr>v_reset_to = (\<lambda>vm m r. (vm, Inr True)), v_fork = (\<lambda>vm t. vm), v_mmap_unmap = (\<lambda>a n vm. vm),
        v_mmap_allocate = (\<lambda>n vm. (if n \<le> 0x4000000 then 0x100000 else 0, vm))\<rparr>,
      ee_fds_manage = (\<lambda>fd vm. (3, vm)), ee_fds_free = (\<lambda>v vm. vm), ee_fds_translate = (\<lambda>v vm. Inr 7),
      ee_store = (\<lambda>a d vm. (mem_write a d (fst vm), snd vm)), ee_view = fst\<rparr>"

definition epoll_setup_demo :: ep_setup where
  "epoll_setup_demo = \<lparr>eo_socket = True, eo_reuseaddr = True, eo_bind = True, eo_listen = True, eo_add_listen = True, eo_eventfd = True,
     eo_add_event = True\<rparr>"

definition reports_demo :: "ep_report list list" where
  "reports_demo = [[Listening [\<lparr>ac_fd = 7, ac_nonblock = True, ac_add = True\<rparr>]],
     [Socket 7 True False False [ReadData ''hel'', ReadData ''lo'', ReadEof]]]"

lemma epoll_demo_laws: "epoll_laws epoll_demo"
proof -
  have "unat (sp - of_nat (length d)) + length d = unat sp" if "length d + 8 \<le> unat sp" for sp :: u64 and d :: string
  proof -
    have "unat (of_nat (length d) :: u64) = length d"
      using that unsigned_less [of sp, where 'a = nat] by (simp add: unsigned_of_nat take_bit_nat_eq_self)
    then show ?thesis using that by (simp add: unat_sub_if')
  qed
  then show ?thesis by (auto simp: epoll_laws_def epoll_demo_def exec_mem_def)
qed

definition server_demo :: "host_fd list \<times> vm_mem epoll res" where
  "server_demo = epoll_server epoll_demo epoll_setup_demo True (entries_new[12 := 0x400000])
     (demo_conf\<lparr>t_group := (t_group demo_conf)\<lparr>g_server_port := 8080\<rparr>\<rparr>) (machine_of (\<lambda>a. CHR 0x00, regs_zero)) 0"

lemma demo_resume: "\<exists>mi'. epoll_resume epoll_demo evs mi = (mi', None)"
  by (simp add: epoll_resume_def epoll_demo_def exec_mem_def Let_def)

lemma demo_flush:
  obtains s' where "epoll_flush epoll_demo s = (s', None)" "es_queue s' = []" "es_current s' = 0" "es_buffers s' = es_buffers s"
    "es_fd_to_vfd s' = es_fd_to_vfd s" "es_exceptions s' = es_exceptions s" "es_running s' = es_running s"
proof -
  obtain mi' where "epoll_resume epoll_demo (es_queue s) (es_mi s) = (mi', None)" using demo_resume by blast
  then have "\<exists>s'. epoll_flush epoll_demo s = (s', None)" by (simp add: epoll_flush_def)
  then obtain s' where "epoll_flush epoll_demo s = (s', None)" by blast
  from that [OF this] flush_stream(2-) [OF this] show ?thesis by blast
qed

lemma server_demo_ok:
  "\<exists>s. server_demo = ([EpollFd, ListenFd, EventFd], Inr s) \<and> es_buffers s = [0x100000] \<and> es_current s = 0 \<and> es_fd_to_vfd s = Map.empty \<and>
     es_queue s = [] \<and> es_running s \<and> es_exceptions s = 0"
  by (simp add: server_demo_def epoll_server_def epoll_open_def epoll_setup_demo_def epoll_start_vm_def entry_at_def entries_new_def
      epoll_demo_def exec_mem_def machine_fork_def machine_of_def regs_zero_def skip_out_insn_def allocate_post_data_def
      MAX_READ_BUFFERS_def MAX_READ_BUFFER_def TOTAL_ENTRIES_def bind_res_def Let_def)

lemma demo_manage:
  assumes "ac_nonblock a" "ac_add a" "es_current s < length (es_buffers s)"
  obtains s' where "epoll_manage epoll_demo a s = (s', Inr True)" "es_current s' = es_current s + 1" "es_buffers s' = es_buffers s"
    "es_fd_to_vfd s' = (es_fd_to_vfd s)(ac_fd a \<mapsto> 3)" "es_exceptions s' = es_exceptions s" "es_running s' = es_running s"
proof (rule that)
  let ?s' = "fst (epoll_manage epoll_demo a s)"
  show "epoll_manage epoll_demo a s = (?s', Inr True)" "es_current ?s' = es_current s + 1" "es_buffers ?s' = es_buffers s"
    "es_fd_to_vfd ?s' = (es_fd_to_vfd s)(ac_fd a \<mapsto> 3)" "es_exceptions ?s' = es_exceptions s" "es_running ?s' = es_running s"
    using assms by (simp_all add: epoll_manage_def epoll_add_def epoll_demo_def exec_mem_def Let_def)
qed

lemma read_event_simps [simp]:
  "es_current (read_event E vfd d s) = es_current s + 1" "es_buffers (read_event E vfd d s) = es_buffers s"
  "es_fd_to_vfd (read_event E vfd d s) = es_fd_to_vfd s" "es_exceptions (read_event E vfd d s) = es_exceptions s"
  "es_running (read_event E vfd d s) = es_running s"
  by (simp_all add: read_event_def Let_def)

text \<open>With one buffer, the run uses it for the connection and for each of the two reads.\<close>

lemma reports_demo_run:
  assumes b: "es_buffers s = [0x100000]" and c: "es_current s = 0" and m: "es_fd_to_vfd s = Map.empty" and r: "es_running s"
  shows "\<exists>s'. epoll_main_loop epoll_demo reports_demo s = Some s' \<and> es_exceptions s' = es_exceptions s \<and>
    run_received epoll_demo reports_demo s 3 = ''hello''"
proof -
  let ?E = epoll_demo and ?a = "\<lparr>ac_fd = 7, ac_nonblock = True, ac_add = True\<rparr>" and ?reads = "[ReadData ''hel'', ReadData ''lo'', ReadEof]"
  obtain s1 where s1: "epoll_manage ?E ?a s = (s1, Inr True)" "es_buffers s1 = [0x100000]" "es_fd_to_vfd s1 = [7 \<mapsto> 3]"
      "es_exceptions s1 = es_exceptions s" "es_running s1"
    by (rule demo_manage [of ?a s]) (use b c m r in auto)
  obtain s2 where s2: "epoll_flush ?E s1 = (s2, None)" "es_current s2 = 0" "es_buffers s2 = [0x100000]" "es_fd_to_vfd s2 = [7 \<mapsto> 3]"
      "es_exceptions s2 = es_exceptions s" "es_running s2"
    by (rule demo_flush [of s1]) (use s1 in auto)
  obtain s3 where s3: "epoll_flush ?E (read_event ?E 3 ''hel'' s2) = (s3, None)" "es_current s3 = 0" "es_buffers s3 = [0x100000]"
      "es_fd_to_vfd s3 = [7 \<mapsto> 3]" "es_exceptions s3 = es_exceptions s" "es_running s3"
    by (rule demo_flush [of "read_event ?E 3 ''hel'' s2"]) (use s2 in auto)
  obtain s4 where s4: "epoll_flush ?E (read_event ?E 3 ''lo'' s3) = (s4, None)" "es_current s4 = 0" "es_buffers s4 = [0x100000]"
      "es_fd_to_vfd s4 = [7 \<mapsto> 3]" "es_exceptions s4 = es_exceptions s" "es_running s4"
    by (rule demo_flush [of "read_event ?E 3 ''lo'' s3"]) (use s3 in auto)
  have read: "fd_readable ?E 7 ?reads 0 s2 = (s4, Inr ReadEof)"
    using s2 s3 s4 by (simp add: MAX_READ_BUFFER_def)
  obtain s5 where s5: "epoll_hangup ?E 7 s4 = (s5, None)" "es_exceptions s5 = es_exceptions s" "es_running s5"
    using s4 by (simp add: epoll_hangup_def Let_def)
  have sock: "epoll_report ?E (Socket 7 True False False ?reads) s2 = Some s5"
    using read s5 by (simp add: epoll_socket_def)
  obtain s6 where s6: "epoll_flush ?E s5 = (s6, None)" "es_exceptions s6 = es_exceptions s" "es_running s6"
    by (rule demo_flush [of s5]) (use s5 in auto)
  have it: "epoll_iterate ?E [Listening [?a]] s = Some s2" using s1 s2 by (simp add: epoll_iterate_def)
  have it2: "epoll_iterate ?E [Socket 7 True False False ?reads] s2 = Some s6"
    using sock s6 unfolding epoll_iterate_def epoll_reports.simps by simp
  have "epoll_main_loop ?E reports_demo s = Some s6"
    unfolding reports_demo_def epoll_main_loop.simps using r it it2 s2 by simp
  moreover have "run_received ?E reports_demo s 3 = ''hello''"
    unfolding reports_demo_def run_received.simps received.simps report_bytes.simps it it2 sock
    using r s1 s2 by (simp add: MAX_READ_BUFFER_def split: option.splits)
  ultimately show ?thesis using s6 by simp
qed


lemma manage_current:
  "epoll_manage E a s = (s', Inr b) \<Longrightarrow> ac_nonblock a \<Longrightarrow> es_current s' = es_current s + 1 \<and> es_buffers s' = es_buffers s \<and>
     es_current s < length (es_buffers s)"
  by (auto simp: epoll_manage_def epoll_add_def Let_def split: prod.splits sum.splits if_splits)

text \<open>
  C40. More connections at once than the server has read buffers left end the process: each takes a buffer
  for the name of its peer, and the lookup of a buffer that is not there throws outside of any handler.
\<close>

theorem connections_end_process:
  assumes "list_all ac_nonblock as" and "length (es_buffers s) < es_current s + length as" and "es_current s \<le> length (es_buffers s)"
  shows "epoll_accept E as s = None"
  using assms
proof (induction as arbitrary: s)
  case Nil
  then show ?case by simp
next
  case (Cons a as)
  obtain s1 r where m: "epoll_manage E a s = (s1, r)" by fastforce
  show ?case
  proof (cases r)
    case (Inl e)
    with m show ?thesis by simp
  next
    case (Inr b)
    with m Cons.prems have "es_current s1 = es_current s + 1" "es_buffers s1 = es_buffers s" "es_current s < length (es_buffers s)"
      by (auto dest: manage_current)
    then show ?thesis using m Inr Cons.IH [of s1] Cons.IH [of "epoll_close (ac_fd a) s1"] Cons.prems by (cases b) auto
  qed
qed

theorem connections_end_process_witness:
  "\<exists>s. server_demo = ([EpollFd, ListenFd, EventFd], Inr s) \<and> epoll_accept epoll_demo (replicate 2 \<lparr>ac_fd = 7, ac_nonblock = True, ac_add = True\<rparr>) s = None"
proof -
  obtain s where s: "server_demo = ([EpollFd, ListenFd, EventFd], Inr s)" "es_buffers s = [0x100000]" "es_current s = 0"
    using server_demo_ok by blast
  then have "epoll_accept epoll_demo (replicate 2 \<lparr>ac_fd = 7, ac_nonblock = True, ac_add = True\<rparr>) s = None"
    by (intro connections_end_process) (simp_all add: numeral_2_eq_2)
  then show ?thesis using s(1) by blast
qed

section \<open>Stopping, and the array of events\<close>

text \<open>Nothing sets the flag of the loop again.\<close>

lemma running_simps [simp]:
  "es_running (push_event v s) = es_running s" "es_running (set_vm vm s) = es_running s"
  "es_running (epoll_close fd s) = es_running s" "es_running (read_event E vfd d s) = es_running s"
  "es_running (caught (s, e)) = es_running s"
  by (simp_all add: push_event_def set_vm_def epoll_close_def read_event_def caught_def Let_def split: option.splits)

lemma caught_running: "es_running (caught r) = es_running (fst r)"
  by (cases r) simp

lemma flush_running: "es_running (fst (epoll_flush E s)) = es_running s"
  by (auto simp: epoll_flush_def split: prod.splits option.splits)

lemma readable_running: "es_running (fst (fd_readable E fd rs tot s)) = es_running s"
proof (induction rs arbitrary: s tot)
  case Nil
  show ?case using flush_running [of E s] by (auto split: prod.splits option.splits if_splits)
next
  case (Cons r rs)
  then show ?case
    using flush_running [of E s] by (auto split: prod.splits option.splits read_result.splits)
qed

lemma writable_running: "es_running (fst (fd_writable fd s)) = es_running s"
  by (simp add: fd_writable_def split: option.splits)

lemma hangup_running: "es_running (fst (epoll_hangup E fd s)) = es_running s"
  by (simp add: epoll_hangup_def Let_def split: option.splits)

lemma rest_running: "es_running (epoll_rest E fd writable hup s) = es_running s"
  by (simp add: epoll_rest_def Let_def caught_running writable_running hangup_running)

lemma socket_running: "es_running (epoll_socket E fd readable writable hup reads s) = es_running s"
proof -
  obtain s1 r where r: "fd_readable E fd reads 0 s = (s1, r)" by fastforce
  obtain s2 e2 where h: "epoll_hangup E fd s1 = (s2, e2)" by fastforce
  have x: "es_running s1 = es_running s" "es_running s2 = es_running s1"
    using readable_running [of E fd reads 0 s] hangup_running [of E fd s1] r h by simp_all
  show ?thesis
  proof (cases r)
    case (Inl e)
    then show ?thesis using r x by (simp add: epoll_socket_def rest_running Let_def)
  next
    case (Inr last)
    then show ?thesis using r x h by (cases last; cases e2) (simp_all add: epoll_socket_def rest_running Let_def)
  qed
qed

lemma manage_running: "es_running (fst (epoll_manage E a s)) = es_running s"
  by (simp add: epoll_manage_def epoll_add_def Let_def split: prod.splits sum.splits)

lemma accept_running: "epoll_accept E as s = Some s' \<Longrightarrow> es_running s' = es_running s"
proof (induction E as s rule: epoll_accept.induct)
  case (2 E a as s)
  obtain s1 r where m: "epoll_manage E a s = (s1, r)" by fastforce
  have "es_running s1 = es_running s" using manage_running [of E a s] m by simp
  then show ?case using 2 m by (auto split: sum.splits bool.splits)
qed simp

lemma report_running: "epoll_report E r s = Some s' \<Longrightarrow> \<not> es_running s \<Longrightarrow> \<not> es_running s'"
  by (cases r) (auto simp: socket_running dest: accept_running)

text \<open>A stopped server has closed its own descriptors, and its destructor then does nothing more.\<close>

lemma reports_running: "\<lbrakk>epoll_reports E rs s = Some s'; \<not> es_running s\<rbrakk> \<Longrightarrow> \<not> es_running s'"
proof (induction rs arbitrary: s)
  case (Cons r rs)
  then obtain s1 where r: "epoll_report E r s = Some s1" and rest: "epoll_reports E rs s1 = Some s'" by (auto split: option.splits)
  have "\<not> es_running s1" using r Cons.prems(2) by (rule report_running)
  then show ?case using Cons.IH [OF rest] by simp
qed simp

lemma stop_closes:
  assumes "epoll_stop E reports (fds, s) = Some (fds', s')"
  shows "fds' = []" and "\<not> es_running s'" and "epoll_destroy E reports' (fds', s') = Some (fds', s')"
proof -
  have all: "f \<in> {EpollFd, ListenFd, EventFd}" for f by (cases f) auto
  then show f: "fds' = []" using assms by (auto simp: epoll_stop_def Let_def filter_empty_conv split: option.splits)
  show r: "\<not> es_running s'"
  proof (cases reports)
    case None then show ?thesis using assms by (auto simp: epoll_stop_def Let_def)
  next
    case (Some rs)
    then obtain s1 where s1: "epoll_reports E rs (s\<lparr>es_running := False\<rparr>) = Some s1" and fl: "epoll_flush E s1 = (s', None)"
      using assms by (auto simp: epoll_stop_def Let_def epoll_iterate_def split: option.splits prod.splits)
    then show ?thesis using reports_running [OF s1] flush_running [of E s1] by simp
  qed
  show "epoll_destroy E reports' (fds', s') = Some (fds', s')" using r by (simp add: epoll_destroy_def)
qed

text \<open>The array of events as it is put into guest memory reads back as the same events.\<close>

lemma length_enc_event [simp]: "length (enc_event e) = EVENT_SIZE"
  by (simp add: enc_event_def EVENT_SIZE_def)

lemma dec_enc_event [simp]: "dec_event (enc_event e) = e"
  by (simp add: dec_event_def enc_event_def)

lemma dec_enc_events: "dec_events (length evs) (concat (map enc_event evs)) = evs"
  by (induction evs) simp_all

text \<open>Writing to sockets changes no byte of guest memory but the first word of each event.\<close>

lemma sockets_write_loop_frame:
  assumes "write_law (ee_guest E) mem" and "sockets_write_loop E again writev addr evs vm = (vm', e)"
    and "\<And>i. i < length evs \<Longrightarrow> 4 \<le> unat (x - (addr + of_nat (i * EVENT_SIZE)))"
  shows "mem vm' x = mem vm x"
  using assms(2,3)
proof (induction evs arbitrary: addr vm)
  case (Cons ev evs)
  let ?next = "sockets_write_loop E again writev (addr + of_nat EVENT_SIZE) evs"
  have away: "4 \<le> unat (x - (addr + of_nat EVENT_SIZE + of_nat (i * EVENT_SIZE)))" if "i < length evs" for i
    using Cons.prems(2) [of "Suc i"] that by (simp add: algebra_simps)
  have rest: "mem vm' x = mem vm1 x" if "?next vm1 = (vm', e)" for vm1 using Cons.IH [OF that away] by blast
  have put: "mem vm1 x = mem vm x" if "go_write (ee_guest E) addr (le_bytes 4 (w :: 32 word)) vm = Inr vm1" for w vm1
  proof -
    have "mem vm1 = mem_write addr (le_bytes 4 w) (mem vm)" using assms(1) that unfolding write_law_def by blast
    then show ?thesis using Cons.prems(2) [of 0] by (simp add: mem_write_def)
  qed
  show ?case
  proof (cases "se_event ev = 2")
    case False then show ?thesis using Cons.prems(1) rest by simp
  next
    case True
    then show ?thesis using Cons.prems(1) rest put
      by (force simp: Let_def split: sum.splits if_splits)
  qed
qed simp

lemma sockets_write_frame:
  assumes "write_law (ee_guest E) mem" and "syscall_sockets_write E again writev r vm = ((r', vm'), e)"
    and "\<And>i. i < MAX_WRITE_BUFFERS \<Longrightarrow> 4 \<le> unat (x - (r_rdi r + of_nat (i * EVENT_SIZE)))"
  shows "mem vm' x = mem vm x" and "r' = r"
proof -
  let ?cnt = "min MAX_WRITE_BUFFERS (max 1 (unat (r_rsi r)))"
  have len: "length (dec_events n s) = n" for n s by (induction n arbitrary: s) simp_all
  show "r' = r" using assms(2) by (auto simp: syscall_sockets_write_def Let_def split: sum.splits prod.splits)
  show "mem vm' x = mem vm x"
  proof (cases "go_read (ee_guest E) (r_rdi r) (?cnt * EVENT_SIZE) vm")
    case (Inl ex) then show ?thesis using assms(2) by (simp add: syscall_sockets_write_def Let_def)
  next
    case (Inr bytes)
    then have "sockets_write_loop E again writev (r_rdi r) (dec_events ?cnt bytes) vm = (vm', e)"
      using assms(2) by (simp add: syscall_sockets_write_def Let_def split: prod.splits)
    then show ?thesis by (rule sockets_write_loop_frame [OF assms(1)]) (rule assms(3), simp add: len)
  qed
qed

end
