(* ===== verification/Stats.thy ===== *)
theory Stats
  imports Live_Update "HOL-Library.AList"
begin

text \<open>
  The statistics of the programs as a JSON document (\<^verbatim>\<open>lib/libkvm/kvm_stats.cpp\<close>, and \<open>vmod_stats\<close> of
  \<^verbatim>\<open>src/tinykvm/vmod_tinykvm.c\<close>). A null pointer that is dereferenced is the value None.
\<close>

section \<open>Documents\<close>

text \<open>The values the document is made of. A \<open>double\<close> is its bit pattern.\<close>

type_synonym double64 = u64

datatype stat_json =
    SNull | SNum int | SDouble double64 | SString string
  | SArray "stat_json list" | SObject "(string \<times> stat_json) list"

text \<open>\<open>operator[]\<close> with an assignment: a value that is not an object is null and becomes one.\<close>

fun stat_members :: "stat_json \<Rightarrow> (string \<times> stat_json) list" where
  "stat_members (SObject ms) = ms"
| "stat_members _ = []"

definition stat_set :: "string \<Rightarrow> stat_json \<Rightarrow> stat_json \<Rightarrow> stat_json" where
  "stat_set k v j = SObject (AList.update k v (stat_members j))"

text \<open>\<open>push_back\<close> of a key with its value on an object, which keeps a member that is there.\<close>

definition stat_push :: "string \<Rightarrow> stat_json \<Rightarrow> stat_json \<Rightarrow> stat_json" where
  "stat_push k v j = (if map_of (stat_members j) k = None then SObject (stat_members j @ [(k, v)]) else j)"

definition stat_get :: "string \<Rightarrow> stat_json \<Rightarrow> stat_json" where
  "stat_get k j = (case map_of (stat_members j) k of None \<Rightarrow> SNull | Some v \<Rightarrow> v)"

fun stat_path :: "string list \<Rightarrow> stat_json \<Rightarrow> stat_json" where
  "stat_path [] j = j"
| "stat_path (k # ks) j = stat_path ks (stat_get k j)"

section \<open>One machine\<close>

text \<open>The measured times of a machine, in seconds.\<close>

record stat_times =
  tm_reservation :: double64
  tm_reset :: double64
  tm_request_cpu :: double64
  tm_error_cpu :: double64

text \<open>
  What the statistics read of the surroundings: the times, the addition of doubles, the memory banks of
  the virtual machine, and the sizes of the task queues (the storage VM has no number) and of the
  schedule of timers.
\<close>

record 'm stats_env =
  sv_times :: "'m machine \<Rightarrow> stat_times"
  sv_add :: "double64 \<Rightarrow> double64 \<Rightarrow> double64"
  sv_bank_capacity :: "'m \<Rightarrow> u64"
  sv_bank_highest :: "'m \<Rightarrow> u64"
  sv_bank_current :: "'m \<Rightarrow> u64"
  sv_queued :: "'m prog \<Rightarrow> nat option \<Rightarrow> nat"
  sv_timers :: "'m prog \<Rightarrow> nat"

definition machine_numbers :: "machine_stats \<Rightarrow> (string \<times> stat_json) list" where
  "machine_numbers st =
     [(''invocations'', SNum (uint (st_invocations st))),
      (''resets'', SNum (uint (st_resets st))),
      (''resets_full'', SNum (uint (st_full_resets st))),
      (''exceptions'', SNum (uint (st_exceptions st))),
      (''exception_oom'', SNum (uint (st_exception_oom st))),
      (''exception_mem'', SNum (uint (st_exception_mem st))),
      (''timeouts'', SNum (uint (st_timeouts st)))]"

definition machine_times :: "stat_times \<Rightarrow> (string \<times> stat_json) list" where
  "machine_times tm =
     [(''reservation_time'', SDouble (tm_reservation tm)),
      (''reset_time'', SDouble (tm_reset tm)),
      (''request_cpu_time'', SDouble (tm_request_cpu tm)),
      (''exception_cpu_time'', SDouble (tm_error_cpu tm))]"

definition machine_traffic :: "machine_stats \<Rightarrow> (string \<times> stat_json) list" where
  "machine_traffic st =
     [(''input_bytes'', SNum (uint (st_input_bytes st))),
      (''output_bytes'', SNum (uint (st_output_bytes st))),
      (''status_2xx'', SNum (uint (st_status_2xx st))),
      (''status_3xx'', SNum (uint (st_status_3xx st))),
      (''status_4xx'', SNum (uint (st_status_4xx st))),
      (''status_5xx'', SNum (uint (st_status_5xx st)))]"

definition gather_machine :: "'m stats_env \<Rightarrow> tenant_conf \<Rightarrow> nat \<Rightarrow> 'm machine \<Rightarrow> stat_json" where
  "gather_machine E conf queued mi =
     SObject (machine_numbers (mi_stats mi) @ machine_times (sv_times E mi) @ machine_traffic (mi_stats mi) @
       [(''vm_address_space'', SNum (uint (g_max_address_space (t_group conf)))),
        (''vm_main_memory'', SNum (uint (g_max_main_memory (t_group conf)))),
        (''vm_bank_capacity'', SNum (uint (sv_bank_capacity E (mi_vm mi)))),
        (''vm_bank_highest'', SNum (uint (sv_bank_highest E (mi_vm mi)))),
        (''vm_bank_current'', SNum (uint (sv_bank_current E (mi_vm mi)))),
        (''tasks_queued'', SNum (int queued))])"

section \<open>Totals\<close>

definition times_zero :: stat_times where
  "times_zero = \<lparr>tm_reservation = 0, tm_reset = 0, tm_request_cpu = 0, tm_error_cpu = 0\<rparr>"

text \<open>
  The step of the loop over the request VMs. The exceptions of all kinds are added up, in 32 bits.
\<close>

definition add_numbers :: "machine_stats \<Rightarrow> machine_stats \<Rightarrow> machine_stats" where
  "add_numbers tot st = tot\<lparr>
     st_invocations := st_invocations tot + st_invocations st,
     st_exceptions := st_exceptions tot + (st_exceptions st + st_exception_oom st + st_exception_mem st),
     st_resets := st_resets tot + st_resets st,
     st_full_resets := st_full_resets tot + st_full_resets st,
     st_timeouts := st_timeouts tot + st_timeouts st,
     st_input_bytes := st_input_bytes tot + st_input_bytes st,
     st_output_bytes := st_output_bytes tot + st_output_bytes st,
     st_status_2xx := st_status_2xx tot + st_status_2xx st,
     st_status_3xx := st_status_3xx tot + st_status_3xx st,
     st_status_4xx := st_status_4xx tot + st_status_4xx st,
     st_status_5xx := st_status_5xx tot + st_status_5xx st,
     st_status_unknown := st_status_unknown tot + st_status_unknown st\<rparr>"

definition add_times :: "'m stats_env \<Rightarrow> stat_times \<Rightarrow> stat_times \<Rightarrow> stat_times" where
  "add_times E tot tm = \<lparr>
     tm_reservation = sv_add E (tm_reservation tot) (tm_reservation tm),
     tm_reset = sv_add E (tm_reset tot) (tm_reset tm),
     tm_request_cpu = sv_add E (tm_request_cpu tot) (tm_request_cpu tm),
     tm_error_cpu = sv_add E (tm_error_cpu tot) (tm_error_cpu tm)\<rparr>"

text \<open>The loop, from the VM with number \<open>i\<close> on: the documents of the VMs and the totals.\<close>

fun gather_vms ::
    "'m stats_env \<Rightarrow> tenant_conf \<Rightarrow> 'm prog \<Rightarrow> nat \<Rightarrow> 'm slot list \<Rightarrow> stat_json list \<times> machine_stats \<times> stat_times \<Rightarrow>
     (stat_json list \<times> machine_stats \<times> stat_times) option" where
  "gather_vms E conf p i [] acc = Some acc"
| "gather_vms E conf p i (sl # sls) (docs, tot, tms) =
     (case sl_mi sl of
        None \<Rightarrow> None
      | Some mi \<Rightarrow>
          gather_vms E conf p (Suc i) sls
            (docs @ [gather_machine E conf (sv_queued E p (Some i)) mi], add_numbers tot (mi_stats mi), add_times E tms (sv_times E mi)))"

definition totals_doc :: "machine_stats \<Rightarrow> stat_times \<Rightarrow> stat_json" where
  "totals_doc tot tms =
     SObject ([(''invocations'', SNum (uint (st_invocations tot))),
       (''resets'', SNum (uint (st_resets tot))),
       (''resets_full'', SNum (uint (st_full_resets tot))),
       (''exceptions'', SNum (uint (st_exceptions tot))),
       (''timeouts'', SNum (uint (st_timeouts tot)))] @ machine_times tms @ machine_traffic tot)"

section \<open>One program\<close>

definition entry_number :: "entries \<Rightarrow> program_entry \<Rightarrow> stat_json" where
  "entry_number es e = SNum (uint (es ! nat (entry_index e)))"

definition entries_doc :: "entries \<Rightarrow> stat_json" where
  "entries_doc es = SObject
     [(''on_recv'', entry_number es ON_RECV),
      (''backend_get'', entry_number es BACKEND_GET),
      (''backend_post'', entry_number es BACKEND_POST),
      (''backend_method'', entry_number es BACKEND_METHOD),
      (''backend_stream'', entry_number es BACKEND_STREAM),
      (''backend_error'', entry_number es BACKEND_ERROR),
      (''live_update_serialize'', entry_number es LIVEUPD_SERIALIZE),
      (''live_update_deserialize'', entry_number es LIVEUPD_DESERIALIZE),
      (''socket_pause_resume_api'', entry_number es SOCKET_PAUSE_RESUME_API)]"

definition program_slots :: "'m prog \<Rightarrow> 'm slot list" where
  "program_slots p = (case pg_pool p of None \<Rightarrow> [] | Some pl \<Rightarrow> pl_vms pl)"

definition reservation_timeouts :: "'m prog \<Rightarrow> u64" where
  "reservation_timeouts p = (case pg_pool p of None \<Rightarrow> 0 | Some pl \<Rightarrow> pl_timeouts pl)"

definition program_doc :: "'m tprog \<Rightarrow> double64 \<Rightarrow> stat_json" where
  "program_doc tp total_resv_time =
     (let p = tp_prog tp in
      SObject [(''binary_type'', SString (case pg_main p of Some mi \<Rightarrow> binary_type_string (mi_binary_type mi) | None \<Rightarrow> ''(not present)'')),
        (''binary_size'', SNum (int (length (pg_request p)))),
        (''entry_points'', entries_doc (pg_entries p)),
        (''live_updates'', SNum (uint (tp_live_updates tp))),
        (''live_update_transfer_bytes'', SNum (tp_transfer_bytes tp)),
        (''reservation_time'', SDouble total_resv_time),
        (''reservation_timeouts'', SNum (uint (reservation_timeouts p)))])"

text \<open>The storage VM, which is an array of one document.\<close>

definition storage_doc :: "'m stats_env \<Rightarrow> tenant_conf \<Rightarrow> 'm prog \<Rightarrow> stat_json option option" where
  "storage_doc E conf p =
     (if pg_storage p = None then Some None
      else case pg_storage_vm p of
        None \<Rightarrow> None
      | Some mi \<Rightarrow>
          Some (Some (SArray [stat_push ''tasks_inschedule'' (SNum (int (sv_timers E p))) (gather_machine E conf (sv_queued E p None) mi)])))"

definition gather_stats :: "'m stats_env \<Rightarrow> 'm tinst \<Rightarrow> stat_json \<Rightarrow> stat_json option" where
  "gather_stats E t j =
     (case ti_program t of
        None \<Rightarrow> Some j
      | Some tp \<Rightarrow>
          let p = tp_prog tp; name = t_name (ti_conf t); obj = stat_get name j in
          case storage_doc E (ti_conf t) p of
            None \<Rightarrow> None
          | Some storage \<Rightarrow>
              let obj = (case storage of None \<Rightarrow> obj | Some d \<Rightarrow> stat_set ''storage'' d obj) in
              case gather_vms E (ti_conf t) p 0 (program_slots p) ([], machine_stats_new, times_zero) of
                None \<Rightarrow> None
              | Some (docs, tot, tms) \<Rightarrow>
                  let requests = stat_push ''totals'' (totals_doc tot tms) (stat_set ''machines'' (SArray docs) (stat_get ''request'' obj));
                      obj = stat_set ''program'' (program_doc tp (tm_reservation tms)) (stat_set ''request'' requests obj)
                  in Some (stat_set name obj j))"

section \<open>All programs\<close>

text \<open>
  \<open>kvm_json_stats\<close>. The regular expressions, the printer of the JSON library and the workspace are given;
  \<open>sj_compile\<close> gives the result of the match. The result is the reason of a call of \<open>VRT_fail\<close>, if there
  is one, with the returned string.
\<close>

datatype stats_fail = RegexFailed string | OutOfWorkspace nat | StatsException exn

record stats_out =
  sj_compile :: "string \<Rightarrow> (string \<Rightarrow> int) option"
  sj_dump :: "int \<Rightarrow> stat_json \<Rightarrow> string res"
  sj_alloc :: "nat \<Rightarrow> bool"

fun stats_foreach :: "'m stats_env \<Rightarrow> (string \<Rightarrow> int) \<Rightarrow> 'm tenants \<Rightarrow> stat_json \<Rightarrow> stat_json option" where
  "stats_foreach E match [] j = Some j"
| "stats_foreach E match ((h, t) # ts) j =
     (if match (t_name (ti_conf t)) > 0
      then (case gather_stats E t j of None \<Rightarrow> None | Some j \<Rightarrow> stats_foreach E match ts j)
      else stats_foreach E match ts j)"

definition kvm_json_stats ::
    "'m stats_env \<Rightarrow> stats_out \<Rightarrow> bool \<Rightarrow> string \<Rightarrow> int \<Rightarrow> 'm tenants \<Rightarrow> (stats_fail option \<times> string) option" where
  "kvm_json_stats E Z ws pattern indent ts =
     (if \<not> ws then Some (None, ''{}'')
      else case sj_compile Z pattern of
        None \<Rightarrow> Some (Some (RegexFailed pattern), ''{}'')
      | Some match \<Rightarrow>
          (case stats_foreach E match ts SNull of
             None \<Rightarrow> None
           | Some j \<Rightarrow>
               (case sj_dump Z indent j of
                  Inl e \<Rightarrow> Some (Some (StatsException e), ''{}'')
                | Inr out \<Rightarrow>
                    if sj_alloc Z (length out + 1) then Some (None, out)
                    else Some (Some (OutOfWorkspace (length out)), ''{}''))))"

text \<open>\<open>vmod_stats\<close>: the indentation is kept between -1 and 16, and -1 survives the passage through an unsigned number.\<close>

definition vmod_stats ::
    "'m stats_env \<Rightarrow> stats_out \<Rightarrow> bool \<Rightarrow> string option \<Rightarrow> int \<Rightarrow> 'm tenants \<Rightarrow> (stats_fail option \<times> string) option" where
  "vmod_stats E Z ws pattern indent ts =
     (case pattern of
        None \<Rightarrow> Some (None, ''{}'')
      | Some pat \<Rightarrow> kvm_json_stats E Z ws pat (let i = (if indent < -1 then -1 else indent) in if i > 16 then 16 else i) ts)"

section \<open>The document\<close>

lemma stat_members_set: "map_of (stat_members (stat_set k v j)) = (map_of (stat_members j))(k \<mapsto> v)"
  by (simp add: stat_set_def update_conv')

lemma stat_get_set: "stat_get k (stat_set k' v j) = (if k = k' then v else stat_get k j)"
  by (simp add: stat_get_def stat_members_set)

lemma stat_get_push: "map_of (stat_members j) k = None \<Longrightarrow> stat_get k (stat_push k v j) = v"
  by (simp add: stat_get_def stat_push_def map_add_def)

text \<open>The programs a document has an entry for.\<close>

definition stat_names :: "stat_json \<Rightarrow> string set" where
  "stat_names j = fst ` set (stat_members j)"

lemma stat_names_set: "stat_names (stat_set k v j) = insert k (stat_names j)"
  by (simp add: stat_names_def stat_set_def update_conv' flip: dom_map_of_conv_image_fst)

text \<open>A program whose statistics can be read: its request VMs have all been forked, its storage VM made.\<close>

definition readable_program :: "'m prog \<Rightarrow> bool" where
  "readable_program p \<longleftrightarrow> (pg_storage p \<noteq> None \<longrightarrow> pg_storage_vm p \<noteq> None) \<and> (\<forall>sl\<in>set (program_slots p). sl_mi sl \<noteq> None)"

definition machines :: "'m slot list \<Rightarrow> 'm machine list" where
  "machines sls = map (the \<circ> sl_mi) sls"

lemma gather_vms_none: "gather_vms E conf p i sls acc = None \<longleftrightarrow> (\<exists>sl\<in>set sls. sl_mi sl = None)"
  by (induction E conf p i sls acc rule: gather_vms.induct) (auto split: option.splits)

text \<open>The loop adds up the numbers of the machines, and lists their documents in order.\<close>

lemma gather_vms_sum:
  assumes "gather_vms E conf p i sls (docs, tot, tms) = Some (docs', tot', tms')"
  shows "tot' = fold (\<lambda>mi tot. add_numbers tot (mi_stats mi)) (machines sls) tot"
    and "docs' = docs @ map (\<lambda>k. gather_machine E conf (sv_queued E p (Some (i + k))) (machines sls ! k)) [0..<length sls]"
proof -
  have "tot' = fold (\<lambda>mi tot. add_numbers tot (mi_stats mi)) (machines sls) tot \<and>
      docs' = docs @ map (\<lambda>k. gather_machine E conf (sv_queued E p (Some (i + k))) (machines sls ! k)) [0..<length sls]"
    using assms
  proof (induction sls arbitrary: i docs tot tms)
    case (Cons sl sls)
    then obtain mi where mi: "sl_mi sl = Some mi" by (auto split: option.splits)
    note step = Cons.IH [of "Suc i"]
    have "[0..<length (sl # sls)] = 0 # map Suc [0..<length sls]" by (simp add: map_Suc_upt upt_conv_Cons del: upt_Suc)
    then show ?case using Cons.prems step mi by (fastforce simp: machines_def comp_def)
  qed (simp add: machines_def)
  then show "tot' = fold (\<lambda>mi tot. add_numbers tot (mi_stats mi)) (machines sls) tot"
    and "docs' = docs @ map (\<lambda>k. gather_machine E conf (sv_queued E p (Some (i + k))) (machines sls ! k)) [0..<length sls]" by simp_all
qed

text \<open>A number of the totals is the sum over the machines.\<close>

lemma fold_add:
  assumes "\<And>tot st. f (add_numbers tot st) = f tot + g st"
  shows "f (fold (\<lambda>mi tot. add_numbers tot (mi_stats mi)) ms tot) = f tot + (\<Sum>mi\<leftarrow>ms. g (mi_stats mi) :: 'a::len word)"
  by (induction ms arbitrary: tot) (simp_all add: assms add.assoc)

text \<open>The numbers of the totals that are plain sums, by their keys.\<close>

definition total_fields :: "(string \<times> (machine_stats \<Rightarrow> u64)) list" where
  "total_fields =
     [(''invocations'', st_invocations), (''resets'', st_resets), (''resets_full'', st_full_resets), (''timeouts'', st_timeouts),
      (''input_bytes'', st_input_bytes), (''output_bytes'', st_output_bytes), (''status_2xx'', st_status_2xx),
      (''status_3xx'', st_status_3xx), (''status_4xx'', st_status_4xx), (''status_5xx'', st_status_5xx)]"

lemma total_fields_get: "(k, f) \<in> set total_fields \<Longrightarrow> stat_get k (totals_doc tot tms) = SNum (uint (f tot))"
  unfolding total_fields_def list.set insert_iff prod.inject empty_iff
  by (elim disjE conjE FalseE) (simp_all add: totals_doc_def stat_get_def machine_times_def machine_traffic_def)

lemma total_fields_add: "(k, f) \<in> set total_fields \<Longrightarrow> f (add_numbers tot st) = f tot + f st"
  by (auto simp: total_fields_def add_numbers_def)

lemma total_fields_new: "(k, f) \<in> set total_fields \<Longrightarrow> f machine_stats_new = 0"
  by (auto simp: total_fields_def machine_stats_new_def)

abbreviation totals_of :: "'m machine list \<Rightarrow> machine_stats" where
  "totals_of ms \<equiv> fold (\<lambda>mi tot. add_numbers tot (mi_stats mi)) ms machine_stats_new"

lemma totals_doc_sums:
  shows "(k, f) \<in> set total_fields \<Longrightarrow> stat_get k (totals_doc (totals_of ms) tms) = SNum (uint (\<Sum>mi\<leftarrow>ms. f (mi_stats mi)))"
    and "stat_get ''exceptions'' (totals_doc (totals_of ms) tms) =
      SNum (uint (\<Sum>mi\<leftarrow>ms. st_exceptions (mi_stats mi) + st_exception_oom (mi_stats mi) + st_exception_mem (mi_stats mi)))"
proof -
  assume kf: "(k, f) \<in> set total_fields"
  show "stat_get k (totals_doc (totals_of ms) tms) = SNum (uint (\<Sum>mi\<leftarrow>ms. f (mi_stats mi)))"
    unfolding total_fields_get [OF kf] fold_add [of f f, OF total_fields_add [OF kf]] total_fields_new [OF kf] by simp
next
  have "st_exceptions (add_numbers tot st) = st_exceptions tot + (st_exceptions st + st_exception_oom st + st_exception_mem st)" for tot st
    by (simp add: add_numbers_def)
  from fold_add [of st_exceptions _ ms machine_stats_new, OF this]
  have "st_exceptions (totals_of ms) = 0 + (\<Sum>mi\<leftarrow>ms. st_exceptions (mi_stats mi) + st_exception_oom (mi_stats mi) + st_exception_mem (mi_stats mi))"
    by (simp add: machine_stats_new_def)
  moreover have "stat_get ''exceptions'' (totals_doc tot tms) = SNum (uint (st_exceptions tot))" for tot
    by (simp add: totals_doc_def stat_get_def)
  ultimately show "stat_get ''exceptions'' (totals_doc (totals_of ms) tms) =
      SNum (uint (\<Sum>mi\<leftarrow>ms. st_exceptions (mi_stats mi) + st_exception_oom (mi_stats mi) + st_exception_mem (mi_stats mi)))"
    by simp
qed

lemma storage_doc_none: "storage_doc E conf p = None \<longleftrightarrow> pg_storage p \<noteq> None \<and> pg_storage_vm p = None"
  by (simp add: storage_doc_def split: option.splits)

lemma gather_stats_none: "gather_stats E t j = None \<longleftrightarrow> (\<exists>tp. ti_program t = Some tp \<and> \<not> readable_program (tp_prog tp))"
proof (cases "ti_program t")
  case (Some tp)
  let ?p = "tp_prog tp"
  show ?thesis
  proof (cases "storage_doc E (ti_conf t) ?p")
    case None
    then have "\<not> readable_program ?p" by (simp add: storage_doc_none readable_program_def)
    then show ?thesis using Some None by (simp add: gather_stats_def Let_def)
  next
    case (Some st)
    have "gather_stats E t j = None \<longleftrightarrow> gather_vms E (ti_conf t) ?p 0 (program_slots ?p) ([], machine_stats_new, times_zero) = None"
      using Some \<open>ti_program t = Some tp\<close> by (auto simp: gather_stats_def Let_def split: option.splits)
    moreover have "\<not> (pg_storage ?p \<noteq> None \<and> pg_storage_vm ?p = None)" using Some storage_doc_none [of E "ti_conf t" ?p] by simp
    ultimately show ?thesis using \<open>ti_program t = Some tp\<close> by (auto simp: gather_vms_none readable_program_def)
  qed
qed (simp add: gather_stats_def)

lemma gather_stats_names:
  "gather_stats E t j = Some j' \<Longrightarrow>
     stat_names j' = (if ti_program t = None then stat_names j else insert (t_name (ti_conf t)) (stat_names j))"
  by (auto simp: gather_stats_def Let_def stat_names_set split: option.splits)

text \<open>The tenants whose statistics are asked for.\<close>

definition selected :: "(string \<Rightarrow> int) \<Rightarrow> 'm tenants \<Rightarrow> 'm tinst set" where
  "selected match ts = {t \<in> snd ` set ts. match (t_name (ti_conf t)) > 0}"

lemma stats_foreach_none:
  "stats_foreach E match ts j = None \<longleftrightarrow> (\<exists>t\<in>selected match ts. \<exists>tp. ti_program t = Some tp \<and> \<not> readable_program (tp_prog tp))"
proof (induction E match ts j rule: stats_foreach.induct)
  case (2 E match h t ts j)
  then show ?case using gather_stats_none [of E t j] by (cases "gather_stats E t j") (auto simp: selected_def)
qed (simp add: selected_def)

lemma stats_foreach_names:
  "stats_foreach E match ts j = Some j' \<Longrightarrow>
     stat_names j' = stat_names j \<union> (\<lambda>t. t_name (ti_conf t)) ` {t \<in> selected match ts. ti_program t \<noteq> None}"
proof (induction E match ts j rule: stats_foreach.induct)
  case (2 E match h t ts j)
  have sel: "selected match ((h, t) # ts) = (if match (t_name (ti_conf t)) > 0 then insert t (selected match ts) else selected match ts)"
    by (auto simp: selected_def)
  show ?case
  proof (cases "match (t_name (ti_conf t)) > 0")
    case True
    then obtain j1 where j1: "gather_stats E t j = Some j1" "stats_foreach E match ts j1 = Some j'" using 2(3) by (auto split: option.splits)
    note ih = 2(1) [OF True j1]
    show ?thesis unfolding sel ih gather_stats_names [OF j1(1)] using True by auto
  next
    case False
    then show ?thesis using 2(2,3) sel by simp
  qed
qed (simp add: selected_def)

lemma json_stats_parts:
  assumes "sj_compile Z pattern = Some match"
  shows "kvm_json_stats E Z True pattern indent ts = None \<longleftrightarrow>
      (\<exists>t\<in>selected match ts. \<exists>tp. ti_program t = Some tp \<and> \<not> readable_program (tp_prog tp))"
    and "kvm_json_stats E Z True pattern indent ts = Some (None, out) \<Longrightarrow>
      \<exists>j. sj_dump Z indent j = Inr out \<and>
        stat_names j = (\<lambda>t. t_name (ti_conf t)) ` {t \<in> selected match ts. ti_program t \<noteq> None}"
proof -
  show "kvm_json_stats E Z True pattern indent ts = None \<longleftrightarrow>
      (\<exists>t\<in>selected match ts. \<exists>tp. ti_program t = Some tp \<and> \<not> readable_program (tp_prog tp))"
    using stats_foreach_none [of E match ts SNull] assms by (auto simp: kvm_json_stats_def split: option.splits sum.splits)
  assume "kvm_json_stats E Z True pattern indent ts = Some (None, out)"
  then obtain j where j: "stats_foreach E match ts SNull = Some j" "sj_dump Z indent j = Inr out"
    using assms by (auto simp: kvm_json_stats_def split: option.splits sum.splits if_splits)
  then show "\<exists>j. sj_dump Z indent j = Inr out \<and>
        stat_names j = (\<lambda>t. t_name (ti_conf t)) ` {t \<in> selected match ts. ti_program t \<noteq> None}"
    using stats_foreach_names [OF j(1)] by (auto simp: stat_names_def)
qed

text \<open>The entry of a program that can be read, when the document has none for it yet.\<close>

lemma gather_stats_entry:
  assumes "ti_program t = Some tp" and "readable_program (tp_prog tp)" and "t_name (ti_conf t) \<notin> stat_names j"
  obtains obj j' tms where "gather_stats E t j = Some j'" and "j' = stat_set (t_name (ti_conf t)) obj j"
    and "stat_path [''request'', ''machines''] obj = SArray (map
      (\<lambda>i. gather_machine E (ti_conf t) (sv_queued E (tp_prog tp) (Some i)) (machines (program_slots (tp_prog tp)) ! i))
      [0..<length (machines (program_slots (tp_prog tp)))])"
    and "stat_path [''request'', ''totals''] obj = totals_doc (totals_of (machines (program_slots (tp_prog tp)))) tms"
proof -
  let ?p = "tp_prog tp" and ?name = "t_name (ti_conf t)" and ?ms = "machines (program_slots (tp_prog tp))"
  obtain st where st: "storage_doc E (ti_conf t) ?p = Some st" using assms(2) storage_doc_none [of E "ti_conf t" ?p] by (auto simp: readable_program_def)
  obtain docs tot tms where v: "gather_vms E (ti_conf t) ?p 0 (program_slots ?p) ([], machine_stats_new, times_zero) = Some (docs, tot, tms)"
    using assms(2) gather_vms_none [of E "ti_conf t" ?p 0 "program_slots ?p" "([], machine_stats_new, times_zero)"]
    by (cases "gather_vms E (ti_conf t) ?p 0 (program_slots ?p) ([], machine_stats_new, times_zero)") (auto simp: readable_program_def)
  define obj where "obj = (case st of None \<Rightarrow> SNull | Some d \<Rightarrow> stat_set ''storage'' d SNull)"
  define req where "req = stat_push ''totals'' (totals_doc tot tms) (stat_set ''machines'' (SArray docs) SNull)"
  define obj' where "obj' = stat_set ''program'' (program_doc tp (tm_reservation tms)) (stat_set ''request'' req obj)"
  have new: "stat_get ?name j = SNull"
    using assms(3) by (simp add: stat_get_def stat_names_def map_of_eq_None_iff [THEN iffD2])
  have "stat_get ''request'' obj = SNull" by (simp add: obj_def stat_get_def stat_members_set split: option.splits)
  then have g: "gather_stats E t j = Some (stat_set ?name obj' j)"
    using assms(1) st v new by (simp add: gather_stats_def Let_def obj_def obj'_def req_def split: option.splits)
  have "stat_get ''machines'' req = SArray docs" "stat_get ''totals'' req = totals_doc tot tms" "stat_get ''request'' obj' = req"
    by (simp_all add: obj'_def stat_get_set) (simp_all add: req_def stat_get_def stat_push_def stat_set_def)
  moreover have "docs = map (\<lambda>i. gather_machine E (ti_conf t) (sv_queued E ?p (Some i)) (?ms ! i)) [0..<length ?ms]" "tot = totals_of ?ms"
    using gather_vms_sum [OF v] by (simp_all add: machines_def)
  ultimately show ?thesis using that [OF g refl, of tms] by simp
qed

section \<open>Properties\<close>


definition stats_demo :: "vm_mem stats_env" where
  "stats_demo = \<lparr>sv_times = (\<lambda>mi. times_zero), sv_add = (\<lambda>x y. x + y), sv_bank_capacity = (\<lambda>vm. 0), sv_bank_highest = (\<lambda>vm. 0),
     sv_bank_current = (\<lambda>vm. 0), sv_queued = (\<lambda>p i. 0), sv_timers = (\<lambda>p. 0)\<rparr>"

definition stats_out_demo :: stats_out where
  "stats_out_demo = \<lparr>sj_compile = (\<lambda>r. Some (\<lambda>n. 1)), sj_dump = (\<lambda>i j. Inr ''null''), sj_alloc = (\<lambda>n. True)\<rparr>"

definition slot_demo :: "u64 \<Rightarrow> vm_mem slot" where
  "slot_demo n = \<lparr>sl_mi = Some ((machine_of (\<lambda>a. CHR ''a'', regs_zero))\<lparr>mi_stats := machine_stats_new\<lparr>st_invocations := n\<rparr>\<rparr>),
     sl_prog_ref = False\<rparr>"

text \<open>A tenant whose program has the given request VMs.\<close>

definition tprog_stats :: "vm_mem slot list \<Rightarrow> vm_mem tprog" where
  "tprog_stats sls = (tprog_new ((prog_new demo_conf Map.empty)\<lparr>pg_complete := 1, pg_pool := Some (pool_demo\<lparr>pl_vms := sls\<rparr>)\<rparr>)
     (LocalTask False))\<lparr>tp_task := None\<rparr>"

definition tinst_stats :: "vm_mem slot list \<Rightarrow> vm_mem tinst" where
  "tinst_stats sls = (tinst_new demo_conf)\<lparr>ti_program := Some (tprog_stats sls)\<rparr>"


text \<open>
  C39. The statistics list exactly the programs of the matching tenants that have one. They cannot be
  read, and the process crashes, exactly when such a program has a request VM that has not been forked
  (yet, or because that failed) or a storage VM that has not been made yet.
\<close>

theorem stats_lists_matching:
  assumes "sj_compile Z pattern = Some match"
  shows "(kvm_json_stats E Z True pattern indent ts = None \<longleftrightarrow>
      (\<exists>t\<in>selected match ts. \<exists>tp. ti_program t = Some tp \<and> \<not> readable_program (tp_prog tp))) \<and>
    (kvm_json_stats E Z True pattern indent ts = Some (None, out) \<longrightarrow>
      (\<exists>j. sj_dump Z indent j = Inr out \<and>
        stat_names j = (\<lambda>t. t_name (ti_conf t)) ` {t \<in> selected match ts. ti_program t \<noteq> None}))"
  using json_stats_parts [OF assms] by blast

theorem stats_lists_matching_witness:
  "kvm_json_stats stats_demo stats_out_demo True ''.*'' 2 [(1, tinst_stats [slot_demo 3, \<lparr>sl_mi = None, sl_prog_ref = False\<rparr>])] = None"
proof -
  let ?sls = "[slot_demo 3, \<lparr>sl_mi = None, sl_prog_ref = False\<rparr>]"
  have "program_slots (tp_prog (tprog_stats ?sls)) = ?sls" by (simp add: program_slots_def tprog_stats_def tprog_new_def prog_new_def)
  then have "ti_program (tinst_stats ?sls) = Some (tprog_stats ?sls)" "\<not> readable_program (tp_prog (tprog_stats ?sls))"
    by (simp_all add: tinst_stats_def readable_program_def)
  moreover have "tinst_stats ?sls \<in> selected (\<lambda>n. 1) [(1, tinst_stats ?sls)]" by (simp add: selected_def)
  moreover have "sj_compile stats_out_demo ''.*'' = Some (\<lambda>n. 1)" by (simp add: stats_out_demo_def)
  ultimately show ?thesis
    using stats_lists_matching [of stats_out_demo "''.*''" "\<lambda>n. 1" stats_demo 2 "[(1, tinst_stats ?sls)]"] by blast
qed

end
