(* ===== verification/Logging.thy ===== *)
theory Logging
  imports Machine
begin

text \<open>
  What a guest prints (\<open>print\<close>, \<open>logprint\<close> and \<open>get_vsl_printer\<close> of \<^verbatim>\<open>lib/libkvm/machine_instance.cpp\<close>): each
  piece goes to the log of the request, or to the standard output when there is none, and is marked with
  the name of the program when it begins a line.
\<close>

section \<open>Operations\<close>

text \<open>What has been written to the standard output and to the log of the request, piece by piece.\<close>

record log_out =
  lo_stdout :: "string list"
  lo_vsl :: "string list"

definition NEWLINE :: char where
  "NEWLINE = CHR 0x0A"

text \<open>The conversion \<^verbatim>\<open>%.*s\<close> stops at a zero byte.\<close>

definition upto_zero :: "string \<Rightarrow> string" where
  "upto_zero = takeWhile (\<lambda>c. c \<noteq> CHR 0x00)"

definition machine_print :: "string \<Rightarrow> string \<Rightarrow> 'm machine \<times> log_out \<Rightarrow> 'm machine \<times> log_out" where
  "machine_print name txt s =
     (case s of (mi, out) \<Rightarrow>
        if txt = [] then s
        else (mi\<lparr>mi_last_newline := (last txt = NEWLINE)\<rparr>,
              out\<lparr>lo_stdout := lo_stdout out @ [(if mi_last_newline mi then ''>>> ['' @ name @ ''] '' else []) @ upto_zero txt @ [NEWLINE]]\<rparr>))"

text \<open>\<open>smp\<close> is whether other processors of the VM run, \<open>vsl\<close> whether the context has a log.\<close>

definition machine_logprint ::
    "string \<Rightarrow> bool \<Rightarrow> bool \<Rightarrow> string \<Rightarrow> bool \<Rightarrow> 'm machine \<times> log_out \<Rightarrow> 'm machine \<times> log_out" where
  "machine_logprint name smp vsl txt says s =
     (case s of (mi, out) \<Rightarrow>
        if \<not> smp \<and> mi_ctx mi \<noteq> None \<and> vsl
        then (mi, out\<lparr>lo_vsl := lo_vsl out @ [(if says then name @ '' says: '' else []) @ upto_zero txt]\<rparr>)
        else machine_print name txt s)"

definition MAX_LOG :: nat where
  "MAX_LOG = 2 ^ 20"

definition vsl_printer :: "tenant_conf \<Rightarrow> bool \<Rightarrow> bool \<Rightarrow> string \<Rightarrow> 'm machine \<times> log_out \<Rightarrow> 'm machine \<times> log_out" where
  "vsl_printer conf smp vsl buffer s =
     (if buffer = [] then s
      else if length buffer > MAX_LOG then machine_print (t_name conf) ''Invalid log buffer length'' s
      else
        let has_newline = (last buffer = NEWLINE);
            view = (if has_newline then butlast buffer else buffer);
            s = machine_logprint (t_name conf) smp vsl view (mi_last_newline (fst s)) s;
            s = (if g_print_stdout (t_group conf) then machine_print (t_name conf) view s else s)
        in ((fst s)\<lparr>mi_last_newline := has_newline\<rparr>, snd s))"

section \<open>What the log holds\<close>

text \<open>The entry of a piece that begins a line, or continues one.\<close>

definition log_entry :: "string \<Rightarrow> bool \<Rightarrow> string \<Rightarrow> string" where
  "log_entry name begins buffer =
     (if begins then name @ '' says: '' else []) @ upto_zero (if last buffer = NEWLINE then butlast buffer else buffer)"

fun log_entries :: "string \<Rightarrow> bool \<Rightarrow> string list \<Rightarrow> string list" where
  "log_entries name begins [] = []"
| "log_entries name begins (b # bs) = log_entry name begins b # log_entries name (last b = NEWLINE) bs"

lemma machine_print_log [simp]:
  "lo_vsl (snd (machine_print name txt s)) = lo_vsl (snd s)" "mi_ctx (fst (machine_print name txt s)) = mi_ctx (fst s)"
  by (simp_all add: machine_print_def split: prod.splits)

lemma vsl_printer_piece:
  assumes "mi_ctx (fst s) \<noteq> None" and "buffer \<noteq> []" and "length buffer \<le> MAX_LOG"
  shows "lo_vsl (snd (vsl_printer conf False True buffer s)) =
      lo_vsl (snd s) @ [log_entry (t_name conf) (mi_last_newline (fst s)) buffer]"
    and "mi_last_newline (fst (vsl_printer conf False True buffer s)) = (last buffer = NEWLINE)"
    and "mi_ctx (fst (vsl_printer conf False True buffer s)) = mi_ctx (fst s)"
  using assms by (cases s; simp add: vsl_printer_def machine_logprint_def log_entry_def Let_def)+

text \<open>
  During a request, the log has one entry for each piece the guest prints, in order, and the name of the
  program is put before exactly the pieces that begin a line. Printing to the standard output as well
  makes no difference to the log.
\<close>

lemma log_complete:
  assumes "mi_ctx (fst s) \<noteq> None" and "\<And>b. b \<in> set buffers \<Longrightarrow> b \<noteq> [] \<and> length b \<le> MAX_LOG"
  shows "lo_vsl (snd (fold (vsl_printer conf False True) buffers s)) =
     lo_vsl (snd s) @ log_entries (t_name conf) (mi_last_newline (fst s)) buffers"
  using assms
proof (induction buffers arbitrary: s)
  case (Cons b bs)
  then have b: "b \<noteq> []" "length b \<le> MAX_LOG" by auto
  note piece = vsl_printer_piece [OF Cons.prems(1) b, of conf]
  show ?case using Cons.IH [of "vsl_printer conf False True b s"] Cons.prems piece by simp
qed simp

text \<open>Without a log, a piece that is printed to the standard output as well appears there twice.\<close>

lemma stdout_twice:
  assumes "mi_ctx (fst s) = None" and "g_print_stdout (t_group conf)" and "buffer \<noteq> []" and "length buffer \<le> MAX_LOG"
    and "last buffer \<noteq> NEWLINE"
  shows "\<exists>pre. lo_stdout (snd (vsl_printer conf smp vsl buffer s)) =
     lo_stdout (snd s) @ [pre @ upto_zero buffer @ [NEWLINE], upto_zero buffer @ [NEWLINE]]"
  using assms by (cases s) (simp add: vsl_printer_def machine_logprint_def machine_print_def Let_def)

end
