(* ===== verification/Shutdown.thy ===== *)
theory Shutdown
  imports Program_Init Epoll
begin

text \<open>
  The end of a program (\<open>~ProgramInstance\<close> in \<^verbatim>\<open>lib/libkvm/program_instance.cpp\<close>): request VMs that are still
  being started are waited for, and the socket servers are stopped.
\<close>

section \<open>Operations\<close>

text \<open>A program with its servers: each socket server with the descriptors it has open.\<close>

record 'm servers =
  sr_epoll :: "(host_fd list \<times> 'm epoll) list"
  sr_websocket :: "'m ws_server option"

text \<open>
  The servers are stopped one after the other; \<open>reports\<close> says for each what its thread still handles. None
  is that the process ends.
\<close>

fun stop_epoll :: "'m epoll_env \<Rightarrow> ep_report list option list \<Rightarrow> (host_fd list \<times> 'm epoll) list \<Rightarrow> (host_fd list \<times> 'm epoll) list option" where
  "stop_epoll E reports [] = Some []"
| "stop_epoll E reports (srv # srvs) =
     (case epoll_stop E (case reports of [] \<Rightarrow> None | r # rs \<Rightarrow> r) srv of
        None \<Rightarrow> None
      | Some srv \<Rightarrow> (case stop_epoll E (tl reports) srvs of None \<Rightarrow> None | Some srvs \<Rightarrow> Some (srv # srvs)))"

text \<open>The futures of the VMs after the first are taken, and their exceptions ignored.\<close>

definition finish_vm :: "'m vm_ops \<Rightarrow> (nat \<Rightarrow> bool) \<Rightarrow> nat \<Rightarrow> 'm pool \<Rightarrow> 'm pool" where
  "finish_vm V forked i pool =
     (if i \<notin> set (pl_starting pool) then pool
      else if forked i
      then pool\<lparr>pl_starting := remove1 i (pl_starting pool),
             pl_vms := (pl_vms pool)[i := (pl_vms pool ! i)\<lparr>sl_mi := Some (machine_fork V (pl_conf pool) (pl_main pool))\<rparr>]\<rparr>
      else pool\<lparr>pl_starting := remove1 i (pl_starting pool), pl_failed := i # pl_failed pool\<rparr>)"

definition finish_vms :: "'m vm_ops \<Rightarrow> (nat \<Rightarrow> bool) \<Rightarrow> 'm pool \<Rightarrow> 'm pool" where
  "finish_vms V forked pool = fold (finish_vm V forked) [1..<length (pl_vms pool)] pool"

definition program_destroy ::
    "'m vm_ops \<Rightarrow> 'm epoll_env \<Rightarrow> (nat \<Rightarrow> bool) \<Rightarrow> ep_report list option list \<Rightarrow> 'm pool \<times> 'm servers \<Rightarrow> ('m pool \<times> 'm servers) option" where
  "program_destroy V E forked reports s =
     (case s of (pool, srv) \<Rightarrow>
        let pool = finish_vms V forked pool in
        case stop_epoll E reports (sr_epoll srv) of
          None \<Rightarrow> None
        | Some es \<Rightarrow> Some (pool, srv\<lparr>sr_epoll := es, sr_websocket := map_option ws_server_stop (sr_websocket srv)\<rparr>))"

section \<open>What is left\<close>

lemma stop_epoll_closed:
  "\<lbrakk>stop_epoll E reports srvs = Some srvs'; (fds, s) \<in> set srvs'\<rbrakk> \<Longrightarrow> fds = [] \<and> \<not> es_running s"
proof (induction E reports srvs arbitrary: srvs' rule: stop_epoll.induct)
  case (2 E reports srv srvs)
  obtain fds0 s0 where srv: "srv = (fds0, s0)" by fastforce
  obtain fds1 s1 rest where one: "epoll_stop E (case reports of [] \<Rightarrow> None | r # rs \<Rightarrow> r) srv = Some (fds1, s1)"
      and more: "stop_epoll E (tl reports) srvs = Some rest" and srvs': "srvs' = (fds1, s1) # rest"
    using 2(2) by (auto split: option.splits)
  show ?case
  proof (cases "(fds, s) = (fds1, s1)")
    case True
    then show ?thesis using stop_closes(1,2) [OF one [unfolded srv]] by simp
  next
    case False
    then show ?thesis using 2(1) [OF one more] 2(3) srvs' by auto
  qed
qed simp

lemma finish_vm_starting: "pl_starting (finish_vm V forked i pool) = remove1 i (pl_starting pool)"
  by (simp add: finish_vm_def remove1_idem)

lemma finish_fold_starting:
  "distinct (pl_starting pool) \<Longrightarrow> set (pl_starting (fold (finish_vm V forked) is pool)) = set (pl_starting pool) - set is"
  by (induction "is" arbitrary: pool) (auto simp: finish_vm_starting)

text \<open>
  When a program has ended, no descriptor of its socket servers is open, none of them runs, and no
  request VM after the first is still being started.
\<close>

lemma program_destroyed:
  assumes "program_destroy V E forked reports (pool, srv) = Some (pool', srv')" and "distinct (pl_starting pool)"
  shows "\<forall>(fds, s)\<in>set (sr_epoll srv'). fds = [] \<and> \<not> es_running s"
    and "\<forall>w. sr_websocket srv' = Some w \<longrightarrow> \<not> wss_running w"
    and "\<forall>i\<in>set (pl_starting pool'). i = 0 \<or> length (pl_vms pool) \<le> i"
proof -
  obtain es where es: "stop_epoll E reports (sr_epoll srv) = Some es" "sr_epoll srv' = es"
      "sr_websocket srv' = map_option ws_server_stop (sr_websocket srv)"
      and pool': "pool' = finish_vms V forked pool"
    using assms(1) by (auto simp: program_destroy_def Let_def split: option.splits)
  show "\<forall>(fds, s)\<in>set (sr_epoll srv'). fds = [] \<and> \<not> es_running s" using stop_epoll_closed [OF es(1)] es(2) by blast
  show "\<forall>w. sr_websocket srv' = Some w \<longrightarrow> \<not> wss_running w" using es(3) by (auto simp: ws_server_stop_def)
  show "\<forall>i\<in>set (pl_starting pool'). i = 0 \<or> length (pl_vms pool) \<le> i"
    using finish_fold_starting [OF assms(2), of V forked "[1..<length (pl_vms pool)]"] by (auto simp: pool' finish_vms_def)
qed

end
