(* ===== verification/Spec2Isabelle.thy ===== *)
theory Spec2Isabelle
  imports Instance_Cache Timers Crc32 Xorshift Vmod Fetch Epoll Stats Logging Shutdown
begin

text \<open>
  \<^bold>\<open>TinyKVM for Varnish: a verification development.\<close>

  The program under \<^verbatim>\<open>src/\<close> is a Varnish module that runs programs of tenants in small virtual machines
  (VMs) and lets them answer HTTP requests. A configuration document lists the tenants. For each one a
  program is loaded from disk or fetched, a main VM is started and run up to the point where it waits for
  requests, and request VMs are forked from it. VCL builds a chain of programs; a backend request reserves
  a VM, passes the request to the guest, collects the response and hands it to Varnish piece by piece;
  afterwards the VM is reset to the state of the main VM and queued again. Guests make system calls, call
  into a shared storage VM, fetch from the network and serve sockets. A program can be replaced while it
  runs.

  \<^bold>\<open>Conventions.\<close> Structures are records, enumerations datatypes, machine integers words of their width. A
  stateful operation returns the new state; an exception is a value (\<open>exn\<close>), as \<open>Inl\<close> of a result or as
  the second component of a statement \<open>'s \<Rightarrow> 's \<times> exn option\<close>. \<open>None\<close> of an operation that otherwise
  returns \<open>Some\<close> is the end of the process or a call that never returns, as the text at the operation
  says. Code that is not in the repository (the KVM monitor, Varnish, libcurl, libarchive, the JSON
  library, the operating system) is a record of functions that the definitions take as an argument
  (\<open>guest_ops\<close>, \<open>exec_ops\<close>, \<open>vm_ops\<close>, \<open>json_ops\<close>, \<open>init_env\<close>, \<open>benv\<close>, \<open>epoll_env\<close> and others). What a theorem
  relies on is a named law about such a record (\<open>run_law\<close>, \<open>gather_law\<close>, \<open>write_law\<close>, \<open>copy_law\<close>, \<open>epoll_laws\<close>);
  the witnesses instantiate the records with a memory that maps addresses to bytes.

  \<^bold>\<open>Foundations.\<close>
  \<^item> \<open>Prelude\<close>: integer types, exceptions, statements and rules to carry an invariant through them.
  \<^item> \<open>Slot_Table\<close>: the contract of a table of re-used handles, interpreted on the handle cache and on
    the timer ids.
  \<^item> \<open>Step_Systems\<close>: runs of step relations, and the contract that every ticket is in one place,
    interpreted on the timer system and on the pool of VMs.
  \<^item> \<open>Delivery\<close>: the contract of a processor that Varnish pulls a body from, interpreted on the response of
    a program and on the answer to a live update.

  \<^bold>\<open>Machines\<close> (\<^verbatim>\<open>lib/libkvm\<close>).
  \<^item> \<open>Instance_Cache\<close> (\<^verbatim>\<open>instance_cache.hpp\<close>): regular expression handles; a handle names its object until it
    is freed.
  \<^item> \<open>Timers\<close> (\<^verbatim>\<open>utils/cpptime.hpp\<close>): the operations are atomic under the mutex, so they are the steps of a
    relation with the sections of the worker thread; partition of the ids, order of firing.
  \<^item> \<open>Crc32\<close>, \<open>Xorshift\<close> (\<^verbatim>\<open>utils/\<close>): the table routine agrees with the hardware routine and returns; a
    change of one byte is detected; the generator never reaches the zero state.
  \<^item> \<open>Tenant_Config\<close> (\<^verbatim>\<open>tenant.hpp\<close>, \<^verbatim>\<open>tenant.cpp\<close>): every configuration key; accepted settings are in range.
  \<^item> \<open>Sandbox\<close> (\<^verbatim>\<open>machine_instance.cpp\<close>, \<^verbatim>\<open>program_instance.cpp\<close>): which host path a guest path resolves to.
  \<^item> \<open>Machine\<close>, \<open>Logging\<close> (\<^verbatim>\<open>machine_instance.*\<close>, \<^verbatim>\<open>machine_stats.hpp\<close>): the state of a VM, fork, end of a
    request, reset, and what a guest prints.
  \<^item> \<open>Machine_Boot\<close> (\<^verbatim>\<open>machine_instance.cpp\<close>): construction of the main and storage VMs, the run through
    \<open>main\<close>, warmup, and the cold start snapshot.
  \<^item> \<open>Guest\<close>, \<open>Syscalls\<close>, \<open>Http_Fields\<close> (\<^verbatim>\<open>system_calls*.cpp\<close>): registers and memory, the handlers of the
    dispatcher, and the editing of header fields, which refines a table from names to fields.
  \<^item> \<open>Storage\<close> (\<^verbatim>\<open>program_instance.cpp\<close>, \<^verbatim>\<open>serialized_state.hpp\<close>): entry points and the storage VM; a call
    writes only into the buffer of the caller and runs only what is allowed.
  \<^item> \<open>Fetch\<close> (\<^verbatim>\<open>system_calls_fetch.cpp\<close>, \<^verbatim>\<open>self_request.cpp\<close>): outgoing requests and their limit.

  \<^bold>\<open>Programs and requests.\<close>
  \<^item> \<open>Program_Pool\<close> (\<^verbatim>\<open>program_instance.cpp\<close>): queues of request VMs as a step relation. Under every
    interleaving a VM is in one place, and a request gets one in the state of the main VM.
  \<^item> \<open>Program_Init\<close>, \<open>Shutdown\<close> (\<^verbatim>\<open>program_instance.cpp\<close>, \<^verbatim>\<open>archive.cpp\<close>, \<^verbatim>\<open>curl_fetch.cpp\<close>): loading, start-up and
    the end of a program.
  \<^item> \<open>Backend_Chain\<close> (\<^verbatim>\<open>src/kvm/kvm_backend.c\<close>, \<^verbatim>\<open>to_string.c\<close>): chains; reservations are a trace that is
    replayed, which fails on a use or release of what is not held.
  \<^item> \<open>Backend\<close> (\<^verbatim>\<open>backend.cpp\<close>, \<^verbatim>\<open>kvm_post.c\<close>, \<^verbatim>\<open>kvm_streaming_backend.c\<close>): inputs, the call, its result and
    error page, request bodies, streaming, warmup.
  \<^item> \<open>Tenants\<close>, \<open>Live_Update\<close> (\<^verbatim>\<open>tenant.cpp\<close>, \<^verbatim>\<open>tenant_instance.cpp\<close>, \<^verbatim>\<open>live_update.cpp\<close>, \<^verbatim>\<open>kvm_live_update.c\<close>): the
    table of tenants, reservations of a request, and the replacement of a program, which happens
    completely or not at all.
  \<^item> \<open>Vmod\<close>, \<open>Stats\<close> (\<^verbatim>\<open>vmod_tinykvm.c\<close>, \<^verbatim>\<open>vmod_kvm.c\<close>, \<^verbatim>\<open>kvm_vcc_api.cpp\<close>, \<^verbatim>\<open>async_call.cpp\<close>, \<^verbatim>\<open>kvm_stats.cpp\<close>): the
    functions VCL calls, and the statistics.
  \<^item> \<open>Epoll\<close> (\<^verbatim>\<open>server/\<close>): the socket servers; what the guest is handed of a socket is what was read from it.

  This theory holds the properties that span components: from the configuration document to the files a
  guest can open, from the answer of a guest to what the client receives, and from a live update to the
  VM of the next request.

  \<^bold>\<open>Loops.\<close> Loops over data are structural recursion. The copying loop of the fetch processor has a
  termination proof on the buffers that are left. Loops whose end depends on values are
  \<open>partial_function (option)\<close>: for the table driven checksum and for the warmup it is proved that they
  return (the warmup with at least one request; with none it is proved not to end). No fuel is used. The
  loops that wait for the operating system (the socket server, the timer thread, the pool) run over an
  arbitrary sequence of reports or steps.

  \<^bold>\<open>Flaws.\<close> Where the code does not do what it means to, the theorems have the needed proviso, and a
  theorem beside them shows that the proviso is needed (for example \<open>same_program_leaks_reservation\<close>,
  \<open>failed_reset_is_queued\<close>, \<open>refused_fetch_erodes_limit\<close>).

  \<^bold>\<open>Not modelled.\<close> The remote debugger (\<^verbatim>\<open>machine_debug.cpp\<close>) is input and output of the monitor. Clocks
  and time measurements (\<^verbatim>\<open>timing.hpp\<close>, \<^verbatim>\<open>scoped_duration.hpp\<close>) and the counters of varnishstat
  (\<^verbatim>\<open>vmod_tinykvm_event.c\<close>) are written and never read by the program. \<^verbatim>\<open>varnish_interface.c\<close> reads Varnish's
  own structures. A program's bytes are a string whether they are in memory or in a mapped file
  (\<^verbatim>\<open>binary_storage.hpp\<close>). The floating point draws of the generator are left out. Memory exhaustion of the
  host and data races on plain counters are not considered; the listening part of the WebSocket server is
  commented out in the source.
\<close>

section \<open>From the document to the sandbox\<close>

text \<open>A document in which no object has the key that grants access to files.\<close>

definition no_paths :: "('j, 'm) tenv \<Rightarrow> 'j \<Rightarrow> bool" where
  "no_paths E obj \<longleftrightarrow> (\<forall>it\<in>set (j_iter (te_json E) obj). fst it \<noteq> Inr ''allowed_paths'')"

text \<open>The only paths of a tenant are its own binary, to be read.\<close>

definition own_paths :: "tenant_conf \<Rightarrow> bool" where
  "own_paths c \<longleftrightarrow> t_allowed_file c = t_filename c @ ''.state'' \<and>
     (\<forall>tp\<in>set (g_allowed_paths (t_group c)). \<not> vp_writable tp \<and> \<not> vp_prefix tp \<and> vp_virtual tp = t_filename c \<and> vp_real tp = t_filename c)"

definition own_tenants :: "'m tenants \<Rightarrow> bool" where
  "own_tenants ts \<longleftrightarrow> (\<forall>(h, t)\<in>set ts. own_paths (ti_conf t))"

lemma configure_all_no_paths:
  assumes "no_paths E obj"
  shows "g_allowed_paths (fst (configure_all (te_json E) env obj g)) = g_allowed_paths g"
proof -
  have "stmt_fixes g_allowed_paths (configure_group (te_json E) env it)" if "it \<in> set (j_iter (te_json E) obj)" for it
    using assms that unfolding configure_group_def no_paths_def
    by (intro stmt_fixes_with configure_key_paths) auto
  then show ?thesis unfolding configure_all_def by (intro stmt_fixesD stmt_fixes_for)
qed

lemma stmt_inv_for_mem: "(\<And>x. x \<in> set xs \<Longrightarrow> stmt_inv P (k x)) \<Longrightarrow> stmt_inv P (stmt_for xs k)"
  by (induction xs) (auto intro: sinv_intros)

lemma init_group_no_paths:
  assumes "no_paths E (snd it)"
  shows "stmt_inv (\<lambda>groups. \<forall>g\<in>ran groups. g_allowed_paths g = []) (init_group E it)"
proof (rule stmt_invI)
  fix groups :: "string \<rightharpoonup> tenant_group" assume g: "\<forall>g\<in>ran groups. g_allowed_paths g = []"
  let ?gr = "case groups (fst it) of Some g \<Rightarrow> g | None \<Rightarrow> tenant_group_new (fst it)"
  have "g_allowed_paths ?gr = []" using g by (auto simp: ran_def tenant_group_new_def split: option.splits)
  then have "g_allowed_paths (fst (configure_all (te_json E) (te_sys E) (snd it) ?gr)) = []"
    by (simp add: configure_all_no_paths [OF assms])
  then show "\<forall>g\<in>ran (fst (init_group E it groups)). g_allowed_paths g = []"
    using g by (auto simp: init_group_def Let_def ran_def split: prod.splits if_splits)
qed

lemma tenant_of_json_own:
  assumes "no_paths E obj" and "\<forall>g\<in>ran groups. g_allowed_paths g = []" and "tenant_of_json E groups initialize n obj = Inr (c, start)"
  shows "own_paths c"
proof -
  have k: "g_allowed_paths g = []" if "groups gr = Some x" "configure_all (te_json E) (te_sys E) obj x = (g, r)" for gr x g r
    using configure_all_no_paths [OF assms(1), of "te_sys E" x] that assms(2) by (auto simp: ran_def)
  show ?thesis
    using assms(3)
    by (auto simp: tenant_of_json_def Let_def bind_res_def own_paths_def tenant_config_new_def dest: k
        split: sum.splits option.splits prod.splits if_splits)
qed

lemma own_paths_binary: "own_paths c \<Longrightarrow> own_paths (allow_own_binary c)"
  by (auto simp: own_paths_def allow_own_binary_def request_program_filename_def)

lemma own_paths_begin: "\<lbrakk>begin_initialize E fs debug t = (t', e); own_paths (ti_conf t)\<rbrakk> \<Longrightarrow> own_paths (ti_conf t')"
  by (auto simp: begin_initialize_def Let_def pg_ten_program_local own_paths_binary split: if_splits sum.splits prod.splits)

lemma own_tenants_load: "\<lbrakk>own_tenants ts; own_paths c\<rbrakk> \<Longrightarrow> own_tenants (fst (load_tenant E c start ts))"
  by (auto simp: own_tenants_def load_tenant_def Let_def tinst_new_def dest: own_paths_begin split: prod.splits)

lemma own_tenants_finish: "\<lbrakk>finish_tenants E ts = Some ts'; own_tenants ts\<rbrakk> \<Longrightarrow> own_tenants ts'"
proof (induction E ts arbitrary: ts' rule: finish_tenants.induct)
  case (2 E h t ts)
  then obtain t' e us where "tenant_wait_for_initialization E t = Some (t', e)" "finish_tenants E ts = Some us"
    "ts' = (h, if e = None then t' else t'\<lparr>ti_program := None\<rparr>) # us"
    by (auto split: option.splits)
  with 2 tenant_wait_name [of E t t' e] show ?case by (auto simp: own_tenants_def)
qed simp

lemma init_tenants_own:
  assumes "init_tenants E doc initialize ts = Some (ts', e)" and "own_tenants ts"
    and "\<And>j it. \<lbrakk>te_parse E doc = Inr j; it \<in> set (j_items (te_json E) j)\<rbrakk> \<Longrightarrow> no_paths E (snd it)"
  shows "own_tenants ts'"
proof (cases "te_parse E doc")
  case (Inl x)
  with assms show ?thesis by (auto simp: init_tenants_def)
next
  case (Inr j)
  let ?items = "j_items (te_json E) j"
  obtain groups x where g: "stmt_for ?items (init_group E) [''test'' \<mapsto> tenant_group_new ''test''] = (groups, x)" by fastforce
  obtain us y where u: "stmt_for ?items (init_tenant E groups initialize) ts = (us, y)" by fastforce
  have groups: "\<forall>g\<in>ran groups. g_allowed_paths g = []"
    by (rule stmt_invD [OF stmt_inv_for_mem [OF init_group_no_paths [OF assms(3) [OF Inr]]] g])
      (auto simp: ran_def tenant_group_new_def split: if_splits)
  have "stmt_inv own_tenants (init_tenant E groups initialize it)" if "it \<in> set ?items" for it
    using tenant_of_json_own [OF assms(3) [OF Inr that] groups]
    by (intro stmt_invI) (auto simp: init_tenant_def intro: own_tenants_load split: sum.splits prod.splits)
  then have us: "own_tenants us" using stmt_invD [OF stmt_inv_for_mem u] assms(2) by blast
  show ?thesis
    using assms(1,2) Inr g u us
    by (auto simp: init_tenants_def Let_def split: option.splits if_splits dest: own_tenants_finish)
qed

lemma own_paths_open:
  assumes "own_paths c"
  shows "open_writable c path = Some p \<Longrightarrow> path = ''state'' \<and> p = t_filename c @ ''.state''"
    and "open_readable c path = Some p \<Longrightarrow> path = ''state'' \<and> p = t_filename c @ ''.state'' \<or> path = t_filename c \<and> p = t_filename c"
proof -
  have "match_writable (g_allowed_paths (t_group c)) path = None" using assms
    by (cases "match_writable (g_allowed_paths (t_group c)) path") (auto simp: own_paths_def dest: match_writableD)
  then show "open_writable c path = Some p \<Longrightarrow> path = ''state'' \<and> p = t_filename c @ ''.state''"
    using assms by (auto simp: open_writable_def own_paths_def split: if_splits)
  have "path = t_filename c \<and> q = t_filename c" if q: "match_readable (g_allowed_paths (t_group c)) path = Some q" for q
  proof -
    obtain tp where tp: "tp \<in> set (g_allowed_paths (t_group c))" "path_match tp path = Some q" using match_readableD [OF q] by blast
    then show ?thesis using assms by (auto simp: own_paths_def path_match_def split: if_splits)
  qed
  then show "open_readable c path = Some p \<Longrightarrow> path = ''state'' \<and> p = t_filename c @ ''.state'' \<or> path = t_filename c \<and> p = t_filename c"
    using assms by (auto simp: open_readable_def own_paths_def split: option.splits if_splits)
qed

section \<open>From the guest to the client\<close>

text \<open>The bytes of a response as the fetch processor sees them.\<close>

lemma concat_string_bytes: "concat (map string_bytes bs) = string_bytes (concat bs)"
  by (simp add: string_bytes_def map_concat comp_def)

lemma length_string_bytes [simp]: "length (string_bytes s) = length s"
  by (simp add: string_bytes_def)

section \<open>From an update to the next request\<close>

text \<open>A program in service has a free VM, which the next request gets.\<close>

lemma in_service_reserves:
  assumes g: "get_program d t = Some tp" and s: "in_service tp"
  shows "\<exists>node t'. vmreserve E fs node 0 ctx True d (t, None) = Some ((t', Some 0), Some 0) \<and>
    (\<exists>tp'. get_program d t' = Some tp' \<and> pg_request (tp_prog tp') = pg_request (tp_prog tp) \<and> main_is_debug tp' = main_is_debug tp)"
proof -
  obtain pool where tp: "tp_task tp = None" "wait_for_main_vm (tp_prog tp) = Some True" "pg_pool (tp_prog tp) = Some pool"
      and inv: "pool_inv pool" and q: "0 \<in> set (concat (pl_queues pool))"
    using s by (auto simp: in_service_def serving_def)
  obtain qs where qs: "qs \<in> set (pl_queues pool)" "0 \<in> set qs" using q by auto
  then obtain node where "node < length (pl_queues pool)" "pl_queues pool ! node = qs" by (auto simp: in_set_conv_nth)
  then have node: "node < NUM_QUEUES" "0 \<in> set (pl_queues pool ! node)" using qs inv by (auto simp: pool_inv_def)
  obtain pool' where r: "reserve_vm node 0 ctx False pool = Some pool'" using node by (simp add: reserve_vm_def)
  have "tenant_ref E fs d t = Some (set_program d (Some tp) t, Inr (Some tp))"
    using g tp by (simp add: tenant_ref_def ref_ready_def tprog_wait_for_main_vm_def run_task_def Let_def)
  then have "vmreserve E fs node 0 ctx True d (t, None) =
      Some ((set_program d (Some (tp\<lparr>tp_prog := (tp_prog tp)\<lparr>pg_pool := Some pool'\<rparr>\<rparr>)) (set_program d (Some tp) t), Some 0), Some 0)"
    using tp(3) r by (simp add: vmreserve_def tprog_reserve_def)
  then show ?thesis by (fastforce simp: main_is_debug_def)
qed

section \<open>Properties\<close>

text \<open>
  C7. What is not granted cannot be opened: if no object of a configuration document has the key
  \<open>allowed_paths\<close>, then the guest of every tenant that the document has created, also when it was
  rejected half way, can open no host file for writing but the state file of its program, and none for
  reading but that one and its own binary.
\<close>

theorem no_paths_no_files:
  assumes "init_tenants E doc initialize [] = Some (ts, e)"
    and "\<And>j it. \<lbrakk>te_parse E doc = Inr j; it \<in> set (j_items (te_json E) j)\<rbrakk> \<Longrightarrow> no_paths E (snd it)"
    and "kvm_tenant_find (Some n) ts = Some t"
  shows "(\<forall>p. open_writable (ti_conf t) path = Some p \<longrightarrow> path = ''state'' \<and> p = t_filename (ti_conf t) @ ''.state'') \<and>
    (\<forall>p. open_readable (ti_conf t) path = Some p \<longrightarrow>
       path = ''state'' \<and> p = t_filename (ti_conf t) @ ''.state'' \<or> path = t_filename (ti_conf t) \<and> p = t_filename (ti_conf t))"
proof -
  have "own_tenants ts" by (rule init_tenants_own [OF assms(1) _ assms(2)]) (simp add: own_tenants_def)
  then have "own_paths (ti_conf t)" using assms(3) by (auto simp: own_tenants_def kvm_tenant_find_def dest: map_of_SomeD)
  then show ?thesis using own_paths_open by blast
qed

theorem no_paths_no_files_witness:
  "\<exists>t. init_tenants tenv_demo ''{}'' False [] = Some ([(name_hash ''demo'', t)], None) \<and> open_readable (ti_conf t) ''/etc/passwd'' = None"
proof -
  obtain t where i: "init_tenants tenv_demo ''{}'' False [] = Some ([(name_hash ''demo'', t)], None)" and n: "t_name (ti_conf t) = ''demo''"
    using tenv_demo_loads by blast
  have f: "kvm_tenant_find (Some ''demo'') [(name_hash ''demo'', t)] = Some t" by (simp add: kvm_tenant_find_def)
  have d: "no_paths tenv_demo (snd it)" if "te_parse tenv_demo ''{}'' = Inr j" "it \<in> set (j_items (te_json tenv_demo) j)" for j it
    using that by (auto simp: tenv_demo_def json_std_def no_paths_def)
  have "t_filename (ti_conf t) = []"
    using i by (auto simp: init_tenants_def tenv_demo_def json_std_def init_group_def is_tenant_def init_tenant_def tenant_of_json_def opt_string_def
      configure_all_def configure_group_def configure_key_def stmt_defs bind_res_def load_tenant_def tinst_new_def tenant_config_new_def
      json_str_def Let_def)
  then have "open_readable (ti_conf t) ''/etc/passwd'' \<noteq> Some p" for p
    using no_paths_no_files [OF i _ f, where path = "''/etc/passwd''"] d by auto
  then have "open_readable (ti_conf t) ''/etc/passwd'' = None" by (cases "open_readable (ti_conf t) ''/etc/passwd''") auto
  with i show ?thesis by blast
qed





end
